theory Spec2Isabelle
  imports Main "HOL-Library.Word" "HOL-Library.Signed_Division"
begin

unbundle bit_operations_syntax

section \<open>Go values\<close>

text \<open>
  The sources under \<open>src/\<close> hold two revisions of the printer, the parser and the transport
  writers. The revision with the \<open>retryDelay\<close> field and the tagged log lines
  (\<open>src/main.go\<close> from line 513, \<open>src/unnamed/part_001\<close>, \<open>src/unnamed/part_002\<close> lines 1-157)
  keeps the source's names here. The other revision (\<open>src/printer.go\<close> lines 1-180,
  \<open>src/epson_parser.go\<close>, \<open>src/unnamed/part_002\<close> lines 158-255) has the same names with a
  trailing \<open>0\<close>. Log output is not modelled.

  Go's \<open>int\<close> is a 64-bit two's complement integer: \<open>+\<close>, \<open>-\<close> and \<open>*\<close> wrap around,
  \<open>/\<close> truncates towards zero, comparisons read the signed value. \<open>len\<close> of a slice is
  read as \<open>int (length xs)\<close>; a Go slice holds fewer than \<open>2 ^ 63\<close> elements.

  The Go runtime does not grant a slice of any length. \<open>make([]byte, n)\<close> panics
  ("makeslice: len out of range") when \<open>n\<close> is negative or above the runtime's limit, and
  \<open>append\<close> panics ("growslice: len out of range") when the slice would have to grow above
  it. The limit is a parameter of the model, the field \<open>slice_limit\<close> of a \<open>runtime\<close>: the
  runtime makes and grows byte slices up to this length and no further. No 64-bit Go runtime
  grants more than \<open>2 ^ 48\<close> bytes (its \<open>maxAlloc\<close>); the rounding of capacities and the
  memory of the machine put the limit lower. \<open>example_runtime\<close>, used where an example needs
  a runtime, grants 4 GiB.
\<close>

type_synonym go_int = "64 word"
type_synonym byte = "8 word"

datatype panic =
  NilDereference | SliceBoundsOutOfRange | MakeSliceLenOutOfRange | GrowSliceLenOutOfRange

datatype 'r go = Return 'r | Panic panic

datatype error =
    External string
  | Wrap string error
  | PrintDataTooShort int int
  | CenterDataTooShort int int
  | CenterRowOutOfBounds int
  | XMLSyntaxError error
  | Base64DecodeError error
  | ImageDataIncomplete int int int int

definition go_quo :: "go_int \<Rightarrow> go_int \<Rightarrow> go_int" where
  \<comment> \<open>\<open>a / b\<close> for a non-zero constant \<open>b\<close>\<close>
  "go_quo a b = word_of_int (sint a sdiv sint b)"

record runtime =
  slice_limit :: int

definition example_runtime :: runtime where
  "example_runtime = \<lparr>slice_limit = 2 ^ 32\<rparr>"

definition make_bytes :: "runtime \<Rightarrow> go_int \<Rightarrow> byte list go" where
  \<comment> \<open>\<open>make([]byte, n)\<close>\<close>
  "make_bytes rt n =
     (if sint n < 0 \<or> slice_limit rt < sint n then Panic MakeSliceLenOutOfRange
      else Return (replicate (nat (sint n)) 0))"

definition append_bytes :: "runtime \<Rightarrow> byte list \<Rightarrow> byte list \<Rightarrow> byte list go" where
  \<comment> \<open>\<open>append(s, t...)\<close>; appending nothing never grows the slice\<close>
  "append_bytes rt s t =
     (if t \<noteq> [] \<and> slice_limit rt < int (length s) + int (length t) then Panic GrowSliceLenOutOfRange
      else Return (s @ t))"

definition append_zeros :: "runtime \<Rightarrow> byte list \<Rightarrow> go_int \<Rightarrow> byte list go" where
  \<comment> \<open>\<open>append(s, make([]byte, n)...)\<close>\<close>
  "append_zeros rt s n =
     (case make_bytes rt n of Panic k \<Rightarrow> Panic k | Return zeros \<Rightarrow> append_bytes rt s zeros)"

definition slice :: "'a list \<Rightarrow> go_int \<Rightarrow> go_int \<Rightarrow> 'a list go" where
  \<comment> \<open>\<open>d[lo:hi]\<close> on a slice whose capacity is its length\<close>
  "slice d lo hi =
     (if 0 \<le> sint lo \<and> sint lo \<le> sint hi \<and> sint hi \<le> int (length d)
      then Return (take (nat (sint hi) - nat (sint lo)) (drop (nat (sint lo)) d))
      else Panic SliceBoundsOutOfRange)"

section \<open>Protocol encoder\<close>

definition CUT_CMD :: "byte list" where
  "CUT_CMD = [0x1d, 0x56, 0x00]"

definition PRINT_RASTER_CMD :: "byte list" where
  "PRINT_RASTER_CMD = [0x1d, 0x76, 0x30, 0x00]"

definition FEED_N_CMD :: "go_int \<Rightarrow> byte list" where
  "FEED_N_CMD n = [0x1b, 0x64, ucast n]"

definition KICK_CMD :: "byte list" where
  "KICK_CMD = [0x1B, 0x70, 0, 25, 25]"

subsection \<open>\<open>center\<close>, \<open>src/main.go\<close> lines 737-781\<close>

text \<open>
  \<open>for y := range h\<close> runs \<open>y = 0, ..., h - 1\<close> and not at all when \<open>h \<le> 0\<close>: the loop is
  a recursion over \<open>[0..<nat (sint h)]\<close>, each \<open>y\<close> read back as a Go \<open>int\<close>.
\<close>

fun center_rows ::
  "runtime \<Rightarrow> byte list \<Rightarrow> go_int \<Rightarrow> go_int \<Rightarrow> go_int \<Rightarrow> nat list \<Rightarrow> byte list
   \<Rightarrow> (error + byte list) go"
where
  "center_rows rt d w_b p_w_b padding_bytes [] centered_data = Return (Inr centered_data)"
| "center_rows rt d w_b p_w_b padding_bytes (y # ys) centered_data =
     (let row_start = of_nat y * w_b;
          row_end = row_start + w_b
      in if int (length d) < sint row_end then Return (Inl (CenterRowOutOfBounds (int y)))
         else case slice d row_start row_end of
             Panic k \<Rightarrow> Panic k
           | Return row_data \<Rightarrow>
               (case (if 0 < sint padding_bytes
                      then append_zeros rt centered_data padding_bytes
                      else Return centered_data) of
                  Panic k \<Rightarrow> Panic k
                | Return centered_data1 \<Rightarrow>
                    (case append_bytes rt centered_data1 row_data of
                       Panic k \<Rightarrow> Panic k
                     | Return centered_data2 \<Rightarrow>
                         (let right_padding = p_w_b - w_b - padding_bytes
                          in case (if 0 < sint right_padding
                                   then append_zeros rt centered_data2 right_padding
                                   else Return centered_data2) of
                               Panic k \<Rightarrow> Panic k
                             | Return centered_data3 \<Rightarrow>
                                 center_rows rt d w_b p_w_b padding_bytes ys centered_data3))))"

definition center ::
  "runtime \<Rightarrow> byte list \<Rightarrow> go_int \<Rightarrow> go_int \<Rightarrow> go_int \<Rightarrow> (error + byte list) go"
where
  "center rt d w_b p_w_b h =
     (let expected_len = w_b * h
      in if int (length d) < sint expected_len
         then Return (Inl (CenterDataTooShort (int (length d)) (sint expected_len)))
         else let padding_bytes = go_quo (p_w_b - w_b) 2
              in center_rows rt d w_b p_w_b padding_bytes [0..<nat (sint h)] [])"

subsection \<open>\<open>center\<close>, \<open>src/printer.go\<close> lines 147-173\<close>

text \<open>This revision calls \<open>make\<close> and \<open>append\<close> for both paddings without a guard.\<close>

fun center_rows0 ::
  "runtime \<Rightarrow> byte list \<Rightarrow> go_int \<Rightarrow> go_int \<Rightarrow> go_int \<Rightarrow> nat list \<Rightarrow> byte list
   \<Rightarrow> (error + byte list) go"
where
  "center_rows0 rt d w_b p_w_b padding_bytes [] centered_data = Return (Inr centered_data)"
| "center_rows0 rt d w_b p_w_b padding_bytes (y # ys) centered_data =
     (let row_start = of_nat y * w_b;
          row_end = row_start + w_b
      in if int (length d) < sint row_end then Return (Inl (CenterRowOutOfBounds (int y)))
         else case slice d row_start row_end of
             Panic k \<Rightarrow> Panic k
           | Return row_data \<Rightarrow>
               (case append_zeros rt centered_data padding_bytes of
                  Panic k \<Rightarrow> Panic k
                | Return centered_data1 \<Rightarrow>
                    (case append_bytes rt centered_data1 row_data of
                       Panic k \<Rightarrow> Panic k
                     | Return centered_data2 \<Rightarrow>
                         (case append_zeros rt centered_data2 (p_w_b - w_b - padding_bytes) of
                            Panic k \<Rightarrow> Panic k
                          | Return centered_data3 \<Rightarrow>
                              center_rows0 rt d w_b p_w_b padding_bytes ys centered_data3))))"

definition center0 ::
  "runtime \<Rightarrow> byte list \<Rightarrow> go_int \<Rightarrow> go_int \<Rightarrow> go_int \<Rightarrow> (error + byte list) go"
where
  "center0 rt d w_b p_w_b h =
     (let expected_len = w_b * h
      in if int (length d) < sint expected_len
         then Return (Inl (CenterDataTooShort (int (length d)) (sint expected_len)))
         else let padding_bytes = go_quo (p_w_b - w_b) 2
              in center_rows0 rt d w_b p_w_b padding_bytes [0..<nat (sint h)] [])"

text \<open>The rows the centering transform is specified to produce.\<close>

definition centered_row :: "byte list \<Rightarrow> nat \<Rightarrow> nat \<Rightarrow> nat \<Rightarrow> nat \<Rightarrow> byte list" where
  "centered_row d w left right y = replicate left 0 @ take w (drop (y * w) d) @ replicate right 0"

definition centered_rows :: "byte list \<Rightarrow> int \<Rightarrow> int \<Rightarrow> int \<Rightarrow> byte list" where
  "centered_rows d w_b p_w_b h =
     (let left_pad = (p_w_b - w_b) div 2;
          right_pad = p_w_b - w_b - left_pad
      in concat (map (centered_row d (nat w_b) (nat left_pad) (nat right_pad)) [0..<nat h]))"

section \<open>Resilient printer\<close>

subsection \<open>The transport capability and the printer\<close>

text \<open>
  \<open>Writable\<close> (\<open>src/unnamed/part_002\<close> lines 13-17) is an interface: a transport is a
  record of its three methods over a state \<open>'s\<close> that holds whatever the transport and the
  wrapped operation can change. \<open>Printer\<close> is the struct of \<open>src/main.go\<close> lines 521-526; its
  \<open>connection\<close> can be \<open>nil\<close>. The struct of \<open>src/printer.go\<close> lines 9-13 has no
  \<open>retryDelay\<close>, and the functions of that revision do not read the field.
\<close>

record 's Writable =
  WriteRaw :: "byte list \<Rightarrow> 's \<Rightarrow> error option \<times> 's"
  Open :: "'s \<Rightarrow> error option \<times> 's"
  Close :: "'s \<Rightarrow> error option \<times> 's"

record 's Printer =
  connection_string :: string
  receipt_width :: go_int
  connection :: "'s Writable option"
  retryDelay :: int

text \<open>
  What a call does to the outside is recorded as a trace: one \<open>FnCall\<close> for each invocation
  of the wrapped operation, followed by what the operation itself reports (\<open>FnEmit\<close>; for the
  printer's closures the buffer of each \<open>WriteRaw\<close> call), and one event for each call of
  \<open>Close\<close>, \<open>time.Sleep\<close> (with its duration in nanoseconds) and \<open>Open\<close> that \<open>withRetry\<close>
  makes.
\<close>

datatype 'x event = FnCall | FnEmit 'x | CloseCall | SleepCall int | OpenCall

type_synonym ('s, 'a, 'x) operation = "'s \<Rightarrow> ('a \<times> error option) go \<times> 's \<times> 'x list"

definition emit :: "'x event list \<Rightarrow> 'r \<times> 's \<times> 'x event list \<Rightarrow> 'r \<times> 's \<times> 'x event list" where
  "emit es r = (case r of (v, s, tr) \<Rightarrow> (v, s, es @ tr))"

definition close_connection :: "'s Printer \<Rightarrow> 's \<Rightarrow> 's \<times> 'x event list" where
  \<comment> \<open>\<open>if p.connection != nil { p.connection.Close() }\<close>; the close error is only logged\<close>
  "close_connection p s =
     (case connection p of None \<Rightarrow> (s, []) | Some c \<Rightarrow> (snd (Close c s), [CloseCall]))"

subsection \<open>\<open>withRetry\<close>, \<open>src/main.go\<close> lines 541-588\<close>

text \<open>
  \<open>for i := range maxRetries\<close> is a recursion over \<open>[0..<nat maxRetries]\<close>; \<open>result\<close> and
  \<open>err\<close> are the loop's two variables, \<open>zero\<close> the zero value of \<open>T\<close>.
\<close>

fun retry_loop ::
  "'s Printer \<Rightarrow> int \<Rightarrow> ('s, 'a, 'x) operation \<Rightarrow> nat list \<Rightarrow> 'a \<Rightarrow> error option \<Rightarrow> 's
   \<Rightarrow> ('a \<times> error option) go \<times> 's \<times> 'x event list"
where
  "retry_loop p maxRetries fn [] result err s = (Return (result, err), s, [])"
| "retry_loop p maxRetries fn (i # is) result err s =
     (case fn s of
        (Panic k, s1, xs) \<Rightarrow> (Panic k, s1, FnCall # map FnEmit xs)
      | (Return (result1, None), s1, xs) \<Rightarrow> (Return (result1, None), s1, FnCall # map FnEmit xs)
      | (Return (result1, Some e), s1, xs) \<Rightarrow>
          (case close_connection p s1 of (s2, closed) \<Rightarrow>
             if int i < maxRetries - 1 then
               (case connection p of
                  None \<Rightarrow>
                    (Panic NilDereference, s2,
                     FnCall # map FnEmit xs @ closed @ [SleepCall (retryDelay p)])
                | Some c \<Rightarrow>
                    (case Open c s2 of
                       (Some openErr, s3) \<Rightarrow>
                         emit (FnCall # map FnEmit xs @ closed @ [SleepCall (retryDelay p), OpenCall])
                           (retry_loop p maxRetries fn is result1 (Some openErr) s3)
                     | (None, s3) \<Rightarrow>
                         emit (FnCall # map FnEmit xs @ closed @ [SleepCall (retryDelay p), OpenCall])
                           (retry_loop p maxRetries fn is result1 (Some e) s3)))
             else emit (FnCall # map FnEmit xs @ closed)
                    (retry_loop p maxRetries fn is result1 (Some e) s2)))"

definition withRetry ::
  "'a \<Rightarrow> 's Printer \<Rightarrow> int \<Rightarrow> ('s, 'a, 'x) operation \<Rightarrow> 's
   \<Rightarrow> ('a \<times> error option) go \<times> 's \<times> 'x event list"
where
  "withRetry zero p maxRetries fn s = retry_loop p maxRetries fn [0..<nat maxRetries] zero None s"

subsection \<open>\<open>withRetry\<close>, \<open>src/printer.go\<close> lines 28-57\<close>

text \<open>This revision sleeps two seconds and reopens after every failed attempt.\<close>

fun retry_loop0 ::
  "'s Printer \<Rightarrow> int \<Rightarrow> ('s, 'a, 'x) operation \<Rightarrow> nat list \<Rightarrow> 'a \<Rightarrow> error option \<Rightarrow> 's
   \<Rightarrow> ('a \<times> error option) go \<times> 's \<times> 'x event list"
where
  "retry_loop0 p maxRetries fn [] result err s = (Return (result, err), s, [])"
| "retry_loop0 p maxRetries fn (i # is) result err s =
     (case fn s of
        (Panic k, s1, xs) \<Rightarrow> (Panic k, s1, FnCall # map FnEmit xs)
      | (Return (result1, None), s1, xs) \<Rightarrow> (Return (result1, None), s1, FnCall # map FnEmit xs)
      | (Return (result1, Some e), s1, xs) \<Rightarrow>
          (case close_connection p s1 of (s2, closed) \<Rightarrow>
             (case connection p of
                None \<Rightarrow>
                  (Panic NilDereference, s2,
                   FnCall # map FnEmit xs @ closed @ [SleepCall 2000000000])
              | Some c \<Rightarrow>
                  (case Open c s2 of
                     (Some openErr, s3) \<Rightarrow>
                       emit (FnCall # map FnEmit xs @ closed @ [SleepCall 2000000000, OpenCall])
                         (retry_loop0 p maxRetries fn is result1 (Some openErr) s3)
                   | (None, s3) \<Rightarrow>
                       emit (FnCall # map FnEmit xs @ closed @ [SleepCall 2000000000, OpenCall])
                         (retry_loop0 p maxRetries fn is result1 (Some e) s3)))))"

definition withRetry0 ::
  "'a \<Rightarrow> 's Printer \<Rightarrow> int \<Rightarrow> ('s, 'a, 'x) operation \<Rightarrow> 's
   \<Rightarrow> ('a \<times> error option) go \<times> 's \<times> 'x event list"
where
  "withRetry0 zero p maxRetries fn s = retry_loop0 p maxRetries fn [0..<nat maxRetries] zero None s"

subsection \<open>The printer's operations\<close>

definition write_raw :: "'s Printer \<Rightarrow> byte list \<Rightarrow> 's \<Rightarrow> error option go \<times> 's \<times> byte list list" where
  \<comment> \<open>\<open>p.connection.WriteRaw(data)\<close>\<close>
  "write_raw p data s =
     (case connection p of
        None \<Rightarrow> (Panic NilDereference, s, [])
      | Some c \<Rightarrow> (case WriteRaw c data s of (err, s1) \<Rightarrow> (Return err, s1, [data])))"

definition drop_result ::
  "('a \<times> error option) go \<times> 's \<times> 'x event list \<Rightarrow> error option go \<times> 's \<times> 'x event list" where
  \<comment> \<open>\<open>_, err := withRetry(...); return err\<close>\<close>
  "drop_result r =
     (case r of (Panic k, s, tr) \<Rightarrow> (Panic k, s, tr) | (Return (v, err), s, tr) \<Rightarrow> (Return err, s, tr))"

text \<open>\<open>Cut\<close>, \<open>src/main.go\<close> lines 708-735: the closure, then the method.\<close>

definition Cut_fn :: "'s Printer \<Rightarrow> ('s, unit, byte list) operation" where
  "Cut_fn p s =
     (case write_raw p CUT_CMD s of
        (Panic k, s1, xs) \<Rightarrow> (Panic k, s1, xs)
      | (Return (Some e), s1, xs) \<Rightarrow> (Return ((), Some (Wrap ''cut command failed'' e)), s1, xs)
      | (Return None, s1, xs) \<Rightarrow>
          (case write_raw p (FEED_N_CMD 2) s1 of
             (Panic k, s2, ys) \<Rightarrow> (Panic k, s2, xs @ ys)
           | (Return (Some e), s2, ys) \<Rightarrow>
               (Return ((), Some (Wrap ''feed command failed'' e)), s2, xs @ ys)
           | (Return None, s2, ys) \<Rightarrow> (Return ((), None), s2, xs @ ys)))"

definition Cut :: "'s Printer \<Rightarrow> 's \<Rightarrow> error option go \<times> 's \<times> byte list event list" where
  "Cut p s = drop_result (withRetry () p 8 (Cut_fn p) s)"

text \<open>\<open>Cut\<close>, \<open>src/printer.go\<close> lines 132-145: the errors are returned as they are.\<close>

definition Cut_fn0 :: "'s Printer \<Rightarrow> ('s, unit, byte list) operation" where
  "Cut_fn0 p s =
     (case write_raw p CUT_CMD s of
        (Panic k, s1, xs) \<Rightarrow> (Panic k, s1, xs)
      | (Return (Some e), s1, xs) \<Rightarrow> (Return ((), Some e), s1, xs)
      | (Return None, s1, xs) \<Rightarrow>
          (case write_raw p (FEED_N_CMD 2) s1 of
             (Panic k, s2, ys) \<Rightarrow> (Panic k, s2, xs @ ys)
           | (Return (Some e), s2, ys) \<Rightarrow> (Return ((), Some e), s2, xs @ ys)
           | (Return None, s2, ys) \<Rightarrow> (Return ((), None), s2, xs @ ys)))"

definition Cut0 :: "'s Printer \<Rightarrow> 's \<Rightarrow> error option go \<times> 's \<times> byte list event list" where
  "Cut0 p s = drop_result (withRetry0 () p 8 (Cut_fn0 p) s)"

text \<open>
  \<open>PrintGraphics\<close>, \<open>src/main.go\<close> lines 625-683 and \<open>src/printer.go\<close> lines 81-118. The two
  differ in the \<open>center\<close> and the \<open>withRetry\<close> they call. \<open>raster_command\<close> is the method up
  to the assembled buffer \<open>buf\<close>, \<open>PrintGraphics_fn\<close> the closure handed to \<open>withRetry\<close>.
  \<open>buf\<close> is made eleven bytes longer than the raster data, which the caller or \<open>center\<close>
  already holds; making it is taken to succeed.
\<close>

definition raster_buffer :: "byte list \<Rightarrow> go_int \<Rightarrow> go_int \<Rightarrow> byte list" where
  "raster_buffer raster_data width_bytes height =
     (let xL = ucast (width_bytes AND 0xFF) :: byte;
          xH = ucast (signed_drop_bit 8 width_bytes AND 0xFF) :: byte;
          yL = ucast (height AND 0xFF) :: byte;
          yH = ucast (signed_drop_bit 8 height AND 0xff) :: byte
      in PRINT_RASTER_CMD @ [xL, xH, yL, yH] @ raster_data @ FEED_N_CMD 12)"

definition raster_command ::
  "(byte list \<Rightarrow> go_int \<Rightarrow> go_int \<Rightarrow> go_int \<Rightarrow> (error + byte list) go)
   \<Rightarrow> go_int \<Rightarrow> byte list \<Rightarrow> go_int \<Rightarrow> go_int \<Rightarrow> (error + byte list) go"
where
  "raster_command center_impl p_receipt_width data width height =
     (let width_bytes = go_quo width 8;
          required_bytes = width_bytes * height
      in if int (length data) < sint required_bytes
         then Return (Inl (PrintDataTooShort (int (length data)) (sint required_bytes)))
         else case slice data 0 required_bytes of
             Panic k \<Rightarrow> Panic k
           | Return raster_data \<Rightarrow>
               (let paper_width_bytes = go_quo p_receipt_width 8
                in if sint width < sint p_receipt_width
                   then (case center_impl raster_data width_bytes paper_width_bytes height of
                           Panic k \<Rightarrow> Panic k
                         | Return (Inl err) \<Rightarrow> Return (Inl err)
                         | Return (Inr centered) \<Rightarrow>
                             Return (Inr (raster_buffer centered paper_width_bytes height)))
                   else Return (Inr (raster_buffer raster_data width_bytes height))))"

definition PrintGraphics_fn :: "'s Printer \<Rightarrow> byte list \<Rightarrow> ('s, unit, byte list) operation" where
  "PrintGraphics_fn p buf s =
     (case write_raw p buf s of
        (Panic k, s1, xs) \<Rightarrow> (Panic k, s1, xs)
      | (Return err, s1, xs) \<Rightarrow> (Return ((), err), s1, xs))"

definition PrintGraphics ::
  "runtime \<Rightarrow> 's Printer \<Rightarrow> byte list \<Rightarrow> go_int \<Rightarrow> go_int \<Rightarrow> 's
   \<Rightarrow> error option go \<times> 's \<times> byte list event list"
where
  "PrintGraphics rt p data width height s =
     (case raster_command (center rt) (receipt_width p) data width height of
        Panic k \<Rightarrow> (Panic k, s, [])
      | Return (Inl err) \<Rightarrow> (Return (Some err), s, [])
      | Return (Inr buf) \<Rightarrow> drop_result (withRetry () p 3 (PrintGraphics_fn p buf) s))"

definition PrintGraphics0 ::
  "runtime \<Rightarrow> 's Printer \<Rightarrow> byte list \<Rightarrow> go_int \<Rightarrow> go_int \<Rightarrow> 's
   \<Rightarrow> error option go \<times> 's \<times> byte list event list"
where
  "PrintGraphics0 rt p data width height s =
     (case raster_command (center0 rt) (receipt_width p) data width height of
        Panic k \<Rightarrow> (Panic k, s, [])
      | Return (Inl err) \<Rightarrow> (Return (Some err), s, [])
      | Return (Inr buf) \<Rightarrow> drop_result (withRetry0 () p 3 (PrintGraphics_fn p buf) s))"

subsection \<open>Reading a trace\<close>

text \<open>
  The state in which attempt \<open>j\<close> (counted from 0) starts when every earlier attempt failed
  and was followed by \<open>Close\<close> and \<open>Open\<close>, and the reports of the wrapped operation grouped
  by attempt.
\<close>

definition reconnect :: "'s Writable \<Rightarrow> 's \<Rightarrow> 's" where
  "reconnect c s = snd (Open c (snd (Close c s)))"

fun attempt_state :: "'s Writable \<Rightarrow> ('s, 'a, 'x) operation \<Rightarrow> 's \<Rightarrow> nat \<Rightarrow> 's" where
  "attempt_state c fn s 0 = s"
| "attempt_state c fn s (Suc j) = reconnect c (fst (snd (fn (attempt_state c fn s j))))"

fun reports :: "'x event list \<Rightarrow> 'x list" where
  "reports (FnEmit x # es) = x # reports es"
| "reports es = []"

fun attempts :: "'x event list \<Rightarrow> 'x list list" where
  "attempts [] = []"
| "attempts (FnCall # es) = reports es # attempts es"
| "attempts (e # es) = attempts es"

subsection \<open>The test doubles of \<open>src/printer.go\<close> lines 190-214\<close>

record MockWritable =
  WriteRawError :: "error option"
  OpenError :: "error option"
  CloseError :: "error option"
  WriteRawCalls :: "byte list list"
  OpenCallCount :: nat
  CloseCallCount :: nat

definition MockWritable_WriteRaw :: "byte list \<Rightarrow> MockWritable \<Rightarrow> error option \<times> MockWritable" where
  "MockWritable_WriteRaw data m = (WriteRawError m, m\<lparr>WriteRawCalls := WriteRawCalls m @ [data]\<rparr>)"

definition MockWritable_Open :: "MockWritable \<Rightarrow> error option \<times> MockWritable" where
  "MockWritable_Open m = (OpenError m, m\<lparr>OpenCallCount := OpenCallCount m + 1\<rparr>)"

definition MockWritable_Close :: "MockWritable \<Rightarrow> error option \<times> MockWritable" where
  "MockWritable_Close m = (CloseError m, m\<lparr>CloseCallCount := CloseCallCount m + 1\<rparr>)"

text \<open>
  A test's state is the mock together with the counter its closure captures
  (\<open>callCount\<close>, \<open>fnCallCount\<close>); the methods act on the mock.
\<close>

definition on_mock ::
  "(MockWritable \<Rightarrow> error option \<times> MockWritable) \<Rightarrow> MockWritable \<times> nat \<Rightarrow> error option \<times> MockWritable \<times> nat"
where
  "on_mock f s = (case f (fst s) of (err, m) \<Rightarrow> (err, m, snd s))"

definition mock_connection :: "(MockWritable \<times> nat) Writable" where
  "mock_connection =
     \<lparr>WriteRaw = (\<lambda>data. on_mock (MockWritable_WriteRaw data)),
      Open = on_mock MockWritable_Open,
      Close = on_mock MockWritable_Close\<rparr>"

definition new_mock :: MockWritable where
  \<comment> \<open>\<open>&MockWritable{}\<close>\<close>
  "new_mock = \<lparr>WriteRawError = None, OpenError = None, CloseError = None, WriteRawCalls = [],
     OpenCallCount = 0, CloseCallCount = 0\<rparr>"

definition mock_printer :: "(MockWritable \<times> nat) Printer" where
  "mock_printer = \<lparr>connection_string = ''/test'', receipt_width = 576,
     connection = Some mock_connection, retryDelay = 0\<rparr>"

definition always_fails :: "(MockWritable \<times> nat, string option, byte list) operation" where
  \<comment> \<open>\<open>func() (any, error) { return nil, errors.New("always fails") }\<close>\<close>
  "always_fails s = (Return (None, Some (External ''always fails'')), s, [])"

definition fails_first_2_times :: "(MockWritable \<times> nat, string option, byte list) operation" where
  \<comment> \<open>the closure of \<open>TestWithRetry_OpenCalledOnlyOnFailureRetries\<close>, lines 689-695\<close>
  "fails_first_2_times s =
     (let callCount = snd s + 1
      in if callCount < 3
         then (Return (None, Some (External ''fails first 2 times'')), (fst s, callCount), [])
         else (Return (Some ''success'', None), (fst s, callCount), []))"

text \<open>
  What a successful \<open>Cut\<close> must have sent, attempt by attempt: the last attempt the cut
  bytes and then the feed bytes, every earlier attempt the cut bytes alone (the first write
  failed) or both (the second write failed).
\<close>

definition cut_attempts :: "byte list list list \<Rightarrow> bool" where
  "cut_attempts as \<longleftrightarrow>
     as \<noteq> [] \<and> last as = [[0x1d, 0x56, 0x00], [0x1b, 0x64, 2]]
     \<and> (\<forall>a\<in>set (butlast as). a = [[0x1d, 0x56, 0x00]] \<or> a = [[0x1d, 0x56, 0x00], [0x1b, 0x64, 2]])"

text \<open>
  A transport for the examples: its state counts the writes, and only the second write
  fails.
\<close>

definition flaky_connection :: "nat Writable" where
  "flaky_connection =
     \<lparr>WriteRaw = (\<lambda>data n. (if n = 1 then Some (External ''write failed'') else None, Suc n)),
      Open = (\<lambda>n. (None, n)),
      Close = (\<lambda>n. (None, n))\<rparr>"

definition flaky_printer :: "nat Printer" where
  "flaky_printer = \<lparr>connection_string = ''/test'', receipt_width = 576,
     connection = Some flaky_connection, retryDelay = 0\<rparr>"

text \<open>
  A second transport for the examples: its state counts the writes, and the first \<open>k\<close>
  writes fail.
\<close>

definition failing_connection :: "nat \<Rightarrow> nat Writable" where
  "failing_connection k =
     \<lparr>WriteRaw = (\<lambda>data n. (if n < k then Some (External ''write failed'') else None, Suc n)),
      Open = (\<lambda>n. (None, n)),
      Close = (\<lambda>n. (None, n))\<rparr>"

definition failing_printer :: "nat \<Rightarrow> nat Printer" where
  "failing_printer k = \<lparr>connection_string = ''/test'', receipt_width = 576,
     connection = Some (failing_connection k), retryDelay = 0\<rparr>"

text \<open>
  The buffer a raster command without centering is specified to hold: the prefix, \<open>width / 8\<close>
  and \<open>height\<close> as two little-endian 16-bit values, the first \<open>(width / 8) * height\<close> bytes
  of the data, and the feed command.
\<close>

definition le16 :: "int \<Rightarrow> byte list" where
  "le16 v = [word_of_int (v mod 256), word_of_int (v div 256 mod 256)]"

definition uncentred_raster_command :: "byte list \<Rightarrow> go_int \<Rightarrow> go_int \<Rightarrow> byte list" where
  "uncentred_raster_command data width height =
     [0x1D, 0x76, 0x30, 0x00] @ le16 (sint (go_quo width 8)) @ le16 (sint height)
     @ take (nat (sint (go_quo width 8 * height))) data @ [0x1B, 0x64, 12]"

section \<open>Instruction parser\<close>

subsection \<open>The data model, \<open>src/unnamed/part_001\<close> lines 12-34\<close>

datatype InstructionType = InstImage | InstPulse | InstCut

record ImageDecoded =
  Width :: go_int
  Height :: go_int
  Data :: "byte list"

record Instruction =
  Type :: InstructionType
  Image :: "ImageDecoded option"

record xml_Name =
  Space :: string
  Local :: string

record xml_Attr =
  Name :: xml_Name
  Value :: string

record EposPrint =
  XMLName :: xml_Name
  Instructions :: "Instruction list"

subsection \<open>What the standard library supplies\<close>

text \<open>
  \<open>encoding/xml\<close> turns the document into tokens; element names arrive with their namespace
  resolved. \<open>decoder.Token()\<close> returns the tokens one by one and then an error, which is
  \<open>io.EOF\<close> at the end of a well-formed document. \<open>Parse\<close> is modelled on that stream: the
  list of tokens and the error that ends it. \<open>fmt.Sscanf\<close> with \<open>"%d"\<close>,
  \<open>strings.TrimSpace\<close> and \<open>base64.StdEncoding.DecodeString\<close> are parameters;
  \<open>Sscanf_d\<close> is \<open>None\<close> when nothing is stored in the target.
\<close>

datatype Token =
    StartElement xml_Name "xml_Attr list"
  | EndElement xml_Name
  | CharData string
  | Comment string
  | ProcInst string string
  | Directive string

datatype stream_end = EOF | TokenError error

record stdlib =
  Sscanf_d :: "string \<Rightarrow> go_int option"
  TrimSpace :: "string \<Rightarrow> string"
  DecodeString :: "string \<Rightarrow> error + byte list"

fun has_prefix :: "string \<Rightarrow> string \<Rightarrow> bool" where
  "has_prefix s [] = True"
| "has_prefix [] (c # cs) = False"
| "has_prefix (d # ds) (c # cs) = (d = c \<and> has_prefix ds cs)"

fun Contains :: "string \<Rightarrow> string \<Rightarrow> bool" where
  \<comment> \<open>\<open>strings.Contains(s, substr)\<close>\<close>
  "Contains [] substr = (substr = [])"
| "Contains (c # cs) substr = (has_prefix (c # cs) substr \<or> Contains cs substr)"

subsection \<open>\<open>Parse\<close>, \<open>src/unnamed/part_001\<close> lines 36-135\<close>

record parser =
  epos :: EposPrint
  currentImage :: "ImageDecoded option"
  inImage :: bool

definition scan_attr :: "stdlib \<Rightarrow> ImageDecoded \<Rightarrow> xml_Attr \<Rightarrow> ImageDecoded" where
  \<comment> \<open>the body of \<open>for _, attr := range se.Attr\<close>\<close>
  "scan_attr lib img attr =
     (if Local (Name attr) = ''width''
      then (case Sscanf_d lib (Value attr) of None \<Rightarrow> img | Some n \<Rightarrow> img\<lparr>Width := n\<rparr>)
      else if Local (Name attr) = ''height''
      then (case Sscanf_d lib (Value attr) of None \<Rightarrow> img | Some n \<Rightarrow> img\<lparr>Height := n\<rparr>)
      else img)"

definition append_instruction :: "Instruction \<Rightarrow> parser \<Rightarrow> parser" where
  \<comment> \<open>\<open>epos.Instructions = append(epos.Instructions, inst)\<close>\<close>
  "append_instruction inst st =
     st\<lparr>epos := (epos st)\<lparr>Instructions := Instructions (epos st) @ [inst]\<rparr>\<rparr>"

fun handle_token :: "stdlib \<Rightarrow> Token \<Rightarrow> parser \<Rightarrow> (error + parser) go" where
  "handle_token lib (StartElement se_Name se_Attr) st =
     (let name = Local se_Name; space = Space se_Name
      in if name = ''epos-print'' \<and> Contains space ''epson-pos''
         then Return (Inr (st\<lparr>epos := (epos st)\<lparr>XMLName := se_Name\<rparr>\<rparr>))
         else if name = ''pulse'' \<and> Contains space ''epson-pos''
         then Return (Inr (append_instruction \<lparr>Type = InstPulse, Image = None\<rparr> st))
         else if name = ''cut'' \<and> Contains space ''epson-pos''
         then Return (Inr (append_instruction \<lparr>Type = InstCut, Image = None\<rparr> st))
         else if name = ''image'' \<and> Contains space ''epson-pos''
         then Return (Inr (st\<lparr>inImage := True,
                currentImage := Some (foldl (scan_attr lib) \<lparr>Width = 0, Height = 0, Data = []\<rparr> se_Attr)\<rparr>))
         else Return (Inr st))"
| "handle_token lib (CharData se) st =
     (let content = TrimSpace lib se
      in case currentImage st of
           Some img \<Rightarrow>
             if inImage st \<and> content \<noteq> []
             then (case DecodeString lib content of
                     Inl err \<Rightarrow> Return (Inl (Base64DecodeError err))
                   | Inr decodedData \<Rightarrow>
                       Return (Inr (st\<lparr>currentImage := Some (img\<lparr>Data := Data img @ decodedData\<rparr>)\<rparr>)))
             else Return (Inr st)
         | None \<Rightarrow> Return (Inr st))"
| "handle_token lib (EndElement se_Name) st =
     (let name = Local se_Name; space = Space se_Name
      in if name = ''image'' \<and> Contains space ''epson-pos'' \<and> inImage st
         then (case currentImage st of
                 None \<Rightarrow> Panic NilDereference
               | Some img \<Rightarrow>
                   (let expectedBytes = go_quo (Width img) 8 * Height img
                    in if int (length (Data img)) \<noteq> sint expectedBytes
                       then Return (Inl (ImageDataIncomplete (int (length (Data img)))
                              (sint expectedBytes) (sint (Width img)) (sint (Height img))))
                       else Return (Inr ((append_instruction \<lparr>Type = InstImage, Image = Some img\<rparr> st)
                              \<lparr>inImage := False, currentImage := None\<rparr>))))
         else Return (Inr st))"
| "handle_token lib other st = Return (Inr st)"

fun parse_loop :: "stdlib \<Rightarrow> Token list \<Rightarrow> parser \<Rightarrow> (error + parser) go" where
  "parse_loop lib [] st = Return (Inr st)"
| "parse_loop lib (token # tokens) st =
     (case handle_token lib token st of
        Return (Inr st1) \<Rightarrow> parse_loop lib tokens st1
      | failed \<Rightarrow> failed)"

definition new_parser :: parser where
  "new_parser = \<lparr>epos = \<lparr>XMLName = \<lparr>Space = [], Local = []\<rparr>, Instructions = []\<rparr>,
     currentImage = None, inImage = False\<rparr>"

definition Parse :: "stdlib \<Rightarrow> Token list \<Rightarrow> stream_end \<Rightarrow> (error + EposPrint) go" where
  "Parse lib tokens fin =
     (case parse_loop lib tokens new_parser of
        Panic k \<Rightarrow> Panic k
      | Return (Inl err) \<Rightarrow> Return (Inl err)
      | Return (Inr st) \<Rightarrow>
          (case fin of
             EOF \<Rightarrow> Return (Inr (epos st))
           | TokenError err \<Rightarrow> Return (Inl (XMLSyntaxError err))))"

subsection \<open>\<open>Parse\<close>, \<open>src/epson_parser.go\<close> lines 36-111\<close>

text \<open>
  The \<open>switch\<close> over the token is the same in both revisions (this one trims the character
  data after testing \<open>inImage\<close>, which gives the same result). On an error of the token
  stream this revision logs and leaves the loop.
\<close>

definition Parse0 :: "stdlib \<Rightarrow> Token list \<Rightarrow> stream_end \<Rightarrow> (error + EposPrint) go" where
  "Parse0 lib tokens fin =
     (case parse_loop lib tokens new_parser of
        Panic k \<Rightarrow> Panic k
      | Return (Inl err) \<Rightarrow> Return (Inl err)
      | Return (Inr st) \<Rightarrow>
          (case fin of
             EOF \<Rightarrow> Return (Inr (epos st))
           | TokenError err \<Rightarrow> Return (Inr (epos st))))"

subsection \<open>Documents\<close>

text \<open>
  A well-formed document is a list of nodes, and the decoder's tokens for it are those of
  \<open>document_tokens\<close>, followed by \<open>io.EOF\<close>. \<open>recognized\<close> lists, in document order, the
  instruction each pulse, cut or image element in the vendor namespace stands for.
  \<open>decoded\<close> is what the character data of an image body adds to the image's buffer.
\<close>

datatype Node =
    Element xml_Name "xml_Attr list" "Node list"
  | Text string
  | CommentNode string
  | ProcInstNode string string
  | DirectiveNode string

fun node_tokens :: "Node \<Rightarrow> Token list" where
  "node_tokens (Element name attrs children) =
     StartElement name attrs # concat (map node_tokens children) @ [EndElement name]"
| "node_tokens (Text s) = [CharData s]"
| "node_tokens (CommentNode s) = [Comment s]"
| "node_tokens (ProcInstNode t s) = [ProcInst t s]"
| "node_tokens (DirectiveNode s) = [Directive s]"

definition document_tokens :: "Node list \<Rightarrow> Token list" where
  "document_tokens doc = concat (map node_tokens doc)"

definition instruction_of :: "xml_Name \<Rightarrow> InstructionType option" where
  "instruction_of name =
     (if Contains (Space name) ''epson-pos''
      then (if Local name = ''pulse'' then Some InstPulse
            else if Local name = ''cut'' then Some InstCut
            else if Local name = ''image'' then Some InstImage
            else None)
      else None)"

fun recognized :: "Node \<Rightarrow> InstructionType list" where
  "recognized (Element name attrs children) =
     (case instruction_of name of None \<Rightarrow> [] | Some t \<Rightarrow> [t]) @ concat (map recognized children)"
| "recognized other = []"

fun plain_images :: "Node \<Rightarrow> bool" where
  \<comment> \<open>no pulse, cut or image element of the vendor namespace inside an image element\<close>
  "plain_images (Element name attrs children) =
     (if instruction_of name = Some InstImage
      then concat (map recognized children) = []
      else list_all plain_images children)"
| "plain_images other = True"

definition decoded :: "stdlib \<Rightarrow> string list \<Rightarrow> byte list" where
  "decoded lib chunks =
     concat (map (\<lambda>se. if TrimSpace lib se = [] then []
                        else case DecodeString lib (TrimSpace lib se) of
                               Inl err \<Rightarrow> [] | Inr decodedData \<Rightarrow> decodedData) chunks)"

text \<open>The standard library's answers on the strings of the examples.\<close>

definition example_lib :: stdlib where
  "example_lib =
     \<lparr>Sscanf_d = (\<lambda>s. if s = ''8'' then Some 8 else if s = ''-1'' then Some (- 1)
                       else if s = ''5'' then Some 5 else None),
      TrimSpace = (\<lambda>s. s),
      DecodeString = (\<lambda>s. if s = ''AAA='' then Inr [0, 0]
                           else if s = ''AAAAAAAAAAA='' then Inr [0, 0, 0, 0, 0, 0, 0, 0]
                           else Inl (External ''illegal base64 data''))\<rparr>"

definition epson :: "string \<Rightarrow> xml_Name" where
  "epson name = \<lparr>Space = ''http://www.epson-pos.com/schemas/2012/10/epos-print'', Local = name\<rparr>"

definition attr :: "string \<Rightarrow> string \<Rightarrow> xml_Attr" where
  "attr name v = \<lparr>Name = \<lparr>Space = [], Local = name\<rparr>, Value = v\<rparr>"

text \<open>
  \<open>keeps st st1\<close>: the parser went from \<open>st\<close> to \<open>st1\<close> without appending an instruction
  and without entering or leaving an image element.
\<close>

definition keeps :: "parser \<Rightarrow> parser \<Rightarrow> bool" where
  "keeps st st1 \<longleftrightarrow> Instructions (epos st1) = Instructions (epos st) \<and> inImage st1 = inImage st
     \<and> (currentImage st1 = None \<longleftrightarrow> currentImage st = None)"

text \<open>
  The tokens between the start tag and the end tag of an image element: \<open>image_tag\<close>
  holds of the start and end tags of image elements of the vendor namespace, \<open>char_data\<close>
  lists the character data at any depth, \<open>decodes\<close> holds of character data that is blank
  or valid base64, \<open>body_instructions\<close> lists the pulse and cut instructions of the start
  tags, and \<open>image_of\<close> is the image the parser holds at the end tag: the scanned width
  and height, defaulting to 0, and the decoded bytes.
\<close>

fun image_tag :: "Token \<Rightarrow> bool" where
  "image_tag (StartElement n as) = (instruction_of n = Some InstImage)"
| "image_tag (EndElement n) = (instruction_of n = Some InstImage)"
| "image_tag other = False"

fun char_data :: "Token list \<Rightarrow> string list" where
  "char_data [] = []"
| "char_data (CharData se # ts) = se # char_data ts"
| "char_data (other # ts) = char_data ts"

definition decodes :: "stdlib \<Rightarrow> string \<Rightarrow> bool" where
  "decodes lib se \<longleftrightarrow>
     TrimSpace lib se = []
     \<or> (case DecodeString lib (TrimSpace lib se) of Inl err \<Rightarrow> False | Inr decodedData \<Rightarrow> True)"

fun body_instructions :: "Token list \<Rightarrow> Instruction list" where
  "body_instructions [] = []"
| "body_instructions (StartElement n as # ts) =
     (if instruction_of n = Some InstPulse then [\<lparr>Type = InstPulse, Image = None\<rparr>]
      else if instruction_of n = Some InstCut then [\<lparr>Type = InstCut, Image = None\<rparr>]
      else []) @ body_instructions ts"
| "body_instructions (other # ts) = body_instructions ts"

definition image_of :: "stdlib \<Rightarrow> xml_Attr list \<Rightarrow> Token list \<Rightarrow> ImageDecoded" where
  "image_of lib attrs body =
     (foldl (scan_attr lib) \<lparr>Width = 0, Height = 0, Data = []\<rparr> attrs)
       \<lparr>Data := decoded lib (char_data body)\<rparr>"

section \<open>Transport writers\<close>

text \<open>
  \<open>os.OpenFile\<close> and \<open>net.Dial\<close> are parameters acting on a state \<open>'os\<close> of the operating
  system; \<open>Inr\<close> carries the file or the connection. The mutex is not modelled.
\<close>

record 'h UsbWriter =
  path :: string
  writer :: "'h option"

record 'c TcpWriter =
  address :: string
  conn :: "'c option"

text \<open>\<open>UsbWriter.Open\<close> and \<open>TcpWriter.Open\<close>, \<open>src/unnamed/part_002\<close> lines 51-70 and 115-134.\<close>

definition UsbWriter_Open ::
  "(string \<Rightarrow> 'os \<Rightarrow> (error + 'h) \<times> 'os) \<Rightarrow> 'h UsbWriter \<Rightarrow> 'os \<Rightarrow> error option \<times> 'h UsbWriter \<times> 'os"
where
  "UsbWriter_Open OpenFile u os =
     (if writer u \<noteq> None then (None, u, os)
      else case OpenFile (path u) os of
             (Inl err, os1) \<Rightarrow> (Some (Wrap ''failed to open USB device'' err), u, os1)
           | (Inr f, os1) \<Rightarrow> (None, u\<lparr>writer := Some f\<rparr>, os1))"

definition TcpWriter_Open ::
  "(string \<Rightarrow> 'os \<Rightarrow> (error + 'c) \<times> 'os) \<Rightarrow> 'c TcpWriter \<Rightarrow> 'os \<Rightarrow> error option \<times> 'c TcpWriter \<times> 'os"
where
  "TcpWriter_Open Dial t os =
     (if conn t \<noteq> None then (None, t, os)
      else case Dial (address t) os of
             (Inl err, os1) \<Rightarrow> (Some (Wrap ''failed to dial'' err), t, os1)
           | (Inr c, os1) \<Rightarrow> (None, t\<lparr>conn := Some c\<rparr>, os1))"

text \<open>\<open>UsbWriter.Open\<close> and \<open>TcpWriter.Open\<close>, \<open>src/unnamed/part_002\<close> lines 198-207 and 232-242.\<close>

definition UsbWriter_Open0 ::
  "(string \<Rightarrow> 'os \<Rightarrow> (error + 'h) \<times> 'os) \<Rightarrow> 'h UsbWriter \<Rightarrow> 'os \<Rightarrow> error option \<times> 'h UsbWriter \<times> 'os"
where
  "UsbWriter_Open0 OpenFile u os =
     (case OpenFile (path u) os of
        (Inl err, os1) \<Rightarrow> (Some err, u, os1)
      | (Inr f, os1) \<Rightarrow> (None, u\<lparr>writer := Some f\<rparr>, os1))"

definition TcpWriter_Open0 ::
  "(string \<Rightarrow> 'os \<Rightarrow> (error + 'c) \<times> 'os) \<Rightarrow> 'c TcpWriter \<Rightarrow> 'os \<Rightarrow> error option \<times> 'c TcpWriter \<times> 'os"
where
  "TcpWriter_Open0 Dial t os =
     (case Dial (address t) os of
        (Inl err, os1) \<Rightarrow> (Some err, t, os1)
      | (Inr c, os1) \<Rightarrow> (None, t\<lparr>conn := Some c\<rparr>, os1))"

text \<open>
  An operating system for the examples: its state is the number of files or connections
  opened so far, and every request succeeds with a fresh one.
\<close>

definition fresh_handle :: "string \<Rightarrow> nat \<Rightarrow> (error + nat) \<times> nat" where
  "fresh_handle name n = (Inr n, Suc n)"

definition refused :: "string \<Rightarrow> nat \<Rightarrow> (error + nat) \<times> nat" where
  "refused name n = (Inl (External ''connection refused''), n)"

section \<open>Verification: signed 64-bit arithmetic\<close>

lemma sint_mult_exact:
  "- (2 ^ 63) \<le> sint a * sint b \<Longrightarrow> sint a * sint b < 2 ^ 63 \<Longrightarrow> sint (a * b :: go_int) = sint a * sint b"
  by (simp add: sint_word_ariths signed_take_bit_int_eq_self)

lemma sint_add_exact:
  "- (2 ^ 63) \<le> sint a + sint b \<Longrightarrow> sint a + sint b < 2 ^ 63 \<Longrightarrow> sint (a + b :: go_int) = sint a + sint b"
  by (simp add: sint_word_ariths signed_take_bit_int_eq_self)

lemma sint_diff_exact:
  "- (2 ^ 63) \<le> sint a - sint b \<Longrightarrow> sint a - sint b < 2 ^ 63 \<Longrightarrow> sint (a - b :: go_int) = sint a - sint b"
  by (simp add: sint_word_ariths signed_take_bit_int_eq_self)

lemma sint_of_nat_exact:
  "int n < 2 ^ 63 \<Longrightarrow> sint (of_nat n :: go_int) = int n"
proof -
  assume a: "int n < 2 ^ 63"
  have "(of_nat n :: go_int) = word_of_int (int n)" by simp
  then have "sint (of_nat n :: go_int) = signed_take_bit 63 (int n)"
    by (simp only: sint_sbintrunc') simp
  also have "\<dots> = int n" using a by (simp add: signed_take_bit_int_eq_self)
  finally show ?thesis .
qed

lemma go_int_bounds: "- (2 ^ 63) \<le> sint (a :: go_int)" "sint (a :: go_int) < 2 ^ 63"
  using sint_ge [of a] sint_lt [of a] by simp_all

lemma sint_go_quo_2:
  "0 \<le> sint a \<Longrightarrow> sint (go_quo a 2) = sint a div 2"
proof -
  assume a: "0 \<le> sint a"
  have "sint a sdiv 2 = sint a div 2" using a by (simp add: signed_divide_int_def sgn_if)
  moreover have "- (2 ^ 63) \<le> sint a div 2" "sint a div 2 < 2 ^ 63"
    using a go_int_bounds [of a] by simp_all
  ultimately show ?thesis
    by (simp add: go_quo_def sint_sbintrunc' signed_take_bit_int_eq_self)
qed


lemma row_bounds:
  assumes w: "0 \<le> sint (w_b :: go_int)" and len: "int (length (d :: byte list)) < 2 ^ 63"
    and y: "int y < 2 ^ 63" and fit: "(int y + 1) * sint w_b \<le> int (length d)"
  shows "sint (of_nat y * w_b) = int y * sint w_b"
    and "sint (of_nat y * w_b + w_b) = (int y + 1) * sint w_b"
proof -
  have le: "int y * sint w_b \<le> (int y + 1) * sint w_b"
    using w by (simp add: algebra_simps)
  have nn: "0 \<le> int y * sint w_b" using w by simp
  have s: "sint (of_nat y * w_b) = sint (of_nat y :: go_int) * sint w_b"
    using nn le fit len y by (intro sint_mult_exact) (simp_all add: sint_of_nat_exact)
  then show a: "sint (of_nat y * w_b) = int y * sint w_b"
    using y by (simp add: sint_of_nat_exact)
  have fit': "int y * sint w_b + sint w_b \<le> int (length d)"
    using fit by (simp add: algebra_simps)
  have b1: "- (2 ^ 63) \<le> sint (of_nat y * w_b) + sint w_b"
  proof -
    have "(0::int) \<le> int y * sint w_b + sint w_b" using nn w by simp
    moreover have "- (2 ^ 63) \<le> (0::int)" by simp
    ultimately show ?thesis unfolding a by (rule order_trans [rotated])
  qed
  have b2: "sint (of_nat y * w_b) + sint w_b < 2 ^ 63"
    unfolding a using fit' len by linarith
  have "sint (of_nat y * w_b + w_b) = sint (of_nat y * w_b) + sint w_b"
    using b1 b2 by (rule sint_add_exact)
  then show "sint (of_nat y * w_b + w_b) = (int y + 1) * sint w_b"
    using a by (simp add: algebra_simps)
qed

lemma slice_row:
  assumes w: "0 \<le> sint (w_b :: go_int)" and len: "int (length (d :: byte list)) < 2 ^ 63"
    and y: "int y < 2 ^ 63" and fit: "(int y + 1) * sint w_b \<le> int (length d)"
  shows "slice d (of_nat y * w_b) (of_nat y * w_b + w_b)
         = Return (take (nat (sint w_b)) (drop (y * nat (sint w_b)) d))"
proof -
  note rb = row_bounds [OF w len y fit]
  have n1: "nat (int y * sint w_b) = y * nat (sint w_b)"
    by (simp add: nat_mult_distrib)
  have n2: "nat ((int y + 1) * sint w_b) = (y + 1) * nat (sint w_b)"
    using nat_mult_distrib [of "int y + 1" "sint w_b"] by (simp add: nat_add_distrib)
  have "0 \<le> int y * sint w_b" using w by simp
  moreover have "int y * sint w_b \<le> (int y + 1) * sint w_b" using w by (simp add: algebra_simps)
  ultimately show ?thesis
    using fit by (simp add: slice_def rb n1 n2)
qed

lemma append_bytes_ok:
  "int (length s) + int (length t) \<le> slice_limit rt \<Longrightarrow> append_bytes rt s t = Return (s @ t)"
  by (simp add: append_bytes_def)

lemma append_zeros_ok:
  assumes "0 \<le> sint n" and "int (length s) + sint n \<le> slice_limit rt"
  shows "append_zeros rt s n = Return (s @ replicate (nat (sint n)) 0)"
proof -
  have "sint n \<le> slice_limit rt" using assms(2) by linarith
  then show ?thesis using assms by (simp add: append_zeros_def make_bytes_def append_bytes_def)
qed

lemma append_never_fails_with_an_error:
  "append_zeros rt s n = Return out \<Longrightarrow> out = s @ replicate (nat (sint n)) 0"
  "append_bytes rt s t = Return out \<Longrightarrow> out = s @ t"
  by (auto simp: append_zeros_def make_bytes_def append_bytes_def split: if_splits go.splits)

lemma row_length:
  assumes w: "0 \<le> sint (w_b :: go_int)" and fit: "(int y + 1) * sint w_b \<le> int (length (d :: byte list))"
  shows "int (length (take (nat (sint w_b)) (drop (y * nat (sint w_b)) d))) = sint w_b"
proof -
  have "int ((y + 1) * nat (sint w_b)) = (int y + 1) * sint w_b" using w by (simp add: algebra_simps)
  then have "int ((y + 1) * nat (sint w_b)) \<le> int (length d)" using fit by simp
  then have "(y + 1) * nat (sint w_b) \<le> length d" by (simp only: of_nat_le_iff)
  then have "nat (sint w_b) \<le> length d - y * nat (sint w_b)" by simp
  then show ?thesis using w by simp
qed

lemma center_rows_ok:
  assumes w: "0 \<le> sint (w_b :: go_int)" and len: "int (length d) < 2 ^ 63"
    and pad: "0 \<le> sint padding" "0 \<le> sint (p_w_b - w_b - padding)"
  shows "\<forall>y\<in>set ys. int y < 2 ^ 63 \<and> (int y + 1) * sint w_b \<le> int (length d) \<Longrightarrow>
         int (length acc) + int (length ys) * (sint padding + sint w_b + sint (p_w_b - w_b - padding))
            \<le> slice_limit rt \<Longrightarrow>
         center_rows rt d w_b p_w_b padding ys acc =
           Return (Inr (acc @ concat (map (centered_row d (nat (sint w_b)) (nat (sint padding))
                                          (nat (sint (p_w_b - w_b - padding)))) ys)))
         \<and> center_rows0 rt d w_b p_w_b padding ys acc =
           Return (Inr (acc @ concat (map (centered_row d (nat (sint w_b)) (nat (sint padding))
                                          (nat (sint (p_w_b - w_b - padding)))) ys)))"
proof (induction ys arbitrary: acc)
  case Nil
  then show ?case by simp
next
  case (Cons y ys)
  let ?l = "sint padding" and ?r = "sint (p_w_b - w_b - padding)"
  let ?left = "replicate (nat ?l) (0 :: byte)" and ?right = "replicate (nat ?r) (0 :: byte)"
  define row where "row = take (nat (sint w_b)) (drop (y * nat (sint w_b)) d)"
  from Cons.prems(1) have y: "int y < 2 ^ 63" and fit: "(int y + 1) * sint w_b \<le> int (length d)"
    and rest: "\<forall>y\<in>set ys. int y < 2 ^ 63 \<and> (int y + 1) * sint w_b \<le> int (length d)"
    by simp_all
  note rb = row_bounds [OF w len y fit]
  have sl: "slice d (of_nat y * w_b) (of_nat y * w_b + w_b) = Return row"
    unfolding row_def by (rule slice_row [OF w len y fit])
  have rl: "int (length row) = sint w_b"
    unfolding row_def by (rule row_length [OF w fit])
  have not_lt: "\<not> int (length d) < sint (of_nat y * w_b + w_b)"
    using fit by (simp add: rb)
  have nn: "0 \<le> int (length ys) * (?l + sint w_b + ?r)" using w pad by simp
  have "int (length acc) + (1 + int (length ys)) * (?l + sint w_b + ?r) \<le> slice_limit rt"
    using Cons.prems(2) by simp
  then have room: "int (length acc) + (?l + sint w_b + ?r)
      + int (length ys) * (?l + sint w_b + ?r) \<le> slice_limit rt"
    by (simp add: algebra_simps)
  have r1: "int (length acc) + ?l \<le> slice_limit rt" using room nn w pad by linarith
  have a1: "append_zeros rt acc padding = Return (acc @ ?left)"
    by (rule append_zeros_ok [OF pad(1) r1])
  have a1': "(if 0 < sint padding then append_zeros rt acc padding else Return acc)
      = Return (acc @ ?left)"
    using pad(1) by (simp add: a1)
  have l2: "int (length (acc @ ?left)) = int (length acc) + ?l" using pad(1) by simp
  have r2: "int (length (acc @ ?left)) + int (length row) \<le> slice_limit rt"
    unfolding l2 rl using room nn w pad by linarith
  have a2: "append_bytes rt (acc @ ?left) row = Return (acc @ ?left @ row)"
    using append_bytes_ok [OF r2] by simp
  have l3: "int (length (acc @ ?left @ row)) = int (length acc) + ?l + sint w_b"
    using pad(1) rl by simp
  have r3: "int (length (acc @ ?left @ row)) + ?r \<le> slice_limit rt"
    unfolding l3 using room nn w pad by linarith
  have a3: "append_zeros rt (acc @ ?left @ row) (p_w_b - w_b - padding)
      = Return (acc @ ?left @ row @ ?right)"
    using append_zeros_ok [OF pad(2) r3] by simp
  have a3': "(if 0 < ?r then append_zeros rt (acc @ ?left @ row) (p_w_b - w_b - padding)
              else Return (acc @ ?left @ row))
      = Return (acc @ ?left @ row @ ?right)"
    using pad(2) by (simp add: a3)
  have l4: "int (length (acc @ ?left @ row @ ?right)) = int (length acc) + ?l + sint w_b + ?r"
    using pad rl by simp
  have room': "int (length (acc @ ?left @ row @ ?right))
      + int (length ys) * (?l + sint w_b + ?r) \<le> slice_limit rt"
    unfolding l4 using room by linarith
  note ih = Cons.IH [OF rest room']
  have cr: "centered_row d (nat (sint w_b)) (nat ?l) (nat ?r) y = ?left @ row @ ?right"
    by (simp add: centered_row_def row_def)
  have new: "center_rows rt d w_b p_w_b padding (y # ys) acc
      = center_rows rt d w_b p_w_b padding ys (acc @ ?left @ row @ ?right)"
    unfolding center_rows.simps Let_def sl a1' using not_lt by (simp only: if_False go.case a2 a3')
  have old: "center_rows0 rt d w_b p_w_b padding (y # ys) acc
      = center_rows0 rt d w_b p_w_b padding ys (acc @ ?left @ row @ ?right)"
    unfolding center_rows0.simps Let_def sl a1 using not_lt by (simp only: if_False go.case a2 a3)
  show ?case unfolding new old using ih by (simp add: cr)
qed

lemma center_rows_no_error:
  assumes w: "0 \<le> sint (w_b :: go_int)" and len: "int (length d) < 2 ^ 63"
  shows "\<forall>y\<in>set ys. int y < 2 ^ 63 \<and> (int y + 1) * sint w_b \<le> int (length d) \<Longrightarrow>
         center_rows rt d w_b p_w_b padding ys acc \<noteq> Return (Inl e)
         \<and> center_rows0 rt d w_b p_w_b padding ys acc \<noteq> Return (Inl e)"
proof (induction ys arbitrary: acc)
  case Nil
  then show ?case by simp
next
  case (Cons y ys)
  then have y: "int y < 2 ^ 63" and fit: "(int y + 1) * sint w_b \<le> int (length d)"
    and rest: "\<forall>y\<in>set ys. int y < 2 ^ 63 \<and> (int y + 1) * sint w_b \<le> int (length d)"
    by simp_all
  note rb = row_bounds [OF w len y fit]
  note sl = slice_row [OF w len y fit]
  have not_lt: "\<not> int (length d) < sint (of_nat y * w_b + w_b)"
    using fit by (simp add: rb)
  have ih: "\<And>acc. center_rows rt d w_b p_w_b padding ys acc \<noteq> Return (Inl e)"
    "\<And>acc. center_rows0 rt d w_b p_w_b padding ys acc \<noteq> Return (Inl e)"
    using Cons.IH [OF rest] by simp_all
  have new: "center_rows rt d w_b p_w_b padding (y # ys) acc \<noteq> Return (Inl e)"
    using not_lt by (simp add: Let_def sl ih split: go.splits)
  have old: "center_rows0 rt d w_b p_w_b padding (y # ys) acc \<noteq> Return (Inl e)"
    using not_lt by (simp add: Let_def sl ih split: go.splits)
  show ?case using new old by simp
qed


lemma rows_fit:
  assumes w: "0 \<le> sint (w_b :: go_int)" and fit: "sint w_b * sint (h :: go_int) \<le> int (length d)"
  shows "\<forall>y\<in>set [0..<nat (sint h)]. int y < 2 ^ 63 \<and> (int y + 1) * sint w_b \<le> int (length d)"
proof
  fix y assume "y \<in> set [0..<nat (sint h)]"
  then have y: "int y + 1 \<le> sint h" by auto
  have "sint h < 2 ^ 63" by (rule go_int_bounds)
  then have "int y < 2 ^ 63" using y by linarith
  moreover have "(int y + 1) * sint w_b \<le> sint h * sint w_b"
    using y w by (rule mult_right_mono)
  ultimately show "int y < 2 ^ 63 \<and> (int y + 1) * sint w_b \<le> int (length d)"
    using fit by (simp add: mult.commute)
qed

lemma expected_len_exact:
  assumes len: "int (length d) < 2 ^ 63" and fit: "sint (w_b :: go_int) * sint (h :: go_int) \<le> int (length d)"
    and lo: "- (2 ^ 63) \<le> sint w_b * sint h"
  shows "sint (w_b * h) = sint w_b * sint h"
proof -
  have "sint w_b * sint h < 2 ^ 63" using fit len by linarith
  with lo show ?thesis by (rule sint_mult_exact)
qed

lemma padding_exact:
  assumes w: "0 \<le> sint (w_b :: go_int)" and p: "sint w_b \<le> sint (p_w_b :: go_int)"
  shows "sint (go_quo (p_w_b - w_b) 2) = (sint p_w_b - sint w_b) div 2"
    and "sint (p_w_b - w_b - go_quo (p_w_b - w_b) 2)
         = sint p_w_b - sint w_b - (sint p_w_b - sint w_b) div 2"
proof -
  have ub: "sint p_w_b < 2 ^ 63" by (rule go_int_bounds)
  have m: "- (2 ^ 63) \<le> (0::int)" by simp
  have d: "sint (p_w_b - w_b) = sint p_w_b - sint w_b"
    using w p ub m by (intro sint_diff_exact) linarith+
  then have nn: "0 \<le> sint (p_w_b - w_b)" using p by simp
  show q: "sint (go_quo (p_w_b - w_b) 2) = (sint p_w_b - sint w_b) div 2"
    using sint_go_quo_2 [OF nn] d by simp
  have b1: "- (2 ^ 63) \<le> sint (p_w_b - w_b) - sint (go_quo (p_w_b - w_b) 2)"
    unfolding q d using w p m by linarith
  have b2: "sint (p_w_b - w_b) - sint (go_quo (p_w_b - w_b) 2) < 2 ^ 63"
    unfolding q d using w p ub by linarith
  have "sint (p_w_b - w_b - go_quo (p_w_b - w_b) 2)
        = sint (p_w_b - w_b) - sint (go_quo (p_w_b - w_b) 2)"
    using b1 b2 by (rule sint_diff_exact)
  then show "sint (p_w_b - w_b - go_quo (p_w_b - w_b) 2)
         = sint p_w_b - sint w_b - (sint p_w_b - sint w_b) div 2"
    by (simp add: q d)
qed

lemma center_ok:
  assumes w: "0 \<le> sint (w_b :: go_int)" and p: "sint w_b \<le> sint (p_w_b :: go_int)"
    and len: "int (length d) < 2 ^ 63" and fit: "sint w_b * sint (h :: go_int) \<le> int (length d)"
    and lo: "- (2 ^ 63) \<le> sint w_b * sint h"
    and room: "sint p_w_b * sint h \<le> slice_limit rt"
  shows "center rt d w_b p_w_b h = Return (Inr (centered_rows d (sint w_b) (sint p_w_b) (sint h)))"
    and "center0 rt d w_b p_w_b h = Return (Inr (centered_rows d (sint w_b) (sint p_w_b) (sint h)))"
proof -
  note e = expected_len_exact [OF len fit lo]
  note pe = padding_exact [OF w p]
  note rf = rows_fit [OF w fit]
  have chk: "\<not> int (length d) < sint (w_b * h)" using fit by (simp add: e)
  have pads: "0 \<le> sint (go_quo (p_w_b - w_b) 2)"
     "0 \<le> sint (p_w_b - w_b - go_quo (p_w_b - w_b) 2)"
    using p by (simp_all add: pe)
  have sum: "sint (go_quo (p_w_b - w_b) 2) + sint w_b + sint (p_w_b - w_b - go_quo (p_w_b - w_b) 2)
      = sint p_w_b"
    by (simp add: pe)
  let ?pad = "go_quo (p_w_b - w_b) 2"
  have both: "center_rows rt d w_b p_w_b ?pad [0..<nat (sint h)] [] =
           Return (Inr ([] @ concat (map (centered_row d (nat (sint w_b)) (nat (sint ?pad))
                                          (nat (sint (p_w_b - w_b - ?pad)))) [0..<nat (sint h)])))
         \<and> center_rows0 rt d w_b p_w_b ?pad [0..<nat (sint h)] [] =
           Return (Inr ([] @ concat (map (centered_row d (nat (sint w_b)) (nat (sint ?pad))
                                          (nat (sint (p_w_b - w_b - ?pad)))) [0..<nat (sint h)])))"
  proof (cases "0 < sint h")
    case True
    then have "int (length [0..<nat (sint h)]) = sint h" by simp
    then have space: "int (length ([] :: byte list)) + int (length [0..<nat (sint h)])
        * (sint ?pad + sint w_b + sint (p_w_b - w_b - ?pad)) \<le> slice_limit rt"
      unfolding sum using room by (simp add: mult.commute)
    show ?thesis by (rule center_rows_ok [OF w len pads rf space])
  next
    case False
    then have "[0..<nat (sint h)] = []" by simp
    then show ?thesis by simp
  qed
  show "center rt d w_b p_w_b h = Return (Inr (centered_rows d (sint w_b) (sint p_w_b) (sint h)))"
    unfolding center_def Let_def using chk both
    by (simp add: pe centered_rows_def Let_def)
  show "center0 rt d w_b p_w_b h = Return (Inr (centered_rows d (sint w_b) (sint p_w_b) (sint h)))"
    unfolding center0_def Let_def using chk both
    by (simp add: pe centered_rows_def Let_def)
qed

lemma center_examples:
  assumes "8 \<le> slice_limit rt"
  shows "center rt [1, 2, 3, 4] 4 8 1 = Return (Inr [0, 0, 1, 2, 3, 4, 0, 0])"
    and "center rt [1, 2, 3] 3 8 1 = Return (Inr [0, 0, 1, 2, 3, 0, 0, 0])"
    and "center0 rt [1, 2, 3, 4] 4 8 1 = Return (Inr [0, 0, 1, 2, 3, 4, 0, 0])"
    and "center0 rt [1, 2, 3] 3 8 1 = Return (Inr [0, 0, 1, 2, 3, 0, 0, 0])"
  using assms
  by (simp_all add: center_def center0_def go_quo_def slice_def make_bytes_def append_zeros_def
      append_bytes_def signed_divide_int_def Let_def numeral_2_eq_2 numeral_3_eq_3)

lemma first_row_out_of_bounds:
  "int (length d) < sint w_b \<Longrightarrow>
     center_rows rt d w_b p_w_b padding (0 # ys) acc = Return (Inl (CenterRowOutOfBounds 0))"
  "int (length d) < sint w_b \<Longrightarrow>
     center_rows0 rt d w_b p_w_b padding (0 # ys) acc = Return (Inl (CenterRowOutOfBounds 0))"
  by simp_all

lemma center_overflow:
  "center rt [] 64 72 (2 ^ 58) = Return (Inl (CenterRowOutOfBounds 0))"
  "center0 rt [] 64 72 (2 ^ 58) = Return (Inl (CenterRowOutOfBounds 0))"
proof -
  have u: "[0..<nat (sint (2 ^ 58 :: go_int))] = 0 # [Suc 0..<nat (sint (2 ^ 58 :: go_int))]"
    by (rule upt_conv_Cons) simp
  have c: "\<not> int (length ([] :: byte list)) < sint ((64 :: go_int) * 2 ^ 58)" by simp
  have r: "int (length ([] :: byte list)) < sint (64 :: go_int)" by simp
  show "center rt [] 64 72 (2 ^ 58) = Return (Inl (CenterRowOutOfBounds 0))"
    unfolding center_def Let_def u by (simp only: c if_False first_row_out_of_bounds(1) [OF r])
  show "center0 rt [] 64 72 (2 ^ 58) = Return (Inl (CenterRowOutOfBounds 0))"
    unfolding center0_def Let_def u by (simp only: c if_False first_row_out_of_bounds(2) [OF r])
qed

lemma center_negative_overflow:
  "center rt [] (2 ^ 62) (2 ^ 62) (- 3) = Return (Inl (CenterDataTooShort 0 (2 ^ 62)))"
  "center0 rt [] (2 ^ 62) (2 ^ 62) (- 3) = Return (Inl (CenterDataTooShort 0 (2 ^ 62)))"
  by (simp_all add: center_def center0_def Let_def)

lemma wide_padding: "sint (go_quo (2 ^ 50 - 1) 2) = 2 ^ 49 - 1"
proof -
  have s: "sint (2 ^ 50 - 1 :: go_int) = 2 ^ 50 - 1" by simp
  have "(2 ^ 50 - 1 :: int) sdiv 2 = 2 ^ 49 - 1" by (simp add: signed_divide_int_def)
  then show ?thesis unfolding go_quo_def s by simp
qed

lemma center_beyond_the_limit:
  "center example_runtime [1] 1 (2 ^ 50) 1 = Panic MakeSliceLenOutOfRange"
  "center0 example_runtime [1] 1 (2 ^ 50) 1 = Panic MakeSliceLenOutOfRange"
proof -
  define pad :: go_int where "pad = go_quo (2 ^ 50 - 1) 2"
  have sp: "sint pad = 2 ^ 49 - 1" unfolding pad_def by (rule wide_padding)
  have z: "append_zeros example_runtime s pad = Panic MakeSliceLenOutOfRange" for s
    by (simp add: append_zeros_def make_bytes_def example_runtime_def sp)
  have sl: "slice [1 :: byte] 0 1 = Return [1]" by (simp add: slice_def)
  have new: "center_rows example_runtime [1] 1 (2 ^ 50) pad [0] [] = Panic MakeSliceLenOutOfRange"
    by (simp add: Let_def sl z sp)
  have old: "center_rows0 example_runtime [1] 1 (2 ^ 50) pad [0] [] = Panic MakeSliceLenOutOfRange"
    by (simp add: Let_def sl z)
  have "center example_runtime [1] 1 (2 ^ 50) 1 = center_rows example_runtime [1] 1 (2 ^ 50) pad [0] []"
    unfolding center_def Let_def pad_def by simp
  then show "center example_runtime [1] 1 (2 ^ 50) 1 = Panic MakeSliceLenOutOfRange"
    by (simp only: new)
  have "center0 example_runtime [1] 1 (2 ^ 50) 1 = center_rows0 example_runtime [1] 1 (2 ^ 50) pad [0] []"
    unfolding center0_def Let_def pad_def by simp
  then show "center0 example_runtime [1] 1 (2 ^ 50) 1 = Panic MakeSliceLenOutOfRange"
    by (simp only: old)
qed


section \<open>Centering\<close>

lemma center_check_passes:
  assumes w: "0 \<le> sint (w_b :: go_int)" and len: "int (length d) < 2 ^ 63"
    and fit: "sint w_b * sint (h :: go_int) \<le> int (length d)"
    and lo: "- (2 ^ 63) \<le> sint w_b * sint h"
  shows "center rt d w_b p_w_b h \<noteq> Return (Inl e)"
    and "center0 rt d w_b p_w_b h \<noteq> Return (Inl e)"
proof -
  note ex = expected_len_exact [OF len fit lo]
  note rf = rows_fit [OF w fit]
  have chk: "\<not> int (length d) < sint (w_b * h)" using fit by (simp add: ex)
  note ne = center_rows_no_error [OF w len rf]
  show "center rt d w_b p_w_b h \<noteq> Return (Inl e)"
    unfolding center_def Let_def using chk ne by simp
  show "center0 rt d w_b p_w_b h \<noteq> Return (Inl e)"
    unfolding center0_def Let_def using chk ne by simp
qed

lemma center_check_fails:
  assumes lt: "int (length d) < sint (w_b :: go_int) * sint (h :: go_int)"
    and lo: "- (2 ^ 63) \<le> sint w_b * sint h" and hi: "sint w_b * sint h < 2 ^ 63"
  shows "center rt d w_b p_w_b h = Return (Inl (CenterDataTooShort (int (length d)) (sint w_b * sint h)))"
    and "center0 rt d w_b p_w_b h = Return (Inl (CenterDataTooShort (int (length d)) (sint w_b * sint h)))"
  using lt by (simp_all add: center_def center0_def Let_def sint_mult_exact [OF lo hi])

text \<open>
  C3, as stated, fails in two ways. Where \<open>w_b * h\<close> leaves the range of \<open>int\<close>: with
  \<open>w_b = p_w_b = 2 ^ 62\<close> and \<open>h = - 3\<close> the product is negative, so an empty buffer is long
  enough, and there is no row to emit, yet both revisions of \<open>center\<close> compute
  \<open>expected_len = 2 ^ 62\<close> and return the "data too short" error. And where the padded rows
  are more than the runtime grants: \<open>center({1}, 1, 2 ^ 50, 1)\<close> asks \<open>make\<close> for
  \<open>2 ^ 49 - 1\<close> bytes of left padding, above the \<open>2 ^ 48\<close> that bound every 64-bit Go
  runtime (and the limit of the example runtime), and panics.
\<close>

theorem C3_center_fails_counterexample:
  "0 \<le> sint (2 ^ 62 :: go_int) \<and> sint (2 ^ 62 :: go_int) \<le> sint (2 ^ 62 :: go_int)
   \<and> sint (2 ^ 62 :: go_int) * sint (- 3 :: go_int) \<le> int (length ([] :: byte list))
   \<and> center example_runtime [] (2 ^ 62) (2 ^ 62) (- 3) = Return (Inl (CenterDataTooShort 0 (2 ^ 62)))
   \<and> center0 example_runtime [] (2 ^ 62) (2 ^ 62) (- 3) = Return (Inl (CenterDataTooShort 0 (2 ^ 62)))
   \<and> 0 \<le> sint (1 :: go_int) \<and> sint (1 :: go_int) \<le> sint (2 ^ 50 :: go_int)
   \<and> sint (1 :: go_int) * sint (1 :: go_int) \<le> int (length [1 :: byte])
   \<and> center example_runtime [1] 1 (2 ^ 50) 1 = Panic MakeSliceLenOutOfRange
   \<and> center0 example_runtime [1] 1 (2 ^ 50) 1 = Panic MakeSliceLenOutOfRange"
  using center_negative_overflow [of example_runtime] center_beyond_the_limit by simp

text \<open>
  C3, amended: for every buffer \<open>d\<close> with \<open>len(d) \<ge> w_b * h\<close>, \<open>0 \<le> w_b \<le> p_w_b\<close>, a
  product \<open>w_b * h\<close> that is not below the least \<open>int\<close> (every \<open>h \<ge> 0\<close> is such; the length
  of a Go slice is an \<open>int\<close>, hence below \<open>2 ^ 63\<close>) and padded rows \<open>p_w_b * h\<close> of no more
  bytes than the runtime grants a slice, both revisions of \<open>center\<close> succeed and return, for
  each of the \<open>h\<close> rows in order, \<open>left_pad = (p_w_b - w_b) / 2\<close> zero bytes, the row's \<open>w_b\<close>
  data bytes and \<open>right_pad = p_w_b - w_b - left_pad\<close> zero bytes; \<open>center({1,2,3,4}, 4, 8, 1)\<close>
  is \<open>{0,0,1,2,3,4,0,0}\<close> and \<open>center({1,2,3}, 3, 8, 1)\<close> is \<open>{0,0,1,2,3,0,0,0}\<close> wherever
  the runtime grants eight bytes.
\<close>

theorem C3_center_pads_every_row:
  assumes "0 \<le> sint w_b" and "sint w_b \<le> sint p_w_b"
    and "int (length d) < 2 ^ 63"
    and "sint w_b * sint h \<le> int (length d)"
    and "- (2 ^ 63) \<le> sint w_b * sint h"
    and "sint p_w_b * sint h \<le> slice_limit rt"
  shows "center rt d w_b p_w_b h = Return (Inr (centered_rows d (sint w_b) (sint p_w_b) (sint h)))
    \<and> center0 rt d w_b p_w_b h = Return (Inr (centered_rows d (sint w_b) (sint p_w_b) (sint h)))
    \<and> (8 \<le> slice_limit rt \<longrightarrow>
         center rt [1, 2, 3, 4] 4 8 1 = Return (Inr [0, 0, 1, 2, 3, 4, 0, 0])
         \<and> center rt [1, 2, 3] 3 8 1 = Return (Inr [0, 0, 1, 2, 3, 0, 0, 0])
         \<and> center0 rt [1, 2, 3, 4] 4 8 1 = Return (Inr [0, 0, 1, 2, 3, 4, 0, 0])
         \<and> center0 rt [1, 2, 3] 3 8 1 = Return (Inr [0, 0, 1, 2, 3, 0, 0, 0]))"
  using center_ok [OF assms] center_examples [of rt] by simp

theorem C3_center_pads_every_row_witness:
  "0 \<le> sint (3 :: go_int) \<and> sint (3 :: go_int) \<le> sint (8 :: go_int)
   \<and> int (length [1, 2, 3, 4, 5, 6 :: byte]) < 2 ^ 63
   \<and> sint (3 :: go_int) * sint (2 :: go_int) \<le> int (length [1, 2, 3, 4, 5, 6 :: byte])
   \<and> - (2 ^ 63) \<le> sint (3 :: go_int) * sint (2 :: go_int)
   \<and> sint (8 :: go_int) * sint (2 :: go_int) \<le> slice_limit example_runtime
   \<and> center example_runtime [1, 2, 3, 4, 5, 6] 3 8 2
       = Return (Inr [0, 0, 1, 2, 3, 0, 0, 0, 0, 0, 4, 5, 6, 0, 0, 0])
   \<and> center0 example_runtime [1, 2, 3, 4, 5, 6] 3 8 2
       = Return (Inr [0, 0, 1, 2, 3, 0, 0, 0, 0, 0, 4, 5, 6, 0, 0, 0])
   \<and> center example_runtime [1, 2, 3, 4] 4 8 1 = Return (Inr [0, 0, 1, 2, 3, 4, 0, 0])
   \<and> center example_runtime [1, 2, 3] 3 8 1 = Return (Inr [0, 0, 1, 2, 3, 0, 0, 0])
   \<and> center0 example_runtime [1, 2, 3, 4] 4 8 1 = Return (Inr [0, 0, 1, 2, 3, 4, 0, 0])
   \<and> center0 example_runtime [1, 2, 3] 3 8 1 = Return (Inr [0, 0, 1, 2, 3, 0, 0, 0])"
  using C3_center_pads_every_row [of 3 8 "[1, 2, 3, 4, 5, 6]" 2 example_runtime]
  by (simp add: centered_rows_def centered_row_def numeral_2_eq_2 numeral_3_eq_3 upt_rec
      example_runtime_def)

text \<open>
  C10, as stated, fails: with \<open>w_b = 64\<close>, \<open>h = 2 ^ 58\<close> and an empty buffer the product wraps
  to \<open>0\<close>, the upfront length check passes, and the bound check of row \<open>0\<close> fires in both
  revisions of \<open>center\<close>.
\<close>

theorem C10_center_row_check_fires_counterexample:
  "0 \<le> sint (64 :: go_int)
   \<and> \<not> int (length ([] :: byte list)) < sint ((64 :: go_int) * 2 ^ 58)
   \<and> center example_runtime [] 64 72 (2 ^ 58) = Return (Inl (CenterRowOutOfBounds 0))
   \<and> center0 example_runtime [] 64 72 (2 ^ 58) = Return (Inl (CenterRowOutOfBounds 0))"
  using center_overflow [of example_runtime] by simp

text \<open>
  C10, amended: in \<open>center(d, w_b, p_w_b, h)\<close> with \<open>w_b \<ge> 0\<close> and a product \<open>w_b * h\<close> inside
  the range of \<open>int\<close>, whenever the upfront length check passes (\<open>len(d) \<ge> w_b * h\<close>) the slice
  end \<open>(y + 1) * w_b\<close> of every row \<open>y < h\<close> is at most \<open>len(d)\<close>, neither revision returns the
  "row out of bounds" error, and \<open>center\<close> returns an error exactly when \<open>len(d) < w_b * h\<close>.
  This holds on every runtime.
\<close>

theorem C10_center_row_check_never_fires:
  assumes "0 \<le> sint w_b" and "int (length d) < 2 ^ 63"
    and "- (2 ^ 63) \<le> sint w_b * sint h" and "sint w_b * sint h < 2 ^ 63"
  shows "(sint w_b * sint h \<le> int (length d) \<longrightarrow>
            (\<forall>y. int y < sint h \<longrightarrow> (int y + 1) * sint w_b \<le> int (length d)))
    \<and> center rt d w_b p_w_b h \<noteq> Return (Inl (CenterRowOutOfBounds y))
    \<and> center0 rt d w_b p_w_b h \<noteq> Return (Inl (CenterRowOutOfBounds y))
    \<and> ((\<exists>e. center rt d w_b p_w_b h = Return (Inl e)) \<longleftrightarrow> int (length d) < sint w_b * sint h)
    \<and> ((\<exists>e. center0 rt d w_b p_w_b h = Return (Inl e)) \<longleftrightarrow> int (length d) < sint w_b * sint h)"
proof (cases "int (length d) < sint w_b * sint h")
  case True
  note f = center_check_fails [OF True assms(3) assms(4)]
  show ?thesis using True by (simp add: f)
next
  case False
  then have fit: "sint w_b * sint h \<le> int (length d)" by simp
  have c: "\<And>e. center rt d w_b p_w_b h \<noteq> Return (Inl e)"
    by (rule center_check_passes(1) [OF assms(1) assms(2) fit assms(3)])
  have c0: "\<And>e. center0 rt d w_b p_w_b h \<noteq> Return (Inl e)"
    by (rule center_check_passes(2) [OF assms(1) assms(2) fit assms(3)])
  have rows: "\<forall>y. int y < sint h \<longrightarrow> (int y + 1) * sint w_b \<le> int (length d)"
  proof (intro allI impI)
    fix y :: nat assume "int y < sint h"
    then have "y \<in> set [0..<nat (sint h)]" by auto
    then show "(int y + 1) * sint w_b \<le> int (length d)"
      using rows_fit [OF assms(1) fit] by blast
  qed
  show ?thesis using False rows by (simp add: c c0)
qed

theorem C10_center_row_check_never_fires_witness:
  "0 \<le> sint (2 :: go_int) \<and> int (length [1, 2, 3, 4 :: byte]) < 2 ^ 63
   \<and> - (2 ^ 63) \<le> sint (2 :: go_int) * sint (3 :: go_int)
   \<and> sint (2 :: go_int) * sint (3 :: go_int) < 2 ^ 63
   \<and> center example_runtime [1, 2, 3, 4] 2 4 3 \<noteq> Return (Inl (CenterRowOutOfBounds 2))
   \<and> center0 example_runtime [1, 2, 3, 4] 2 4 3 \<noteq> Return (Inl (CenterRowOutOfBounds 2))
   \<and> (\<exists>e. center example_runtime [1, 2, 3, 4] 2 4 3 = Return (Inl e))
   \<and> (\<exists>e. center0 example_runtime [1, 2, 3, 4] 2 4 3 = Return (Inl e))"
  using C10_center_row_check_never_fires [of 2 "[1, 2, 3, 4]" 3 example_runtime 4 2]
  by simp

section \<open>Retry with reconnect\<close>

lemma emit_simp: "emit es (v, s, tr) = (v, s, es @ tr)"
  by (simp add: emit_def)

lemma attempt_state_shift:
  "attempt_state c fn s (Suc j) = attempt_state c fn (reconnect c (fst (snd (fn s)))) j"
  by (induction j) simp_all

lemma count_list_reports:
  "count_list (map FnEmit xs) FnCall = 0"
  "count_list (map FnEmit xs) CloseCall = 0"
  "count_list (map FnEmit xs) OpenCall = 0"
  "count_list (map FnEmit xs) (SleepCall d) = 0"
  by (induction xs) simp_all

lemma retry_loop_success:
  assumes "fn s = (Return (v, None), s1, xs)"
  shows "retry_loop p N fn (i # is) r err s = (Return (v, None), s1, FnCall # map FnEmit xs)"
    and "retry_loop0 p N fn (i # is) r err s = (Return (v, None), s1, FnCall # map FnEmit xs)"
  using assms by simp_all

lemma retry_loop_failure:
  assumes conn: "connection p = Some c" and f: "fn s = (Return (v, Some e), s1, xs)"
    and i: "int i < N - 1"
  shows "\<exists>err1. retry_loop p N fn (i # is) r err s =
           emit (FnCall # map FnEmit xs @ [CloseCall, SleepCall (retryDelay p), OpenCall])
             (retry_loop p N fn is v (Some err1) (reconnect c s1))"
  using assms by (auto simp: close_connection_def reconnect_def split: prod.splits option.splits)

lemma retry_loop_last_failure:
  assumes conn: "connection p = Some c" and f: "fn s = (Return (v, Some e), s1, xs)"
    and i: "\<not> int i < N - 1"
  shows "retry_loop p N fn (i # is) r err s =
           emit (FnCall # map FnEmit xs @ [CloseCall])
             (retry_loop p N fn is v (Some e) (snd (Close c s1)))"
  using assms by (simp add: close_connection_def split: prod.splits option.splits)

lemma retry_loop0_failure:
  assumes conn: "connection p = Some c" and f: "fn s = (Return (v, Some e), s1, xs)"
  shows "\<exists>err1. retry_loop0 p N fn (i # is) r err s =
           emit (FnCall # map FnEmit xs @ [CloseCall, SleepCall 2000000000, OpenCall])
             (retry_loop0 p N fn is v (Some err1) (reconnect c s1))"
  using assms by (auto simp: close_connection_def reconnect_def split: prod.splits option.splits)


lemma upt_segment: "[i..<i + Suc m] @ rest = i # ([Suc i..<Suc i + m] @ rest)"
  by (simp add: upt_conv_Cons)

lemma retry_loop_succeeds:
  assumes conn: "connection p = Some c"
    and fails: "\<forall>j<m. \<exists>w e. fst (fn (attempt_state c fn s j)) = Return (w, Some e)"
    and succ: "fst (fn (attempt_state c fn s m)) = Return (v, None)"
    and bound: "int (i + m) < N"
  shows "\<exists>tr pre. retry_loop p N fn ([i..<i + m] @ (i + m) # rest) r err s
           = (Return (v, None), fst (snd (fn (attempt_state c fn s m))), tr)
         \<and> count_list tr FnCall = Suc m \<and> count_list tr CloseCall = m
         \<and> count_list tr OpenCall = m \<and> count_list tr (SleepCall (retryDelay p)) = m
         \<and> tr = pre @ FnCall # map FnEmit (snd (snd (fn (attempt_state c fn s m))))"
  using fails succ bound
proof (induction m arbitrary: i s r err)
  case 0
  obtain s1 xs where f: "fn s = (Return (v, None), s1, xs)"
    using 0(2) by (cases "fn s") auto
  show ?case
    using retry_loop_success(1) [where fn = fn and s = s, OF f] by (simp add: f count_list_reports)
next
  case (Suc m)
  obtain w e where "fst (fn (attempt_state c fn s 0)) = Return (w, Some e)"
    using Suc.prems(1) by blast
  then obtain s1 xs where f: "fn s = (Return (w, Some e), s1, xs)"
    by (cases "fn s") auto
  have i: "int i < N - 1" using Suc.prems(3) by simp
  obtain err1 where step: "retry_loop p N fn (i # ([Suc i..<Suc i + m] @ (Suc i + m) # rest)) r err s =
           emit (FnCall # map FnEmit xs @ [CloseCall, SleepCall (retryDelay p), OpenCall])
             (retry_loop p N fn ([Suc i..<Suc i + m] @ (Suc i + m) # rest) w (Some err1) (reconnect c s1))"
    using retry_loop_failure [where fn = fn and s = s, OF conn f i] by blast
  let ?s = "reconnect c s1"
  have sh: "\<And>j. attempt_state c fn s (Suc j) = attempt_state c fn ?s j"
    by (simp only: attempt_state_shift f fst_conv snd_conv)
  have fails': "\<forall>j<m. \<exists>w e. fst (fn (attempt_state c fn ?s j)) = Return (w, Some e)"
    using Suc.prems(1) sh by (metis Suc_less_eq)
  have succ': "fst (fn (attempt_state c fn ?s m)) = Return (v, None)"
    using Suc.prems(2) sh by metis
  have bound': "int (Suc i + m) < N" using Suc.prems(3) by simp
  obtain tr pre where ih:
    "retry_loop p N fn ([Suc i..<Suc i + m] @ (Suc i + m) # rest) w (Some err1) ?s
       = (Return (v, None), fst (snd (fn (attempt_state c fn ?s m))), tr)"
    "count_list tr FnCall = Suc m" "count_list tr CloseCall = m"
    "count_list tr OpenCall = m" "count_list tr (SleepCall (retryDelay p)) = m"
    "tr = pre @ FnCall # map FnEmit (snd (snd (fn (attempt_state c fn ?s m))))"
    using Suc.IH [OF fails' succ' bound'] by blast
  let ?head = "FnCall # map FnEmit xs @ [CloseCall, SleepCall (retryDelay p), OpenCall]"
  have l: "[i..<i + Suc m] @ (i + Suc m) # rest = i # ([Suc i..<Suc i + m] @ (Suc i + m) # rest)"
    using upt_segment [of i m "(i + Suc m) # rest"] by simp
  have res: "retry_loop p N fn ([i..<i + Suc m] @ (i + Suc m) # rest) r err s
       = (Return (v, None), fst (snd (fn (attempt_state c fn s (Suc m)))), ?head @ tr)"
    unfolding l step ih(1) by (simp add: emit_simp sh del: attempt_state.simps)
  have tl: "?head @ tr = (?head @ pre) @ FnCall # map FnEmit (snd (snd (fn (attempt_state c fn s (Suc m)))))"
    using ih(6) by (simp add: sh del: attempt_state.simps)
  have cnt: "count_list (?head @ tr) FnCall = Suc (Suc m)"
    "count_list (?head @ tr) CloseCall = Suc m"
    "count_list (?head @ tr) OpenCall = Suc m"
    "count_list (?head @ tr) (SleepCall (retryDelay p)) = Suc m"
    using ih(2-5) by (simp_all add: count_list_reports)
  show ?case using res cnt tl by blast
qed

lemma retry_loop0_succeeds:
  assumes conn: "connection p = Some c"
    and fails: "\<forall>j<m. \<exists>w e. fst (fn (attempt_state c fn s j)) = Return (w, Some e)"
    and succ: "fst (fn (attempt_state c fn s m)) = Return (v, None)"
  shows "\<exists>tr pre. retry_loop0 p N fn ([i..<i + m] @ (i + m) # rest) r err s
           = (Return (v, None), fst (snd (fn (attempt_state c fn s m))), tr)
         \<and> count_list tr FnCall = Suc m \<and> count_list tr CloseCall = m
         \<and> count_list tr OpenCall = m \<and> count_list tr (SleepCall 2000000000) = m
         \<and> tr = pre @ FnCall # map FnEmit (snd (snd (fn (attempt_state c fn s m))))"
  using fails succ
proof (induction m arbitrary: i s r err)
  case 0
  obtain s1 xs where f: "fn s = (Return (v, None), s1, xs)"
    using 0(2) by (cases "fn s") auto
  show ?case
    using retry_loop_success(2) [where fn = fn and s = s, OF f] by (simp add: f count_list_reports)
next
  case (Suc m)
  obtain w e where "fst (fn (attempt_state c fn s 0)) = Return (w, Some e)"
    using Suc.prems(1) by blast
  then obtain s1 xs where f: "fn s = (Return (w, Some e), s1, xs)"
    by (cases "fn s") auto
  obtain err1 where step: "retry_loop0 p N fn (i # ([Suc i..<Suc i + m] @ (Suc i + m) # rest)) r err s =
           emit (FnCall # map FnEmit xs @ [CloseCall, SleepCall 2000000000, OpenCall])
             (retry_loop0 p N fn ([Suc i..<Suc i + m] @ (Suc i + m) # rest) w (Some err1) (reconnect c s1))"
    using retry_loop0_failure [where fn = fn and s = s, OF conn f] by blast
  let ?s = "reconnect c s1"
  have sh: "\<And>j. attempt_state c fn s (Suc j) = attempt_state c fn ?s j"
    by (simp only: attempt_state_shift f fst_conv snd_conv)
  have fails': "\<forall>j<m. \<exists>w e. fst (fn (attempt_state c fn ?s j)) = Return (w, Some e)"
    using Suc.prems(1) sh by (metis Suc_less_eq)
  have succ': "fst (fn (attempt_state c fn ?s m)) = Return (v, None)"
    using Suc.prems(2) sh by metis
  obtain tr pre where ih:
    "retry_loop0 p N fn ([Suc i..<Suc i + m] @ (Suc i + m) # rest) w (Some err1) ?s
       = (Return (v, None), fst (snd (fn (attempt_state c fn ?s m))), tr)"
    "count_list tr FnCall = Suc m" "count_list tr CloseCall = m"
    "count_list tr OpenCall = m" "count_list tr (SleepCall 2000000000) = m"
    "tr = pre @ FnCall # map FnEmit (snd (snd (fn (attempt_state c fn ?s m))))"
    using Suc.IH [OF fails' succ'] by blast
  let ?head = "FnCall # map FnEmit xs @ [CloseCall, SleepCall 2000000000, OpenCall]"
  have l: "[i..<i + Suc m] @ (i + Suc m) # rest = i # ([Suc i..<Suc i + m] @ (Suc i + m) # rest)"
    using upt_segment [of i m "(i + Suc m) # rest"] by simp
  have res: "retry_loop0 p N fn ([i..<i + Suc m] @ (i + Suc m) # rest) r err s
       = (Return (v, None), fst (snd (fn (attempt_state c fn s (Suc m)))), ?head @ tr)"
    unfolding l step ih(1) by (simp add: emit_simp sh del: attempt_state.simps)
  have tl: "?head @ tr = (?head @ pre) @ FnCall # map FnEmit (snd (snd (fn (attempt_state c fn s (Suc m)))))"
    using ih(6) by (simp add: sh del: attempt_state.simps)
  have cnt: "count_list (?head @ tr) FnCall = Suc (Suc m)"
    "count_list (?head @ tr) CloseCall = Suc m"
    "count_list (?head @ tr) OpenCall = Suc m"
    "count_list (?head @ tr) (SleepCall 2000000000) = Suc m"
    using ih(2-5) by (simp_all add: count_list_reports)
  show ?case using res cnt tl by blast
qed


lemma retry_loop_all_fail:
  assumes conn: "connection p = Some c"
    and fails: "\<forall>j<Suc m. \<exists>w e. fst (fn (attempt_state c fn s j)) = Return (w, Some e)"
    and bound: "int (i + Suc m) = N"
  shows "\<exists>tr pre w e. retry_loop p N fn [i..<i + Suc m] r err s
           = (Return (w, Some e), snd (Close c (fst (snd (fn (attempt_state c fn s m))))), tr)
         \<and> fst (fn (attempt_state c fn s m)) = Return (w, Some e)
         \<and> count_list tr FnCall = Suc m \<and> count_list tr CloseCall = Suc m
         \<and> count_list tr OpenCall = m \<and> count_list tr (SleepCall (retryDelay p)) = m
         \<and> tr = pre @ FnCall # map FnEmit (snd (snd (fn (attempt_state c fn s m)))) @ [CloseCall]"
  using fails bound
proof (induction m arbitrary: i s r err)
  case 0
  obtain w e where "fst (fn (attempt_state c fn s 0)) = Return (w, Some e)"
    using 0(1) by blast
  then obtain s1 xs where f: "fn s = (Return (w, Some e), s1, xs)"
    by (cases "fn s") auto
  have i: "\<not> int i < N - 1" using 0(2) by simp
  have l: "[i..<i + Suc 0] = [i]" by simp
  show ?case
    unfolding l retry_loop_last_failure [where fn = fn and s = s, OF conn f i]
    by (simp add: f emit_simp count_list_reports)
next
  case (Suc m)
  obtain w e where "fst (fn (attempt_state c fn s 0)) = Return (w, Some e)"
    using Suc.prems(1) by blast
  then obtain s1 xs where f: "fn s = (Return (w, Some e), s1, xs)"
    by (cases "fn s") auto
  have i: "int i < N - 1" using Suc.prems(2) by simp
  obtain err1 where step: "retry_loop p N fn (i # [Suc i..<Suc i + Suc m]) r err s =
           emit (FnCall # map FnEmit xs @ [CloseCall, SleepCall (retryDelay p), OpenCall])
             (retry_loop p N fn [Suc i..<Suc i + Suc m] w (Some err1) (reconnect c s1))"
    using retry_loop_failure [where fn = fn and s = s, OF conn f i] by blast
  let ?s = "reconnect c s1"
  have sh: "\<And>j. attempt_state c fn s (Suc j) = attempt_state c fn ?s j"
    by (simp only: attempt_state_shift f fst_conv snd_conv)
  have fails': "\<forall>j<Suc m. \<exists>w e. fst (fn (attempt_state c fn ?s j)) = Return (w, Some e)"
    using Suc.prems(1) sh by (metis Suc_less_eq)
  have bound': "int (Suc i + Suc m) = N" using Suc.prems(2) by simp
  obtain tr pre w' e' where ih:
    "retry_loop p N fn [Suc i..<Suc i + Suc m] w (Some err1) ?s
       = (Return (w', Some e'), snd (Close c (fst (snd (fn (attempt_state c fn ?s m))))), tr)"
    "fst (fn (attempt_state c fn ?s m)) = Return (w', Some e')"
    "count_list tr FnCall = Suc m" "count_list tr CloseCall = Suc m"
    "count_list tr OpenCall = m" "count_list tr (SleepCall (retryDelay p)) = m"
    "tr = pre @ FnCall # map FnEmit (snd (snd (fn (attempt_state c fn ?s m)))) @ [CloseCall]"
    using Suc.IH [OF fails' bound'] by blast
  let ?head = "FnCall # map FnEmit xs @ [CloseCall, SleepCall (retryDelay p), OpenCall]"
  have l: "[i..<i + Suc (Suc m)] = i # [Suc i..<Suc i + Suc m]"
    by (simp add: upt_conv_Cons)
  have res: "retry_loop p N fn [i..<i + Suc (Suc m)] r err s
       = (Return (w', Some e'), snd (Close c (fst (snd (fn (attempt_state c fn s (Suc m)))))), ?head @ tr)"
    unfolding l step ih(1) by (simp add: emit_simp sh del: attempt_state.simps)
  have last: "fst (fn (attempt_state c fn s (Suc m))) = Return (w', Some e')"
    using ih(2) by (simp add: sh del: attempt_state.simps)
  have tl: "?head @ tr = (?head @ pre) @ FnCall # map FnEmit (snd (snd (fn (attempt_state c fn s (Suc m))))) @ [CloseCall]"
    using ih(7) by (simp add: sh del: attempt_state.simps)
  have cnt: "count_list (?head @ tr) FnCall = Suc (Suc m)"
    "count_list (?head @ tr) CloseCall = Suc (Suc m)"
    "count_list (?head @ tr) OpenCall = Suc m"
    "count_list (?head @ tr) (SleepCall (retryDelay p)) = Suc m"
    using ih(3-6) by (simp_all add: count_list_reports)
  show ?case using res last cnt tl by blast
qed

lemma mock_simps:
  "connection mock_printer = Some mock_connection"
  "retryDelay mock_printer = 0"
  "Open mock_connection (m, n) = (OpenError m, m\<lparr>OpenCallCount := OpenCallCount m + 1\<rparr>, n)"
  "Close mock_connection (m, n) = (CloseError m, m\<lparr>CloseCallCount := CloseCallCount m + 1\<rparr>, n)"
  "WriteRaw mock_connection data (m, n) = (WriteRawError m, m\<lparr>WriteRawCalls := WriteRawCalls m @ [data]\<rparr>, n)"
  by (simp_all add: mock_printer_def mock_connection_def on_mock_def MockWritable_Open_def
      MockWritable_Close_def MockWritable_WriteRaw_def)

lemma withRetry0_reopens_after_final_failure:
  "withRetry0 None mock_printer 2 always_fails (new_mock, 0)
   = (Return (None, Some (External ''always fails'')),
      (new_mock\<lparr>OpenCallCount := 2, CloseCallCount := 2\<rparr>, 0),
      [FnCall, CloseCall, SleepCall 2000000000, OpenCall,
       FnCall, CloseCall, SleepCall 2000000000, OpenCall])"
  by (simp add: withRetry0_def upt_conv_Cons always_fails_def close_connection_def mock_simps
      emit_simp new_mock_def)

lemma withRetry_no_reopen_after_final_failure:
  "withRetry None mock_printer 2 always_fails (new_mock, 0)
   = (Return (None, Some (External ''always fails'')),
      (new_mock\<lparr>OpenCallCount := 1, CloseCallCount := 2\<rparr>, 0),
      [FnCall, CloseCall, SleepCall 0, OpenCall, FnCall, CloseCall])"
  by (simp add: withRetry_def upt_conv_Cons always_fails_def close_connection_def mock_simps
      emit_simp new_mock_def)

lemma withRetry_third_of_five:
  "withRetry None mock_printer 5 fails_first_2_times (new_mock, 0)
   = (Return (Some ''success'', None),
      (new_mock\<lparr>OpenCallCount := 2, CloseCallCount := 2\<rparr>, 3),
      [FnCall, CloseCall, SleepCall 0, OpenCall, FnCall, CloseCall, SleepCall 0, OpenCall, FnCall])"
  "withRetry0 None mock_printer 5 fails_first_2_times (new_mock, 0)
   = (Return (Some ''success'', None),
      (new_mock\<lparr>OpenCallCount := 2, CloseCallCount := 2\<rparr>, 3),
      [FnCall, CloseCall, SleepCall 2000000000, OpenCall,
       FnCall, CloseCall, SleepCall 2000000000, OpenCall, FnCall])"
  by (simp_all add: withRetry_def withRetry0_def upt_conv_Cons fails_first_2_times_def
      close_connection_def mock_simps emit_simp new_mock_def Let_def)


lemma upt_split_at:
  assumes "1 \<le> k" and "int k \<le> N"
  shows "[0..<nat N] = [0..<0 + (k - 1)] @ (0 + (k - 1)) # [k..<nat N]"
proof -
  have "k - 1 < nat N" using assms by linarith
  then have "[0..<nat N] = [0..<k - 1] @ [k - 1..<nat N]"
    by (metis le_add_diff_inverse less_imp_le_nat upt_add_eq_append zero_le)
  moreover have "[k - 1..<nat N] = (k - 1) # [k..<nat N]"
    using \<open>k - 1 < nat N\<close> assms(1) by (simp add: upt_conv_Cons)
  ultimately show ?thesis by simp
qed

lemma fails_first_2_times_attempts:
  "attempt_state mock_connection fails_first_2_times (new_mock, 0) 0 = (new_mock, 0)"
  "attempt_state mock_connection fails_first_2_times (new_mock, 0) (Suc 0)
     = (new_mock\<lparr>OpenCallCount := 1, CloseCallCount := 1\<rparr>, 1)"
  "attempt_state mock_connection fails_first_2_times (new_mock, 0) 2
     = (new_mock\<lparr>OpenCallCount := 2, CloseCallCount := 2\<rparr>, 2)"
  by (simp_all add: numeral_2_eq_2 reconnect_def fails_first_2_times_def mock_simps new_mock_def Let_def)

lemma reports_append: "reports (map FnEmit xs @ es) = xs @ reports es"
  by (induction xs) simp_all

lemma attempts_append: "attempts (map FnEmit xs @ es) = attempts es"
  by (induction xs) simp_all

lemma attempts_head:
  "attempts (FnCall # map FnEmit xs) = [xs]"
  "attempts (FnCall # map FnEmit xs @ CloseCall # es) = xs # attempts es"
  using reports_append [of xs "[]"] attempts_append [of xs "[]"]
    reports_append [of xs "CloseCall # es"] attempts_append [of xs "CloseCall # es"]
  by simp_all

lemma cut_attempts_single: "cut_attempts [[[0x1d, 0x56, 0x00], [0x1b, 0x64, 2]]]"
  by (simp add: cut_attempts_def)

lemma cut_attempts_Cons:
  "cut_attempts as \<Longrightarrow> a = [[0x1d, 0x56, 0x00]] \<or> a = [[0x1d, 0x56, 0x00], [0x1b, 0x64, 2]]
     \<Longrightarrow> cut_attempts (a # as)"
  by (auto simp: cut_attempts_def)

lemma Cut_fn_cases:
  assumes "connection p = Some c"
  shows "(\<exists>s1. Cut_fn p s = (Return ((), None), s1, [CUT_CMD, FEED_N_CMD 2]))
       \<or> (\<exists>e s1. Cut_fn p s = (Return ((), Some e), s1, [CUT_CMD]))
       \<or> (\<exists>e s1. Cut_fn p s = (Return ((), Some e), s1, [CUT_CMD, FEED_N_CMD 2]))"
    and "(\<exists>s1. Cut_fn0 p s = (Return ((), None), s1, [CUT_CMD, FEED_N_CMD 2]))
       \<or> (\<exists>e s1. Cut_fn0 p s = (Return ((), Some e), s1, [CUT_CMD]))
       \<or> (\<exists>e s1. Cut_fn0 p s = (Return ((), Some e), s1, [CUT_CMD, FEED_N_CMD 2]))"
  using assms
  by (auto simp: Cut_fn_def Cut_fn0_def write_raw_def split: prod.splits option.splits)

lemma cmd_bytes: "CUT_CMD = [0x1d, 0x56, 0x00]" "FEED_N_CMD 2 = [0x1b, 0x64, 2]"
  by (simp_all add: CUT_CMD_def FEED_N_CMD_def)

lemma retry_loop_no_connection:
  assumes "connection p = None" and "fn = Cut_fn p \<or> fn = Cut_fn0 p"
  shows "retry_loop p N fn (i # is) r err s \<noteq> (Return x, s', tr)"
    and "retry_loop0 p N fn (i # is) r err s \<noteq> (Return x, s', tr)"
  using assms by (auto simp: Cut_fn_def Cut_fn0_def write_raw_def)

lemma retry_loop_cut_attempts:
  assumes conn: "connection p = Some c"
    and fn: "\<And>s. (\<exists>s1. fn s = (Return ((), None), s1, [CUT_CMD, FEED_N_CMD 2]))
       \<or> (\<exists>e s1. fn s = (Return ((), Some e), s1, [CUT_CMD]))
       \<or> (\<exists>e s1. fn s = (Return ((), Some e), s1, [CUT_CMD, FEED_N_CMD 2]))"
  shows "retry_loop p N fn is r err s = (Return (v, None), s', tr) \<Longrightarrow>
         (is = [] \<and> err = None \<and> tr = [])
         \<or> (cut_attempts (attempts tr) \<and> length (attempts tr) \<le> length is)"
proof (induction "is" arbitrary: r err s tr)
  case Nil
  then show ?case by simp
next
  case (Cons i "is")
  consider (ok) s1 where "fn s = (Return ((), None), s1, [CUT_CMD, FEED_N_CMD 2])"
    | (bad) e s1 xs where "fn s = (Return ((), Some e), s1, xs)"
        "xs = [CUT_CMD] \<or> xs = [CUT_CMD, FEED_N_CMD 2]"
    using fn [of s] by blast
  then show ?case
  proof cases
    case ok
    have "tr = FnCall # map FnEmit [CUT_CMD, FEED_N_CMD 2]"
      using Cons.prems by (simp add: ok)
    then have "attempts tr = [[CUT_CMD, FEED_N_CMD 2]]"
      by (simp only: attempts_head(1))
    then show ?thesis using cut_attempts_single by (simp add: cmd_bytes)
  next
    case bad
    have xs: "xs = [[0x1d, 0x56, 0x00]] \<or> xs = [[0x1d, 0x56, 0x00], [0x1b, 0x64, 2]]"
      using bad(2) by (simp add: cmd_bytes)
    show ?thesis
    proof (cases "int i < N - 1")
      case True
      obtain err1 where step: "retry_loop p N fn (i # is) r err s =
           emit (FnCall # map FnEmit xs @ [CloseCall, SleepCall (retryDelay p), OpenCall])
             (retry_loop p N fn is () (Some err1) (reconnect c s1))"
        using retry_loop_failure [where fn = fn and s = s, OF conn bad(1) True] by blast
      obtain tr' where rec: "retry_loop p N fn is () (Some err1) (reconnect c s1) = (Return (v, None), s', tr')"
        and tr: "tr = FnCall # map FnEmit xs @ CloseCall # SleepCall (retryDelay p) # OpenCall # tr'"
        using Cons.prems unfolding step
        by (cases "retry_loop p N fn is () (Some err1) (reconnect c s1)") (auto simp: emit_simp)
      have ih: "cut_attempts (attempts tr') \<and> length (attempts tr') \<le> length is"
        using Cons.IH [OF rec] by simp
      have "attempts tr = xs # attempts tr'"
        unfolding tr by (simp only: attempts_head(2)) simp
      then show ?thesis using ih xs cut_attempts_Cons by simp
    next
      case False
      have step: "retry_loop p N fn (i # is) r err s =
           emit (FnCall # map FnEmit xs @ [CloseCall])
             (retry_loop p N fn is () (Some e) (snd (Close c s1)))"
        using retry_loop_last_failure [where fn = fn and s = s, OF conn bad(1) False] by blast
      obtain tr' where rec: "retry_loop p N fn is () (Some e) (snd (Close c s1)) = (Return (v, None), s', tr')"
        and tr: "tr = FnCall # map FnEmit xs @ CloseCall # tr'"
        using Cons.prems unfolding step
        by (cases "retry_loop p N fn is () (Some e) (snd (Close c s1))") (auto simp: emit_simp)
      have ih: "cut_attempts (attempts tr') \<and> length (attempts tr') \<le> length is"
        using Cons.IH [OF rec] by simp
      have "attempts tr = xs # attempts tr'"
        unfolding tr by (simp only: attempts_head(2))
      then show ?thesis using ih xs cut_attempts_Cons by simp
    qed
  qed
qed


lemma retry_loop0_cut_attempts:
  assumes conn: "connection p = Some c"
    and fn: "\<And>s. (\<exists>s1. fn s = (Return ((), None), s1, [CUT_CMD, FEED_N_CMD 2]))
       \<or> (\<exists>e s1. fn s = (Return ((), Some e), s1, [CUT_CMD]))
       \<or> (\<exists>e s1. fn s = (Return ((), Some e), s1, [CUT_CMD, FEED_N_CMD 2]))"
  shows "retry_loop0 p N fn is r err s = (Return (v, None), s', tr) \<Longrightarrow>
         (is = [] \<and> err = None \<and> tr = [])
         \<or> (cut_attempts (attempts tr) \<and> length (attempts tr) \<le> length is)"
proof (induction "is" arbitrary: r err s tr)
  case Nil
  then show ?case by simp
next
  case (Cons i "is")
  consider (ok) s1 where "fn s = (Return ((), None), s1, [CUT_CMD, FEED_N_CMD 2])"
    | (bad) e s1 xs where "fn s = (Return ((), Some e), s1, xs)"
        "xs = [CUT_CMD] \<or> xs = [CUT_CMD, FEED_N_CMD 2]"
    using fn [of s] by blast
  then show ?case
  proof cases
    case ok
    have "tr = FnCall # map FnEmit [CUT_CMD, FEED_N_CMD 2]"
      using Cons.prems by (simp add: ok)
    then have "attempts tr = [[CUT_CMD, FEED_N_CMD 2]]"
      by (simp only: attempts_head(1))
    then show ?thesis using cut_attempts_single by (simp add: cmd_bytes)
  next
    case bad
    have xs: "xs = [[0x1d, 0x56, 0x00]] \<or> xs = [[0x1d, 0x56, 0x00], [0x1b, 0x64, 2]]"
      using bad(2) by (simp add: cmd_bytes)
    obtain err1 where step: "retry_loop0 p N fn (i # is) r err s =
         emit (FnCall # map FnEmit xs @ [CloseCall, SleepCall 2000000000, OpenCall])
           (retry_loop0 p N fn is () (Some err1) (reconnect c s1))"
      using retry_loop0_failure [where fn = fn and s = s, OF conn bad(1)] by blast
    obtain tr' where rec: "retry_loop0 p N fn is () (Some err1) (reconnect c s1) = (Return (v, None), s', tr')"
      and tr: "tr = FnCall # map FnEmit xs @ CloseCall # SleepCall 2000000000 # OpenCall # tr'"
      using Cons.prems unfolding step
      by (cases "retry_loop0 p N fn is () (Some err1) (reconnect c s1)") (auto simp: emit_simp)
    have ih: "cut_attempts (attempts tr') \<and> length (attempts tr') \<le> length is"
      using Cons.IH [OF rec] by simp
    have "attempts tr = xs # attempts tr'"
      unfolding tr by (simp only: attempts_head(2)) simp
    then show ?thesis using ih xs cut_attempts_Cons by simp
  qed
qed

lemma upt_8: "[0..<nat 8] = [0, 1, 2, 3, 4, 5, 6, 7]"
  by (simp add: upt_conv_Cons)

lemma drop_result_Return:
  "drop_result r = (Return err, s', tr) \<Longrightarrow> \<exists>v. r = (Return (v, err), s', tr)"
  by (auto simp: drop_result_def split: prod.splits go.splits)

lemma Cut_success:
  assumes "Cut p s = (Return None, s', tr)"
  shows "cut_attempts (attempts tr) \<and> length (attempts tr) \<le> 8"
proof (cases "connection p")
  case None
  from assms obtain v where "retry_loop p 8 (Cut_fn p) [0, 1, 2, 3, 4, 5, 6, 7] () None s
      = (Return (v, None), s', tr)"
    unfolding Cut_def withRetry_def upt_8 by (blast dest: drop_result_Return)
  then show ?thesis using retry_loop_no_connection(1) [OF None] by blast
next
  case (Some c)
  from assms obtain v where "retry_loop p 8 (Cut_fn p) [0, 1, 2, 3, 4, 5, 6, 7] () None s
      = (Return (v, None), s', tr)"
    unfolding Cut_def withRetry_def upt_8 by (blast dest: drop_result_Return)
  from retry_loop_cut_attempts [OF Some Cut_fn_cases(1) [OF Some], OF this]
  show ?thesis by simp
qed

lemma Cut0_success:
  assumes "Cut0 p s = (Return None, s', tr)"
  shows "cut_attempts (attempts tr) \<and> length (attempts tr) \<le> 8"
proof (cases "connection p")
  case None
  from assms obtain v where "retry_loop0 p 8 (Cut_fn0 p) [0, 1, 2, 3, 4, 5, 6, 7] () None s
      = (Return (v, None), s', tr)"
    unfolding Cut0_def withRetry0_def upt_8 by (blast dest: drop_result_Return)
  then show ?thesis using retry_loop_no_connection(2) [OF None] by blast
next
  case (Some c)
  from assms obtain v where "retry_loop0 p 8 (Cut_fn0 p) [0, 1, 2, 3, 4, 5, 6, 7] () None s
      = (Return (v, None), s', tr)"
    unfolding Cut0_def withRetry0_def upt_8 by (blast dest: drop_result_Return)
  from retry_loop0_cut_attempts [OF Some Cut_fn_cases(2) [OF Some], OF this]
  show ?thesis by simp
qed

lemma retry_loop_Cut_starts:
  assumes "connection p = Some c"
  shows "\<exists>rest. snd (snd (retry_loop p N (Cut_fn p) (i # is) r err s)) = FnCall # FnEmit CUT_CMD # rest"
    and "\<exists>rest. snd (snd (retry_loop0 p N (Cut_fn0 p) (i # is) r err s)) = FnCall # FnEmit CUT_CMD # rest"
  using assms
  by (auto simp: Cut_fn_def Cut_fn0_def write_raw_def emit_def close_connection_def
      split: prod.splits option.splits)

lemma snd_drop_result: "snd (snd (drop_result r)) = snd (snd r)"
  by (auto simp: drop_result_def split: prod.splits go.splits)

lemma snd_emit: "snd (snd (emit es r)) = es @ snd (snd r)"
  by (auto simp: emit_def split: prod.splits)

lemma Cut_resends_both:
  assumes conn: "connection p = Some c"
    and w1: "WriteRaw c CUT_CMD s = (None, s1)"
    and w2: "WriteRaw c (FEED_N_CMD 2) s1 = (Some e, s2)"
  shows "\<exists>rest. snd (snd (Cut p s)) =
           [FnCall, FnEmit CUT_CMD, FnEmit (FEED_N_CMD 2), CloseCall, SleepCall (retryDelay p),
            OpenCall, FnCall, FnEmit CUT_CMD] @ rest"
    and "\<exists>rest. snd (snd (Cut0 p s)) =
           [FnCall, FnEmit CUT_CMD, FnEmit (FEED_N_CMD 2), CloseCall, SleepCall 2000000000,
            OpenCall, FnCall, FnEmit CUT_CMD] @ rest"
proof -
  have f: "Cut_fn p s = (Return ((), Some (Wrap ''feed command failed'' e)), s2, [CUT_CMD, FEED_N_CMD 2])"
    using conn w1 w2 by (simp add: Cut_fn_def write_raw_def)
  have i: "int 0 < 8 - 1" by simp
  obtain err1 where step: "retry_loop p 8 (Cut_fn p) (0 # [1, 2, 3, 4, 5, 6, 7]) () None s =
           emit (FnCall # map FnEmit [CUT_CMD, FEED_N_CMD 2] @ [CloseCall, SleepCall (retryDelay p), OpenCall])
             (retry_loop p 8 (Cut_fn p) [1, 2, 3, 4, 5, 6, 7] () (Some err1) (reconnect c s2))"
    using retry_loop_failure [where fn = "Cut_fn p" and s = s, OF conn f i] by blast
  obtain rest where r: "snd (snd (retry_loop p 8 (Cut_fn p) (1 # [2, 3, 4, 5, 6, 7]) () (Some err1) (reconnect c s2)))
      = FnCall # FnEmit CUT_CMD # rest"
    using retry_loop_Cut_starts(1) [OF conn] by blast
  show "\<exists>rest. snd (snd (Cut p s)) =
           [FnCall, FnEmit CUT_CMD, FnEmit (FEED_N_CMD 2), CloseCall, SleepCall (retryDelay p),
            OpenCall, FnCall, FnEmit CUT_CMD] @ rest"
    unfolding Cut_def withRetry_def upt_8 snd_drop_result step snd_emit r by simp
  have f0: "Cut_fn0 p s = (Return ((), Some e), s2, [CUT_CMD, FEED_N_CMD 2])"
    using conn w1 w2 by (simp add: Cut_fn0_def write_raw_def)
  obtain err1 where step0: "retry_loop0 p 8 (Cut_fn0 p) (0 # [1, 2, 3, 4, 5, 6, 7]) () None s =
           emit (FnCall # map FnEmit [CUT_CMD, FEED_N_CMD 2] @ [CloseCall, SleepCall 2000000000, OpenCall])
             (retry_loop0 p 8 (Cut_fn0 p) [1, 2, 3, 4, 5, 6, 7] () (Some err1) (reconnect c s2))"
    using retry_loop0_failure [where fn = "Cut_fn0 p" and s = s, OF conn f0] by blast
  obtain rest0 where r0: "snd (snd (retry_loop0 p 8 (Cut_fn0 p) (1 # [2, 3, 4, 5, 6, 7]) () (Some err1) (reconnect c s2)))
      = FnCall # FnEmit CUT_CMD # rest0"
    using retry_loop_Cut_starts(2) [OF conn] by blast
  show "\<exists>rest. snd (snd (Cut0 p s)) =
           [FnCall, FnEmit CUT_CMD, FnEmit (FEED_N_CMD 2), CloseCall, SleepCall 2000000000,
            OpenCall, FnCall, FnEmit CUT_CMD] @ rest"
    unfolding Cut0_def withRetry0_def upt_8 snd_drop_result step0 snd_emit r0 by simp
qed

lemma withRetry_all_attempts_fail:
  assumes "connection p = Some c" and "1 \<le> N"
    and "\<forall>j<nat N. \<exists>w e. fst (fn (attempt_state c fn s j)) = Return (w, Some e)"
  shows "\<exists>tr pre w e. withRetry zero p N fn s
           = (Return (w, Some e), snd (Close c (fst (snd (fn (attempt_state c fn s (nat N - 1)))))), tr)
         \<and> fst (fn (attempt_state c fn s (nat N - 1))) = Return (w, Some e)
         \<and> count_list tr FnCall = nat N \<and> count_list tr CloseCall = nat N
         \<and> count_list tr OpenCall = nat N - 1
         \<and> count_list tr (SleepCall (retryDelay p)) = nat N - 1
         \<and> tr = pre @ FnCall # map FnEmit (snd (snd (fn (attempt_state c fn s (nat N - 1))))) @ [CloseCall]"
proof -
  have n: "Suc (nat N - 1) = nat N" using assms(2) by simp
  have b: "int (0 + Suc (nat N - 1)) = N" using assms(2) by simp
  have f: "\<forall>j<Suc (nat N - 1). \<exists>w e. fst (fn (attempt_state c fn s j)) = Return (w, Some e)"
    using assms(3) n by simp
  have l: "[0..<nat N] = [0..<0 + Suc (nat N - 1)]" using n by simp
  show ?thesis
    using retry_loop_all_fail [where fn = fn and s = s and i = 0 and r = zero and err = None,
        OF assms(1) f b]
    unfolding withRetry_def l n by blast
qed

text \<open>
  C1 holds for \<open>withRetry\<close> of \<open>src/main.go\<close> (lemma \<open>withRetry_all_attempts_fail\<close>: \<open>N\<close>
  invocations, \<open>N\<close> closes, \<open>N - 1\<close> sleeps and reopens, the error of the last invocation).
  \<open>withRetry\<close> of \<open>src/printer.go\<close> lines 28-57 sleeps and reopens after the final failed
  attempt as well: on the mock of \<open>TestWithRetry_CloseAndOpenSequence\<close> (budget 2, an operation
  that always fails) it calls \<open>Open\<close> twice, where the test expects one call.
\<close>

theorem C1_withRetry0_reopens_after_final_failure:
  "withRetry0 None mock_printer 2 always_fails (new_mock, 0)
   = (Return (None, Some (External ''always fails'')),
      (new_mock\<lparr>OpenCallCount := 2, CloseCallCount := 2\<rparr>, 0),
      [FnCall, CloseCall, SleepCall 2000000000, OpenCall,
       FnCall, CloseCall, SleepCall 2000000000, OpenCall])
   \<and> withRetry None mock_printer 2 always_fails (new_mock, 0)
   = (Return (None, Some (External ''always fails'')),
      (new_mock\<lparr>OpenCallCount := 1, CloseCallCount := 2\<rparr>, 0),
      [FnCall, CloseCall, SleepCall 0, OpenCall, FnCall, CloseCall])"
  using withRetry0_reopens_after_final_failure withRetry_no_reopen_after_final_failure by simp

text \<open>
  C7: when the first \<open>k - 1\<close> attempts fail and attempt \<open>k \<le> N\<close> succeeds, both revisions
  of \<open>withRetry\<close> return the result of the \<open>k\<close>-th invocation in the state that invocation
  left, after \<open>k\<close> invocations, \<open>k - 1\<close> closes and \<open>k - 1\<close> reopens, and the trace ends
  with the successful invocation; success on the 3rd of 5 attempts gives 3 invocations,
  2 closes and 2 reopens. The printer has a transport (\<open>connection p = Some c\<close>).
\<close>

theorem C7_withRetry_stops_at_first_success:
  assumes "connection p = Some c" and "1 \<le> k" and "int k \<le> N"
    and "\<forall>j<k - 1. \<exists>w e. fst (fn (attempt_state c fn s j)) = Return (w, Some e)"
    and "fst (fn (attempt_state c fn s (k - 1))) = Return (v, None)"
  shows "(\<exists>tr pre. withRetry zero p N fn s
              = (Return (v, None), fst (snd (fn (attempt_state c fn s (k - 1)))), tr)
            \<and> count_list tr FnCall = k \<and> count_list tr CloseCall = k - 1
            \<and> count_list tr OpenCall = k - 1
            \<and> tr = pre @ FnCall # map FnEmit (snd (snd (fn (attempt_state c fn s (k - 1))))))
    \<and> (\<exists>tr pre. withRetry0 zero p N fn s
              = (Return (v, None), fst (snd (fn (attempt_state c fn s (k - 1)))), tr)
            \<and> count_list tr FnCall = k \<and> count_list tr CloseCall = k - 1
            \<and> count_list tr OpenCall = k - 1
            \<and> tr = pre @ FnCall # map FnEmit (snd (snd (fn (attempt_state c fn s (k - 1))))))
    \<and> withRetry None mock_printer 5 fails_first_2_times (new_mock, 0)
        = (Return (Some ''success'', None),
           (new_mock\<lparr>OpenCallCount := 2, CloseCallCount := 2\<rparr>, 3),
           [FnCall, CloseCall, SleepCall 0, OpenCall, FnCall, CloseCall, SleepCall 0, OpenCall,
            FnCall])"
proof -
  note l = upt_split_at [OF assms(2) assms(3)]
  have b: "int (0 + (k - 1)) < N" using assms(2) assms(3) by linarith
  have k: "Suc (k - 1) = k" using assms(2) by simp
  have new: "\<exists>tr pre. withRetry zero p N fn s
              = (Return (v, None), fst (snd (fn (attempt_state c fn s (k - 1)))), tr)
            \<and> count_list tr FnCall = k \<and> count_list tr CloseCall = k - 1
            \<and> count_list tr OpenCall = k - 1
            \<and> tr = pre @ FnCall # map FnEmit (snd (snd (fn (attempt_state c fn s (k - 1)))))"
    using retry_loop_succeeds [where fn = fn and s = s and i = 0 and rest = "[k..<nat N]"
        and r = zero and err = None, OF assms(1) assms(4) assms(5) b]
    unfolding withRetry_def l k by blast
  have old: "\<exists>tr pre. withRetry0 zero p N fn s
              = (Return (v, None), fst (snd (fn (attempt_state c fn s (k - 1)))), tr)
            \<and> count_list tr FnCall = k \<and> count_list tr CloseCall = k - 1
            \<and> count_list tr OpenCall = k - 1
            \<and> tr = pre @ FnCall # map FnEmit (snd (snd (fn (attempt_state c fn s (k - 1)))))"
    using retry_loop0_succeeds [where fn = fn and s = s and i = 0 and rest = "[k..<nat N]"
        and r = zero and err = None and N = N, OF assms(1) assms(4) assms(5)]
    unfolding withRetry0_def l k by blast
  show ?thesis using new old withRetry_third_of_five(1) by blast
qed

theorem C7_withRetry_stops_at_first_success_witness:
  "connection mock_printer = Some mock_connection \<and> (1 :: nat) \<le> 3 \<and> int 3 \<le> 5
   \<and> fst (fails_first_2_times (attempt_state mock_connection fails_first_2_times (new_mock, 0) 0))
       = Return (None, Some (External ''fails first 2 times''))
   \<and> fst (fails_first_2_times (attempt_state mock_connection fails_first_2_times (new_mock, 0) 1))
       = Return (None, Some (External ''fails first 2 times''))
   \<and> fst (fails_first_2_times (attempt_state mock_connection fails_first_2_times (new_mock, 0) (3 - 1)))
       = Return (Some ''success'', None)
   \<and> (\<exists>tr pre. withRetry None mock_printer 5 fails_first_2_times (new_mock, 0)
          = (Return (Some ''success'', None),
             (new_mock\<lparr>OpenCallCount := 2, CloseCallCount := 2\<rparr>, 3), tr)
        \<and> count_list tr FnCall = 3 \<and> count_list tr CloseCall = 2 \<and> count_list tr OpenCall = 2
        \<and> tr = pre @ [FnCall])"
proof -
  have h1: "connection mock_printer = Some mock_connection" by (simp add: mock_simps)
  have h2: "(1 :: nat) \<le> 3" by simp
  have h3: "int 3 \<le> 5" by simp
  have h4: "\<forall>j<3 - 1. \<exists>w e. fst (fails_first_2_times
          (attempt_state mock_connection fails_first_2_times (new_mock, 0) j)) = Return (w, Some e)"
  proof (intro allI impI)
    fix j :: nat assume "j < 3 - 1"
    then have "j = 0 \<or> j = Suc 0" by auto
    then show "\<exists>w e. fst (fails_first_2_times
          (attempt_state mock_connection fails_first_2_times (new_mock, 0) j)) = Return (w, Some e)"
    proof (elim disjE)
      assume "j = 0"
      then show ?thesis by (simp add: fails_first_2_times_def)
    next
      assume "j = Suc 0"
      then show ?thesis
        by (simp add: fails_first_2_times_attempts(2) fails_first_2_times_def
            del: attempt_state.simps)
    qed
  qed
  have h5: "fst (fails_first_2_times (attempt_state mock_connection fails_first_2_times (new_mock, 0) (3 - 1)))
       = Return (Some ''success'', None)"
    by (simp add: fails_first_2_times_attempts) (simp add: fails_first_2_times_def)
  have st: "fst (snd (fails_first_2_times (attempt_state mock_connection fails_first_2_times (new_mock, 0) (3 - 1))))
       = (new_mock\<lparr>OpenCallCount := 2, CloseCallCount := 2\<rparr>, 3)"
     "snd (snd (fails_first_2_times (attempt_state mock_connection fails_first_2_times (new_mock, 0) (3 - 1)))) = []"
    by (simp_all add: fails_first_2_times_attempts) (simp_all add: fails_first_2_times_def)
  from C7_withRetry_stops_at_first_success [where fn = fails_first_2_times and s = "(new_mock, 0)"
      and zero = None, OF h1 h2 h3 h4 h5]
  have "\<exists>tr pre. withRetry None mock_printer 5 fails_first_2_times (new_mock, 0)
          = (Return (Some ''success'', None),
             (new_mock\<lparr>OpenCallCount := 2, CloseCallCount := 2\<rparr>, 3), tr)
        \<and> count_list tr FnCall = 3 \<and> count_list tr CloseCall = 2 \<and> count_list tr OpenCall = 2
        \<and> tr = pre @ [FnCall]"
    unfolding st by simp
  moreover have "fst (fails_first_2_times (attempt_state mock_connection fails_first_2_times (new_mock, 0) 0))
       = Return (None, Some (External ''fails first 2 times''))"
    by (simp add: fails_first_2_times_def)
  moreover have "fst (fails_first_2_times (attempt_state mock_connection fails_first_2_times (new_mock, 0) 1))
       = Return (None, Some (External ''fails first 2 times''))"
    using fails_first_2_times_attempts(2)
    by (simp add: fails_first_2_times_def del: attempt_state.simps)
  ultimately show ?thesis using h1 h2 h3 h5 by (intro conjI)
qed

lemma retry_loop0_all_fail:
  assumes conn: "connection p = Some c"
    and fails: "\<forall>j<Suc m. \<exists>w e. fst (fn (attempt_state c fn s j)) = Return (w, Some e)"
  shows "\<exists>tr w e. retry_loop0 p N fn [i..<i + Suc m] r err s
           = (Return (w, Some e), attempt_state c fn s (Suc m), tr)
         \<and> count_list tr FnCall = Suc m \<and> count_list tr CloseCall = Suc m
         \<and> count_list tr OpenCall = Suc m \<and> count_list tr (SleepCall 2000000000) = Suc m"
  using fails
proof (induction m arbitrary: i s r err)
  case 0
  obtain w e where "fst (fn (attempt_state c fn s 0)) = Return (w, Some e)"
    using 0(1) by blast
  then obtain s1 xs where f: "fn s = (Return (w, Some e), s1, xs)"
    by (cases "fn s") auto
  have l: "[i..<i + Suc 0] = [i]" by simp
  obtain err1 where step: "retry_loop0 p N fn (i # []) r err s =
           emit (FnCall # map FnEmit xs @ [CloseCall, SleepCall 2000000000, OpenCall])
             (retry_loop0 p N fn [] w (Some err1) (reconnect c s1))"
    using retry_loop0_failure [where fn = fn and s = s, OF conn f] by blast
  show ?case
    unfolding l step by (simp add: f emit_simp count_list_reports)
next
  case (Suc m)
  obtain w e where "fst (fn (attempt_state c fn s 0)) = Return (w, Some e)"
    using Suc.prems(1) by blast
  then obtain s1 xs where f: "fn s = (Return (w, Some e), s1, xs)"
    by (cases "fn s") auto
  obtain err1 where step: "retry_loop0 p N fn (i # [Suc i..<Suc i + Suc m]) r err s =
           emit (FnCall # map FnEmit xs @ [CloseCall, SleepCall 2000000000, OpenCall])
             (retry_loop0 p N fn [Suc i..<Suc i + Suc m] w (Some err1) (reconnect c s1))"
    using retry_loop0_failure [where fn = fn and s = s, OF conn f] by blast
  let ?s = "reconnect c s1"
  have sh: "\<And>j. attempt_state c fn s (Suc j) = attempt_state c fn ?s j"
    by (simp only: attempt_state_shift f fst_conv snd_conv)
  have fails': "\<forall>j<Suc m. \<exists>w e. fst (fn (attempt_state c fn ?s j)) = Return (w, Some e)"
    using Suc.prems(1) sh by (metis Suc_less_eq)
  obtain tr w' e' where ih:
    "retry_loop0 p N fn [Suc i..<Suc i + Suc m] w (Some err1) ?s
       = (Return (w', Some e'), attempt_state c fn ?s (Suc m), tr)"
    "count_list tr FnCall = Suc m" "count_list tr CloseCall = Suc m"
    "count_list tr OpenCall = Suc m" "count_list tr (SleepCall 2000000000) = Suc m"
    using Suc.IH [OF fails'] by blast
  let ?head = "FnCall # map FnEmit xs @ [CloseCall, SleepCall 2000000000, OpenCall]"
  have l: "[i..<i + Suc (Suc m)] = i # [Suc i..<Suc i + Suc m]"
    by (simp add: upt_conv_Cons)
  have res: "retry_loop0 p N fn [i..<i + Suc (Suc m)] r err s
       = (Return (w', Some e'), attempt_state c fn s (Suc (Suc m)), ?head @ tr)"
    unfolding l step ih(1) by (simp add: emit_simp sh del: attempt_state.simps)
  have cnt: "count_list (?head @ tr) FnCall = Suc (Suc m)"
    "count_list (?head @ tr) CloseCall = Suc (Suc m)"
    "count_list (?head @ tr) OpenCall = Suc (Suc m)"
    "count_list (?head @ tr) (SleepCall 2000000000) = Suc (Suc m)"
    using ih(2-5) by (simp_all add: count_list_reports)
  show ?case using res cnt by blast
qed

lemma withRetry_kth_attempt:
  assumes "connection p = Some c" and "1 \<le> k" and "int k \<le> N"
    and "\<forall>j<k - 1. \<exists>w e. fst (fn (attempt_state c fn s j)) = Return (w, Some e)"
    and "fst (fn (attempt_state c fn s (k - 1))) = Return (v, None)"
  shows "\<exists>tr pre. withRetry zero p N fn s
              = (Return (v, None), fst (snd (fn (attempt_state c fn s (k - 1)))), tr)
            \<and> count_list tr FnCall = k \<and> count_list tr CloseCall = k - 1
            \<and> count_list tr OpenCall = k - 1
            \<and> tr = pre @ FnCall # map FnEmit (snd (snd (fn (attempt_state c fn s (k - 1)))))"
    and "\<exists>tr pre. withRetry0 zero p N fn s
              = (Return (v, None), fst (snd (fn (attempt_state c fn s (k - 1)))), tr)
            \<and> count_list tr FnCall = k \<and> count_list tr CloseCall = k - 1
            \<and> count_list tr OpenCall = k - 1
            \<and> tr = pre @ FnCall # map FnEmit (snd (snd (fn (attempt_state c fn s (k - 1)))))"
proof -
  note l = upt_split_at [OF assms(2) assms(3)]
  have b: "int (0 + (k - 1)) < N" using assms(2) assms(3) by linarith
  have k: "Suc (k - 1) = k" using assms(2) by simp
  show "\<exists>tr pre. withRetry zero p N fn s
              = (Return (v, None), fst (snd (fn (attempt_state c fn s (k - 1)))), tr)
            \<and> count_list tr FnCall = k \<and> count_list tr CloseCall = k - 1
            \<and> count_list tr OpenCall = k - 1
            \<and> tr = pre @ FnCall # map FnEmit (snd (snd (fn (attempt_state c fn s (k - 1)))))"
    using retry_loop_succeeds [where fn = fn and s = s and i = 0 and rest = "[k..<nat N]"
        and r = zero and err = None, OF assms(1) assms(4) assms(5) b]
    unfolding withRetry_def l k by blast
  show "\<exists>tr pre. withRetry0 zero p N fn s
              = (Return (v, None), fst (snd (fn (attempt_state c fn s (k - 1)))), tr)
            \<and> count_list tr FnCall = k \<and> count_list tr CloseCall = k - 1
            \<and> count_list tr OpenCall = k - 1
            \<and> tr = pre @ FnCall # map FnEmit (snd (snd (fn (attempt_state c fn s (k - 1)))))"
    using retry_loop0_succeeds [where fn = fn and s = s and i = 0 and rest = "[k..<nat N]"
        and r = zero and err = None and N = N, OF assms(1) assms(4) assms(5)]
    unfolding withRetry0_def l k by blast
qed

lemma Cut_fn_success_reports:
  "fst (Cut_fn p st) = Return ((), None) \<Longrightarrow> snd (snd (Cut_fn p st)) = [CUT_CMD, FEED_N_CMD 2]"
  "fst (Cut_fn0 p st) = Return ((), None) \<Longrightarrow> snd (snd (Cut_fn0 p st)) = [CUT_CMD, FEED_N_CMD 2]"
  by (auto simp: Cut_fn_def Cut_fn0_def write_raw_def split: prod.splits option.splits)

lemma Cut_kth_attempt:
  assumes "connection p = Some c" and "1 \<le> k" and "k \<le> 8"
  shows "(\<forall>j<k - 1. \<exists>e. fst (Cut_fn p (attempt_state c (Cut_fn p) s j)) = Return ((), Some e))
       \<Longrightarrow> fst (Cut_fn p (attempt_state c (Cut_fn p) s (k - 1))) = Return ((), None)
       \<Longrightarrow> \<exists>tr pre. Cut p s
              = (Return None, fst (snd (Cut_fn p (attempt_state c (Cut_fn p) s (k - 1)))), tr)
            \<and> count_list tr FnCall = k \<and> count_list tr CloseCall = k - 1
            \<and> count_list tr OpenCall = k - 1
            \<and> tr = pre @ [FnCall, FnEmit CUT_CMD, FnEmit (FEED_N_CMD 2)]"
    and "(\<forall>j<k - 1. \<exists>e. fst (Cut_fn0 p (attempt_state c (Cut_fn0 p) s j)) = Return ((), Some e))
       \<Longrightarrow> fst (Cut_fn0 p (attempt_state c (Cut_fn0 p) s (k - 1))) = Return ((), None)
       \<Longrightarrow> \<exists>tr pre. Cut0 p s
              = (Return None, fst (snd (Cut_fn0 p (attempt_state c (Cut_fn0 p) s (k - 1)))), tr)
            \<and> count_list tr FnCall = k \<and> count_list tr CloseCall = k - 1
            \<and> count_list tr OpenCall = k - 1
            \<and> tr = pre @ [FnCall, FnEmit CUT_CMD, FnEmit (FEED_N_CMD 2)]"
proof -
  have k8: "int k \<le> 8" using assms(3) by simp
  {
    assume f: "\<forall>j<k - 1. \<exists>e. fst (Cut_fn p (attempt_state c (Cut_fn p) s j)) = Return ((), Some e)"
      and ok: "fst (Cut_fn p (attempt_state c (Cut_fn p) s (k - 1))) = Return ((), None)"
    from f have f': "\<forall>j<k - 1. \<exists>w e. fst (Cut_fn p (attempt_state c (Cut_fn p) s j)) = Return (w, Some e)"
      by blast
    obtain tr pre where r: "withRetry () p 8 (Cut_fn p) s
              = (Return ((), None), fst (snd (Cut_fn p (attempt_state c (Cut_fn p) s (k - 1)))), tr)"
      "count_list tr FnCall = k" "count_list tr CloseCall = k - 1" "count_list tr OpenCall = k - 1"
      "tr = pre @ FnCall # map FnEmit (snd (snd (Cut_fn p (attempt_state c (Cut_fn p) s (k - 1)))))"
      using withRetry_kth_attempt(1) [where fn = "Cut_fn p" and s = s and zero = "()",
          OF assms(1) assms(2) k8 f' ok] by blast
    have "tr = pre @ [FnCall, FnEmit CUT_CMD, FnEmit (FEED_N_CMD 2)]"
      using r(5) Cut_fn_success_reports(1) [OF ok] by simp
    then show "\<exists>tr pre. Cut p s
              = (Return None, fst (snd (Cut_fn p (attempt_state c (Cut_fn p) s (k - 1)))), tr)
            \<and> count_list tr FnCall = k \<and> count_list tr CloseCall = k - 1
            \<and> count_list tr OpenCall = k - 1
            \<and> tr = pre @ [FnCall, FnEmit CUT_CMD, FnEmit (FEED_N_CMD 2)]"
      using r(1-4) by (simp add: Cut_def drop_result_def)
  }
  {
    assume f: "\<forall>j<k - 1. \<exists>e. fst (Cut_fn0 p (attempt_state c (Cut_fn0 p) s j)) = Return ((), Some e)"
      and ok: "fst (Cut_fn0 p (attempt_state c (Cut_fn0 p) s (k - 1))) = Return ((), None)"
    from f have f': "\<forall>j<k - 1. \<exists>w e. fst (Cut_fn0 p (attempt_state c (Cut_fn0 p) s j)) = Return (w, Some e)"
      by blast
    obtain tr pre where r: "withRetry0 () p 8 (Cut_fn0 p) s
              = (Return ((), None), fst (snd (Cut_fn0 p (attempt_state c (Cut_fn0 p) s (k - 1)))), tr)"
      "count_list tr FnCall = k" "count_list tr CloseCall = k - 1" "count_list tr OpenCall = k - 1"
      "tr = pre @ FnCall # map FnEmit (snd (snd (Cut_fn0 p (attempt_state c (Cut_fn0 p) s (k - 1)))))"
      using withRetry_kth_attempt(2) [where fn = "Cut_fn0 p" and s = s and zero = "()",
          OF assms(1) assms(2) k8 f' ok] by blast
    have "tr = pre @ [FnCall, FnEmit CUT_CMD, FnEmit (FEED_N_CMD 2)]"
      using r(5) Cut_fn_success_reports(2) [OF ok] by simp
    then show "\<exists>tr pre. Cut0 p s
              = (Return None, fst (snd (Cut_fn0 p (attempt_state c (Cut_fn0 p) s (k - 1)))), tr)
            \<and> count_list tr FnCall = k \<and> count_list tr CloseCall = k - 1
            \<and> count_list tr OpenCall = k - 1
            \<and> tr = pre @ [FnCall, FnEmit CUT_CMD, FnEmit (FEED_N_CMD 2)]"
      using r(1-4) by (simp add: Cut0_def drop_result_def)
  }
qed

lemma Cut_all_attempts_fail:
  assumes "connection p = Some c"
  shows "(\<forall>j<8. \<exists>e. fst (Cut_fn p (attempt_state c (Cut_fn p) s j)) = Return ((), Some e))
       \<Longrightarrow> \<exists>tr e. Cut p s
              = (Return (Some e), snd (Close c (fst (snd (Cut_fn p (attempt_state c (Cut_fn p) s 7))))), tr)
            \<and> fst (Cut_fn p (attempt_state c (Cut_fn p) s 7)) = Return ((), Some e)
            \<and> count_list tr FnCall = 8 \<and> count_list tr CloseCall = 8
            \<and> count_list tr OpenCall = 7"
    and "(\<forall>j<8. \<exists>e. fst (Cut_fn0 p (attempt_state c (Cut_fn0 p) s j)) = Return ((), Some e))
       \<Longrightarrow> \<exists>tr e. Cut0 p s = (Return (Some e), attempt_state c (Cut_fn0 p) s 8, tr)
            \<and> count_list tr FnCall = 8 \<and> count_list tr CloseCall = 8
            \<and> count_list tr OpenCall = 8"
proof -
  {
    assume f: "\<forall>j<8. \<exists>e. fst (Cut_fn p (attempt_state c (Cut_fn p) s j)) = Return ((), Some e)"
    then have f': "\<forall>j<nat 8. \<exists>w e. fst (Cut_fn p (attempt_state c (Cut_fn p) s j)) = Return (w, Some e)"
      by auto
    have n: "nat 8 - 1 = 7" "nat 8 = 8" by simp_all
    obtain tr pre w e where r: "withRetry () p 8 (Cut_fn p) s
           = (Return (w, Some e), snd (Close c (fst (snd (Cut_fn p (attempt_state c (Cut_fn p) s 7))))), tr)"
         "fst (Cut_fn p (attempt_state c (Cut_fn p) s 7)) = Return (w, Some e)"
         "count_list tr FnCall = 8" "count_list tr CloseCall = 8" "count_list tr OpenCall = 7"
      using withRetry_all_attempts_fail [where fn = "Cut_fn p" and s = s and zero = "()" and N = 8,
          OF assms _ f'] unfolding n by auto
    then show "\<exists>tr e. Cut p s
              = (Return (Some e), snd (Close c (fst (snd (Cut_fn p (attempt_state c (Cut_fn p) s 7))))), tr)
            \<and> fst (Cut_fn p (attempt_state c (Cut_fn p) s 7)) = Return ((), Some e)
            \<and> count_list tr FnCall = 8 \<and> count_list tr CloseCall = 8
            \<and> count_list tr OpenCall = 7"
      by (simp add: Cut_def drop_result_def)
  }
  {
    assume f: "\<forall>j<8. \<exists>e. fst (Cut_fn0 p (attempt_state c (Cut_fn0 p) s j)) = Return ((), Some e)"
    then have f': "\<forall>j<Suc 7. \<exists>w e. fst (Cut_fn0 p (attempt_state c (Cut_fn0 p) s j)) = Return (w, Some e)"
      by auto
    have l: "[0..<nat 8] = [0..<0 + Suc 7]" by simp
    obtain tr w e where r: "retry_loop0 p 8 (Cut_fn0 p) [0..<0 + Suc 7] () None s
           = (Return (w, Some e), attempt_state c (Cut_fn0 p) s (Suc 7), tr)"
         "count_list tr FnCall = Suc 7" "count_list tr CloseCall = Suc 7" "count_list tr OpenCall = Suc 7"
      using retry_loop0_all_fail [where fn = "Cut_fn0 p" and s = s and i = 0 and m = 7
          and r = "()" and err = None and N = 8, OF assms f'] by blast
    have e8: "Suc 7 = 8" by simp
    show "\<exists>tr e. Cut0 p s = (Return (Some e), attempt_state c (Cut_fn0 p) s 8, tr)
            \<and> count_list tr FnCall = 8 \<and> count_list tr CloseCall = 8
            \<and> count_list tr OpenCall = 8"
      using r unfolding Cut0_def withRetry0_def l e8 by (simp add: drop_result_def del: attempt_state.simps upt_Suc)
  }
qed

text \<open>
  C8: \<open>Cut\<close> is one retry unit of exactly 8 attempts, each attempt writing the cut bytes
  \<open>{0x1D,'V',0x00}\<close> and then the feed bytes \<open>{0x1B,0x64,2}\<close> in two \<open>WriteRaw\<close> calls.
  A \<open>Cut\<close> that returns no error made at most 8 attempts, its last attempt wrote the cut
  bytes and then the feed bytes, and every earlier attempt wrote the cut bytes first. When
  the second write of an attempt fails, the transport is closed and reopened and the next
  attempt starts again with the cut bytes; when both writes succeed at once, these two
  writes are all that \<open>Cut\<close> does. When the first \<open>k - 1\<close> attempts fail and attempt
  \<open>k \<le> 8\<close> writes both, \<open>Cut\<close> succeeds after \<open>k\<close> attempts, ending with the two writes
  (so the eighth attempt is still made); when 8 attempts fail, \<open>Cut\<close> returns an error
  after exactly 8 attempts (there is no ninth). Both revisions; the revision of
  \<open>src/printer.go\<close> reopens after the eighth failure as well.
\<close>

theorem C8_Cut_writes_cut_then_feed:
  "(Cut p s = (Return None, s', tr) \<longrightarrow> cut_attempts (attempts tr) \<and> length (attempts tr) \<le> 8)
   \<and> (Cut0 p s = (Return None, s', tr) \<longrightarrow> cut_attempts (attempts tr) \<and> length (attempts tr) \<le> 8)
   \<and> (connection p = Some c \<and> WriteRaw c CUT_CMD s = (None, s1)
        \<and> WriteRaw c (FEED_N_CMD 2) s1 = (Some e, s2) \<longrightarrow>
        (\<exists>rest. snd (snd (Cut p s)) =
           [FnCall, FnEmit CUT_CMD, FnEmit (FEED_N_CMD 2), CloseCall, SleepCall (retryDelay p),
            OpenCall, FnCall, FnEmit CUT_CMD] @ rest)
        \<and> (\<exists>rest. snd (snd (Cut0 p s)) =
           [FnCall, FnEmit CUT_CMD, FnEmit (FEED_N_CMD 2), CloseCall, SleepCall 2000000000,
            OpenCall, FnCall, FnEmit CUT_CMD] @ rest))
   \<and> (connection p = Some c \<and> WriteRaw c CUT_CMD s = (None, s1)
        \<and> WriteRaw c (FEED_N_CMD 2) s1 = (None, s2) \<longrightarrow>
        Cut p s = (Return None, s2, [FnCall, FnEmit CUT_CMD, FnEmit (FEED_N_CMD 2)])
        \<and> Cut0 p s = (Return None, s2, [FnCall, FnEmit CUT_CMD, FnEmit (FEED_N_CMD 2)]))
   \<and> (connection p = Some c \<and> 1 \<le> k \<and> k \<le> 8
        \<and> (\<forall>j<k - 1. \<exists>e. fst (Cut_fn p (attempt_state c (Cut_fn p) s j)) = Return ((), Some e))
        \<and> fst (Cut_fn p (attempt_state c (Cut_fn p) s (k - 1))) = Return ((), None) \<longrightarrow>
        (\<exists>tr pre. Cut p s
              = (Return None, fst (snd (Cut_fn p (attempt_state c (Cut_fn p) s (k - 1)))), tr)
            \<and> count_list tr FnCall = k \<and> count_list tr CloseCall = k - 1
            \<and> count_list tr OpenCall = k - 1
            \<and> tr = pre @ [FnCall, FnEmit CUT_CMD, FnEmit (FEED_N_CMD 2)]))
   \<and> (connection p = Some c \<and> 1 \<le> k \<and> k \<le> 8
        \<and> (\<forall>j<k - 1. \<exists>e. fst (Cut_fn0 p (attempt_state c (Cut_fn0 p) s j)) = Return ((), Some e))
        \<and> fst (Cut_fn0 p (attempt_state c (Cut_fn0 p) s (k - 1))) = Return ((), None) \<longrightarrow>
        (\<exists>tr pre. Cut0 p s
              = (Return None, fst (snd (Cut_fn0 p (attempt_state c (Cut_fn0 p) s (k - 1)))), tr)
            \<and> count_list tr FnCall = k \<and> count_list tr CloseCall = k - 1
            \<and> count_list tr OpenCall = k - 1
            \<and> tr = pre @ [FnCall, FnEmit CUT_CMD, FnEmit (FEED_N_CMD 2)]))
   \<and> (connection p = Some c
        \<and> (\<forall>j<8. \<exists>e. fst (Cut_fn p (attempt_state c (Cut_fn p) s j)) = Return ((), Some e)) \<longrightarrow>
        (\<exists>tr e. Cut p s
              = (Return (Some e), snd (Close c (fst (snd (Cut_fn p (attempt_state c (Cut_fn p) s 7))))), tr)
            \<and> fst (Cut_fn p (attempt_state c (Cut_fn p) s 7)) = Return ((), Some e)
            \<and> count_list tr FnCall = 8 \<and> count_list tr CloseCall = 8
            \<and> count_list tr OpenCall = 7))
   \<and> (connection p = Some c
        \<and> (\<forall>j<8. \<exists>e. fst (Cut_fn0 p (attempt_state c (Cut_fn0 p) s j)) = Return ((), Some e)) \<longrightarrow>
        (\<exists>tr e. Cut0 p s = (Return (Some e), attempt_state c (Cut_fn0 p) s 8, tr)
            \<and> count_list tr FnCall = 8 \<and> count_list tr CloseCall = 8
            \<and> count_list tr OpenCall = 8))"
proof (intro conjI impI)
  assume a: "connection p = Some c \<and> 1 \<le> k \<and> k \<le> 8
        \<and> (\<forall>j<k - 1. \<exists>e. fst (Cut_fn p (attempt_state c (Cut_fn p) s j)) = Return ((), Some e))
        \<and> fst (Cut_fn p (attempt_state c (Cut_fn p) s (k - 1))) = Return ((), None)"
  then have conn: "connection p = Some c" and k1: "1 \<le> k" and k8: "k \<le> 8"
    and f: "\<forall>j<k - 1. \<exists>e. fst (Cut_fn p (attempt_state c (Cut_fn p) s j)) = Return ((), Some e)"
    and ok: "fst (Cut_fn p (attempt_state c (Cut_fn p) s (k - 1))) = Return ((), None)"
    by simp_all
  show "\<exists>tr pre. Cut p s
              = (Return None, fst (snd (Cut_fn p (attempt_state c (Cut_fn p) s (k - 1)))), tr)
            \<and> count_list tr FnCall = k \<and> count_list tr CloseCall = k - 1
            \<and> count_list tr OpenCall = k - 1
            \<and> tr = pre @ [FnCall, FnEmit CUT_CMD, FnEmit (FEED_N_CMD 2)]"
    by (rule Cut_kth_attempt(1) [OF conn k1 k8 f ok])
next
  assume a: "connection p = Some c \<and> 1 \<le> k \<and> k \<le> 8
        \<and> (\<forall>j<k - 1. \<exists>e. fst (Cut_fn0 p (attempt_state c (Cut_fn0 p) s j)) = Return ((), Some e))
        \<and> fst (Cut_fn0 p (attempt_state c (Cut_fn0 p) s (k - 1))) = Return ((), None)"
  then have conn: "connection p = Some c" and k1: "1 \<le> k" and k8: "k \<le> 8"
    and f: "\<forall>j<k - 1. \<exists>e. fst (Cut_fn0 p (attempt_state c (Cut_fn0 p) s j)) = Return ((), Some e)"
    and ok: "fst (Cut_fn0 p (attempt_state c (Cut_fn0 p) s (k - 1))) = Return ((), None)"
    by simp_all
  show "\<exists>tr pre. Cut0 p s
              = (Return None, fst (snd (Cut_fn0 p (attempt_state c (Cut_fn0 p) s (k - 1)))), tr)
            \<and> count_list tr FnCall = k \<and> count_list tr CloseCall = k - 1
            \<and> count_list tr OpenCall = k - 1
            \<and> tr = pre @ [FnCall, FnEmit CUT_CMD, FnEmit (FEED_N_CMD 2)]"
    by (rule Cut_kth_attempt(2) [OF conn k1 k8 f ok])
next
  assume a: "connection p = Some c
        \<and> (\<forall>j<8. \<exists>e. fst (Cut_fn p (attempt_state c (Cut_fn p) s j)) = Return ((), Some e))"
  then have conn: "connection p = Some c"
    and f: "\<forall>j<8. \<exists>e. fst (Cut_fn p (attempt_state c (Cut_fn p) s j)) = Return ((), Some e)"
    by simp_all
  show "\<exists>tr e. Cut p s
              = (Return (Some e), snd (Close c (fst (snd (Cut_fn p (attempt_state c (Cut_fn p) s 7))))), tr)
            \<and> fst (Cut_fn p (attempt_state c (Cut_fn p) s 7)) = Return ((), Some e)
            \<and> count_list tr FnCall = 8 \<and> count_list tr CloseCall = 8
            \<and> count_list tr OpenCall = 7"
    by (rule Cut_all_attempts_fail(1) [OF conn f])
next
  assume a: "connection p = Some c
        \<and> (\<forall>j<8. \<exists>e. fst (Cut_fn0 p (attempt_state c (Cut_fn0 p) s j)) = Return ((), Some e))"
  then have conn: "connection p = Some c"
    and f: "\<forall>j<8. \<exists>e. fst (Cut_fn0 p (attempt_state c (Cut_fn0 p) s j)) = Return ((), Some e)"
    by simp_all
  show "\<exists>tr e. Cut0 p s = (Return (Some e), attempt_state c (Cut_fn0 p) s 8, tr)
            \<and> count_list tr FnCall = 8 \<and> count_list tr CloseCall = 8
            \<and> count_list tr OpenCall = 8"
    by (rule Cut_all_attempts_fail(2) [OF conn f])
next
  assume "connection p = Some c \<and> WriteRaw c CUT_CMD s = (None, s1)
        \<and> WriteRaw c (FEED_N_CMD 2) s1 = (None, s2)"
  then show "Cut p s = (Return None, s2, [FnCall, FnEmit CUT_CMD, FnEmit (FEED_N_CMD 2)])"
    "Cut0 p s = (Return None, s2, [FnCall, FnEmit CUT_CMD, FnEmit (FEED_N_CMD 2)])"
    by (simp_all add: Cut_def Cut0_def withRetry_def withRetry0_def upt_conv_Cons Cut_fn_def
        Cut_fn0_def write_raw_def drop_result_def)
next
  assume "Cut p s = (Return None, s', tr)"
  then show "cut_attempts (attempts tr)" "length (attempts tr) \<le> 8"
    using Cut_success [of p s s' tr] by simp_all
next
  assume "Cut0 p s = (Return None, s', tr)"
  then show "cut_attempts (attempts tr)" "length (attempts tr) \<le> 8"
    using Cut0_success [of p s s' tr] by simp_all
next
  assume a: "connection p = Some c \<and> WriteRaw c CUT_CMD s = (None, s1)
        \<and> WriteRaw c (FEED_N_CMD 2) s1 = (Some e, s2)"
  then have conn: "connection p = Some c" and w1: "WriteRaw c CUT_CMD s = (None, s1)"
    and w2: "WriteRaw c (FEED_N_CMD 2) s1 = (Some e, s2)" by simp_all
  show "\<exists>rest. snd (snd (Cut p s)) =
           [FnCall, FnEmit CUT_CMD, FnEmit (FEED_N_CMD 2), CloseCall, SleepCall (retryDelay p),
            OpenCall, FnCall, FnEmit CUT_CMD] @ rest"
    by (rule Cut_resends_both(1) [OF conn w1 w2])
  show "\<exists>rest. snd (snd (Cut0 p s)) =
           [FnCall, FnEmit CUT_CMD, FnEmit (FEED_N_CMD 2), CloseCall, SleepCall 2000000000,
            OpenCall, FnCall, FnEmit CUT_CMD] @ rest"
    by (rule Cut_resends_both(2) [OF conn w1 w2])
qed

lemma flaky_simps:
  "connection flaky_printer = Some flaky_connection"
  "retryDelay flaky_printer = 0"
  "Open flaky_connection n = (None, n)"
  "Close flaky_connection n = (None, n)"
  "WriteRaw flaky_connection data n = (if n = 1 then Some (External ''write failed'') else None, Suc n)"
  by (simp_all add: flaky_printer_def flaky_connection_def)

lemma Cut_flaky:
  "Cut flaky_printer 0 = (Return None, 4,
     [FnCall, FnEmit CUT_CMD, FnEmit (FEED_N_CMD 2), CloseCall, SleepCall 0, OpenCall,
      FnCall, FnEmit CUT_CMD, FnEmit (FEED_N_CMD 2)])"
  "Cut0 flaky_printer 0 = (Return None, 4,
     [FnCall, FnEmit CUT_CMD, FnEmit (FEED_N_CMD 2), CloseCall, SleepCall 2000000000, OpenCall,
      FnCall, FnEmit CUT_CMD, FnEmit (FEED_N_CMD 2)])"
  by (simp_all add: Cut_def Cut0_def withRetry_def withRetry0_def upt_conv_Cons Cut_fn_def
      Cut_fn0_def write_raw_def close_connection_def flaky_simps emit_simp drop_result_def)

lemma failing_simps:
  "connection (failing_printer k) = Some (failing_connection k)"
  "retryDelay (failing_printer k) = 0"
  "Open (failing_connection k) n = (None, n)"
  "Close (failing_connection k) n = (None, n)"
  "WriteRaw (failing_connection k) data n = (if n < k then Some (External ''write failed'') else None, Suc n)"
  by (simp_all add: failing_printer_def failing_connection_def)

lemma failing_Cut_fn:
  "n < k \<Longrightarrow> Cut_fn (failing_printer k) n
     = (Return ((), Some (Wrap ''cut command failed'' (External ''write failed''))), Suc n, [CUT_CMD])"
  "n < k \<Longrightarrow> Cut_fn0 (failing_printer k) n
     = (Return ((), Some (External ''write failed'')), Suc n, [CUT_CMD])"
  "k \<le> n \<Longrightarrow> Cut_fn (failing_printer k) n = (Return ((), None), Suc (Suc n), [CUT_CMD, FEED_N_CMD 2])"
  "k \<le> n \<Longrightarrow> Cut_fn0 (failing_printer k) n = (Return ((), None), Suc (Suc n), [CUT_CMD, FEED_N_CMD 2])"
  by (simp_all add: Cut_fn_def Cut_fn0_def write_raw_def failing_simps)

lemma failing_attempt_state:
  "j \<le> k \<Longrightarrow> attempt_state (failing_connection k) (Cut_fn (failing_printer k)) 0 j = j"
  "j \<le> k \<Longrightarrow> attempt_state (failing_connection k) (Cut_fn0 (failing_printer k)) 0 j = j"
  by (induction j) (simp_all add: failing_Cut_fn reconnect_def failing_simps)

lemma failing_hyps:
  "\<forall>j<8 - 1. \<exists>e. fst (Cut_fn (failing_printer 7)
       (attempt_state (failing_connection 7) (Cut_fn (failing_printer 7)) 0 j)) = Return ((), Some e)"
  "fst (Cut_fn (failing_printer 7)
       (attempt_state (failing_connection 7) (Cut_fn (failing_printer 7)) 0 (8 - 1))) = Return ((), None)"
  "fst (snd (Cut_fn (failing_printer 7)
       (attempt_state (failing_connection 7) (Cut_fn (failing_printer 7)) 0 (8 - 1)))) = 9"
  "\<forall>j<8. \<exists>e. fst (Cut_fn (failing_printer 8)
       (attempt_state (failing_connection 8) (Cut_fn (failing_printer 8)) 0 j)) = Return ((), Some e)"
  "fst (Cut_fn (failing_printer 8)
       (attempt_state (failing_connection 8) (Cut_fn (failing_printer 8)) 0 7))
     = Return ((), Some (Wrap ''cut command failed'' (External ''write failed'')))"
  "snd (Close (failing_connection 8) (fst (snd (Cut_fn (failing_printer 8)
       (attempt_state (failing_connection 8) (Cut_fn (failing_printer 8)) 0 7))))) = 8"
  by (simp_all add: failing_attempt_state failing_Cut_fn failing_simps del: attempt_state.simps)

theorem C8_Cut_writes_cut_then_feed_witness:
  "Cut flaky_printer 0 = (Return None, 4,
     [FnCall, FnEmit CUT_CMD, FnEmit (FEED_N_CMD 2), CloseCall, SleepCall 0, OpenCall,
      FnCall, FnEmit CUT_CMD, FnEmit (FEED_N_CMD 2)])
   \<and> Cut0 flaky_printer 0 = (Return None, 4,
     [FnCall, FnEmit CUT_CMD, FnEmit (FEED_N_CMD 2), CloseCall, SleepCall 2000000000, OpenCall,
      FnCall, FnEmit CUT_CMD, FnEmit (FEED_N_CMD 2)])
   \<and> connection flaky_printer = Some flaky_connection
   \<and> WriteRaw flaky_connection CUT_CMD 0 = (None, 1)
   \<and> WriteRaw flaky_connection (FEED_N_CMD 2) 1 = (Some (External ''write failed''), 2)
   \<and> attempts [FnCall, FnEmit CUT_CMD, FnEmit (FEED_N_CMD 2), CloseCall, SleepCall 0, OpenCall,
        FnCall, FnEmit CUT_CMD, FnEmit (FEED_N_CMD 2)]
       = [[CUT_CMD, FEED_N_CMD 2], [CUT_CMD, FEED_N_CMD 2]]
   \<and> last [[CUT_CMD, FEED_N_CMD 2], [CUT_CMD, FEED_N_CMD 2]] = [[0x1d, 0x56, 0x00], [0x1b, 0x64, 2]]
   \<and> (\<exists>rest. snd (snd (Cut flaky_printer 0)) =
           [FnCall, FnEmit CUT_CMD, FnEmit (FEED_N_CMD 2), CloseCall, SleepCall 0,
            OpenCall, FnCall, FnEmit CUT_CMD] @ rest)
   \<and> (\<exists>rest. snd (snd (Cut0 flaky_printer 0)) =
           [FnCall, FnEmit CUT_CMD, FnEmit (FEED_N_CMD 2), CloseCall, SleepCall 2000000000,
            OpenCall, FnCall, FnEmit CUT_CMD] @ rest)
   \<and> connection mock_printer = Some mock_connection
   \<and> Cut mock_printer (new_mock, 0)
       = (Return None, (new_mock\<lparr>WriteRawCalls := [CUT_CMD, FEED_N_CMD 2]\<rparr>, 0),
          [FnCall, FnEmit CUT_CMD, FnEmit (FEED_N_CMD 2)])
   \<and> Cut0 mock_printer (new_mock, 0)
       = (Return None, (new_mock\<lparr>WriteRawCalls := [CUT_CMD, FEED_N_CMD 2]\<rparr>, 0),
          [FnCall, FnEmit CUT_CMD, FnEmit (FEED_N_CMD 2)])
   \<and> connection (failing_printer 7) = Some (failing_connection 7) \<and> (1 :: nat) \<le> 8 \<and> (8 :: nat) \<le> 8
   \<and> fst (Cut_fn (failing_printer 7)
         (attempt_state (failing_connection 7) (Cut_fn (failing_printer 7)) 0 6))
       = Return ((), Some (Wrap ''cut command failed'' (External ''write failed'')))
   \<and> fst (Cut_fn (failing_printer 7)
         (attempt_state (failing_connection 7) (Cut_fn (failing_printer 7)) 0 (8 - 1)))
       = Return ((), None)
   \<and> (\<exists>tr pre. Cut (failing_printer 7) 0 = (Return None, 9, tr)
          \<and> count_list tr FnCall = 8 \<and> count_list tr CloseCall = 7 \<and> count_list tr OpenCall = 7
          \<and> tr = pre @ [FnCall, FnEmit CUT_CMD, FnEmit (FEED_N_CMD 2)])
   \<and> connection (failing_printer 8) = Some (failing_connection 8)
   \<and> (\<exists>tr. Cut (failing_printer 8) 0
          = (Return (Some (Wrap ''cut command failed'' (External ''write failed''))), 8, tr)
          \<and> count_list tr FnCall = 8 \<and> count_list tr CloseCall = 8 \<and> count_list tr OpenCall = 7)"
proof -
  have m1: "WriteRaw mock_connection CUT_CMD (new_mock, 0)
      = (None, new_mock\<lparr>WriteRawCalls := [CUT_CMD]\<rparr>, 0)"
    by (simp add: mock_simps new_mock_def)
  have m2: "WriteRaw mock_connection (FEED_N_CMD 2) (new_mock\<lparr>WriteRawCalls := [CUT_CMD]\<rparr>, 0)
      = (None, new_mock\<lparr>WriteRawCalls := [CUT_CMD, FEED_N_CMD 2]\<rparr>, 0)"
    by (simp add: mock_simps new_mock_def)
  note first = C8_Cut_writes_cut_then_feed [where p = mock_printer and c = mock_connection
      and s = "(new_mock, 0)" and ?s1.0 = "(new_mock\<lparr>WriteRawCalls := [CUT_CMD]\<rparr>, 0)"
      and ?s2.0 = "(new_mock\<lparr>WriteRawCalls := [CUT_CMD, FEED_N_CMD 2]\<rparr>, 0)",
      THEN conjunct2, THEN conjunct2, THEN conjunct2, THEN conjunct1, THEN mp,
      OF conjI [OF mock_simps(1) conjI [OF m1 m2]]]
  have w1: "WriteRaw flaky_connection CUT_CMD 0 = (None, 1)" by (simp add: flaky_simps)
  have w2: "WriteRaw flaky_connection (FEED_N_CMD 2) 1 = (Some (External ''write failed''), 2)"
    by (simp add: flaky_simps)
  have a: "attempts [FnCall, FnEmit CUT_CMD, FnEmit (FEED_N_CMD 2), CloseCall, SleepCall 0,
      OpenCall, FnCall, FnEmit CUT_CMD, FnEmit (FEED_N_CMD 2)]
      = [[CUT_CMD, FEED_N_CMD 2], [CUT_CMD, FEED_N_CMD 2]]" by simp
  note new = C8_Cut_writes_cut_then_feed [of flaky_printer 0 4
      "[FnCall, FnEmit CUT_CMD, FnEmit (FEED_N_CMD 2), CloseCall, SleepCall 0, OpenCall,
        FnCall, FnEmit CUT_CMD, FnEmit (FEED_N_CMD 2)]"
      flaky_connection 1 "External ''write failed''" 2]
  have "Cut flaky_printer 0 = (Return None, 4,
       [FnCall, FnEmit CUT_CMD, FnEmit (FEED_N_CMD 2), CloseCall, SleepCall 0, OpenCall,
        FnCall, FnEmit CUT_CMD, FnEmit (FEED_N_CMD 2)])
     \<and> Cut0 flaky_printer 0 = (Return None, 4,
       [FnCall, FnEmit CUT_CMD, FnEmit (FEED_N_CMD 2), CloseCall, SleepCall 2000000000, OpenCall,
        FnCall, FnEmit CUT_CMD, FnEmit (FEED_N_CMD 2)])
     \<and> connection flaky_printer = Some flaky_connection
     \<and> WriteRaw flaky_connection CUT_CMD 0 = (None, 1)
     \<and> WriteRaw flaky_connection (FEED_N_CMD 2) 1 = (Some (External ''write failed''), 2)
     \<and> attempts [FnCall, FnEmit CUT_CMD, FnEmit (FEED_N_CMD 2), CloseCall, SleepCall 0, OpenCall,
          FnCall, FnEmit CUT_CMD, FnEmit (FEED_N_CMD 2)]
         = [[CUT_CMD, FEED_N_CMD 2], [CUT_CMD, FEED_N_CMD 2]]
     \<and> last [[CUT_CMD, FEED_N_CMD 2], [CUT_CMD, FEED_N_CMD 2]] = [[0x1d, 0x56, 0x00], [0x1b, 0x64, 2]]
     \<and> (\<exists>rest. snd (snd (Cut flaky_printer 0)) =
             [FnCall, FnEmit CUT_CMD, FnEmit (FEED_N_CMD 2), CloseCall, SleepCall 0,
              OpenCall, FnCall, FnEmit CUT_CMD] @ rest)
     \<and> (\<exists>rest. snd (snd (Cut0 flaky_printer 0)) =
             [FnCall, FnEmit CUT_CMD, FnEmit (FEED_N_CMD 2), CloseCall, SleepCall 2000000000,
              OpenCall, FnCall, FnEmit CUT_CMD] @ rest)"
    using new Cut_flaky w1 w2 a flaky_simps(1) flaky_simps(2) by (simp add: cmd_bytes)
  note old = this first mock_simps(1)
  have kk: "(1 :: nat) \<le> 8" "(8 :: nat) \<le> 8" by simp_all
  have fa: "\<exists>tr pre. Cut (failing_printer 7) 0 = (Return None, 9, tr)
          \<and> count_list tr FnCall = 8 \<and> count_list tr CloseCall = 7 \<and> count_list tr OpenCall = 7
          \<and> tr = pre @ [FnCall, FnEmit CUT_CMD, FnEmit (FEED_N_CMD 2)]"
    using C8_Cut_writes_cut_then_feed [where p = "failing_printer 7" and c = "failing_connection 7" and k = 8 and s = 0,
        THEN conjunct2, THEN conjunct2, THEN conjunct2, THEN conjunct2, THEN conjunct1, THEN mp,
        OF conjI [OF failing_simps(1) conjI [OF kk(1) conjI [OF kk(2) conjI [OF failing_hyps(1) failing_hyps(2)]]]]]
    unfolding failing_hyps(3) by simp
  have fb: "\<exists>tr. Cut (failing_printer 8) 0
          = (Return (Some (Wrap ''cut command failed'' (External ''write failed''))), 8, tr)
          \<and> count_list tr FnCall = 8 \<and> count_list tr CloseCall = 8 \<and> count_list tr OpenCall = 7"
    using C8_Cut_writes_cut_then_feed [where p = "failing_printer 8" and c = "failing_connection 8" and s = 0,
        THEN conjunct2, THEN conjunct2, THEN conjunct2, THEN conjunct2, THEN conjunct2,
        THEN conjunct2, THEN conjunct1, THEN mp,
        OF conjI [OF failing_simps(1) failing_hyps(4)]]
    unfolding failing_hyps(5) failing_hyps(6) by auto
  have fc: "fst (Cut_fn (failing_printer 7)
         (attempt_state (failing_connection 7) (Cut_fn (failing_printer 7)) 0 6))
       = Return ((), Some (Wrap ''cut command failed'' (External ''write failed'')))"
    by (simp add: failing_attempt_state failing_Cut_fn del: attempt_state.simps)
  show ?thesis using old fa fb fc kk failing_simps(1) failing_hyps(2) by blast
qed

section \<open>Raster command\<close>

lemma low_byte: "(ucast ((w :: go_int) AND 0xFF) :: byte) = word_of_int (sint w mod 256)"
proof -
  have "(256 :: int) = 2 ^ 8" by simp
  then have m: "sint w mod 256 = take_bit 8 (sint w)" by (simp only: take_bit_eq_mod)
  have ff: "(0xFF :: go_int) = mask 8" by (simp add: mask_eq_decr_exp)
  show ?thesis unfolding m ff
    by (rule bit_word_eqI) (auto simp: bit_simps)
qed

lemma high_byte:
  "(ucast (signed_drop_bit 8 (w :: go_int) AND 0xFF) :: byte) = word_of_int (sint w div 256 mod 256)"
proof -
  have "(256 :: int) = 2 ^ 8" by simp
  then have m: "sint w div 256 mod 256 = take_bit 8 (drop_bit 8 (sint w))"
    by (simp only: take_bit_eq_mod drop_bit_eq_div)
  have ff: "(0xFF :: go_int) = mask 8" by (simp add: mask_eq_decr_exp)
  show ?thesis unfolding m ff
    by (rule bit_word_eqI) (auto simp: bit_simps)
qed


lemma raster_buffer_bytes:
  "raster_buffer raster_data width_bytes height =
     [0x1d, 0x76, 0x30, 0x00]
     @ [word_of_int (sint width_bytes mod 256), word_of_int (sint width_bytes div 256 mod 256),
        word_of_int (sint height mod 256), word_of_int (sint height div 256 mod 256)]
     @ raster_data @ [0x1b, 0x64, 12]"
  unfolding raster_buffer_def Let_def high_byte
  by (simp add: low_byte PRINT_RASTER_CMD_def FEED_N_CMD_def)

lemma raster_command_too_short:
  "int (length data) < sint (go_quo width 8 * height) \<Longrightarrow>
   raster_command center_impl rw data width height
     = Return (Inl (PrintDataTooShort (int (length data)) (sint (go_quo width 8 * height))))"
  by (simp add: raster_command_def Let_def)

lemma raster_command_uncentred:
  assumes "\<not> sint width < sint rw" and "0 \<le> sint (go_quo width 8 * height)"
    and "sint (go_quo width 8 * height) \<le> int (length data)"
  shows "raster_command center_impl rw data width height
     = Return (Inr (raster_buffer (take (nat (sint (go_quo width 8 * height))) data)
                      (go_quo width 8) height))"
  using assms by (simp add: raster_command_def Let_def slice_def)

lemma emit_reports:
  "FnEmit x \<in> set (snd (snd (emit es r))) \<longleftrightarrow> FnEmit x \<in> set es \<or> FnEmit x \<in> set (snd (snd r))"
  by (cases r) (auto simp: emit_def)

lemma retry_loop_reports:
  assumes fn: "\<And>s. set (snd (snd (fn s))) \<subseteq> X"
  shows "FnEmit x \<in> set (snd (snd (retry_loop p N fn is r err s))) \<Longrightarrow> x \<in> X"
proof (induction "is" arbitrary: r err s)
  case Nil
  then show ?case by simp
next
  case (Cons i "is")
  obtain o1 s1 xs where f: "fn s = (o1, s1, xs)" by (cases "fn s") auto
  have xs: "set xs \<subseteq> X" using fn [of s] by (simp add: f)
  show ?case
    using Cons.prems Cons.IH xs
    by (auto simp: f emit_reports close_connection_def
        split: go.splits prod.splits option.splits if_splits)
qed

lemma retry_loop0_reports:
  assumes fn: "\<And>s. set (snd (snd (fn s))) \<subseteq> X"
  shows "FnEmit x \<in> set (snd (snd (retry_loop0 p N fn is r err s))) \<Longrightarrow> x \<in> X"
proof (induction "is" arbitrary: r err s)
  case Nil
  then show ?case by simp
next
  case (Cons i "is")
  obtain o1 s1 xs where f: "fn s = (o1, s1, xs)" by (cases "fn s") auto
  have xs: "set xs \<subseteq> X" using fn [of s] by (simp add: f)
  show ?case
    using Cons.prems Cons.IH xs
    by (auto simp: f emit_reports close_connection_def
        split: go.splits prod.splits option.splits if_splits)
qed

lemma PrintGraphics_fn_reports: "set (snd (snd (PrintGraphics_fn p buf s))) \<subseteq> {buf}"
  by (auto simp: PrintGraphics_fn_def write_raw_def split: prod.splits option.splits go.splits)


lemma withRetry_PrintGraphics_fn:
  shows "FnEmit x \<in> set (snd (snd (drop_result (withRetry () p 3 (PrintGraphics_fn p buf) s)))) \<Longrightarrow> x = buf"
    and "FnEmit x \<in> set (snd (snd (drop_result (withRetry0 () p 3 (PrintGraphics_fn p buf) s)))) \<Longrightarrow> x = buf"
  using retry_loop_reports [where fn = "PrintGraphics_fn p buf" and X = "{buf}", OF PrintGraphics_fn_reports]
    retry_loop0_reports [where fn = "PrintGraphics_fn p buf" and X = "{buf}", OF PrintGraphics_fn_reports]
  unfolding snd_drop_result withRetry_def withRetry0_def by blast+

lemma withRetry_PrintGraphics_fn_first:
  assumes "connection p = Some c"
  shows "\<exists>rest. snd (snd (drop_result (withRetry () p 3 (PrintGraphics_fn p buf) s))) = FnCall # FnEmit buf # rest"
    and "\<exists>rest. snd (snd (drop_result (withRetry0 () p 3 (PrintGraphics_fn p buf) s))) = FnCall # FnEmit buf # rest"
  using assms
  by (auto simp: snd_drop_result withRetry_def withRetry0_def upt_conv_Cons PrintGraphics_fn_def
      write_raw_def emit_def close_connection_def split: prod.splits option.splits)


lemma raster_buffer_uncentred:
  "raster_buffer (take (nat (sint (go_quo width 8 * height))) data) (go_quo width 8) height
   = uncentred_raster_command data width height"
  by (simp add: raster_buffer_bytes uncentred_raster_command_def le16_def)

lemma PrintGraphics_negative_height:
  "PrintGraphics example_runtime mock_printer [] 576 (- 1) (new_mock, 0) = (Panic SliceBoundsOutOfRange, (new_mock, 0), [])"
  "PrintGraphics0 example_runtime mock_printer [] 576 (- 1) (new_mock, 0) = (Panic SliceBoundsOutOfRange, (new_mock, 0), [])"
  by (simp_all add: PrintGraphics_def PrintGraphics0_def raster_command_def Let_def go_quo_def
      signed_divide_int_def slice_def mock_printer_def)

lemma uncentred_raster_command_example:
  "uncentred_raster_command [1, 2, 3, 4, 5] 16 2
   = [0x1D, 0x76, 0x30, 0, 2, 0, 2, 0, 1, 2, 3, 4, 0x1B, 0x64, 12]"
  by (simp add: uncentred_raster_command_def le16_def go_quo_def signed_divide_int_def)

lemma go_quo_16_8: "sint (go_quo 16 8 * 2) = 4"
  by (simp add: go_quo_def signed_divide_int_def)

lemma mock_write_once:
  "drop_result (withRetry () (mock_printer\<lparr>receipt_width := 16\<rparr>) 3
      (PrintGraphics_fn (mock_printer\<lparr>receipt_width := 16\<rparr>) buf) (new_mock, 0))
   = (Return None, (new_mock\<lparr>WriteRawCalls := [buf]\<rparr>, 0), [FnCall, FnEmit buf])"
  by (simp add: drop_result_def withRetry_def upt_conv_Cons PrintGraphics_fn_def write_raw_def
      mock_printer_def mock_connection_def on_mock_def MockWritable_WriteRaw_def new_mock_def)

text \<open>
  C4, as stated, fails for a negative product \<open>(width / 8) * height\<close>: the length check
  passes, and \<open>data[:required_bytes]\<close> panics before anything is written. Here the
  printer is 576 pixels wide, the image 576 by \<open>- 1\<close>.
\<close>

theorem C4_PrintGraphics_negative_height_counterexample:
  "sint (receipt_width mock_printer) \<le> sint (576 :: go_int)
   \<and> \<not> int (length ([] :: byte list)) < sint (go_quo 576 8 * (- 1))
   \<and> PrintGraphics example_runtime mock_printer [] 576 (- 1) (new_mock, 0)
       = (Panic SliceBoundsOutOfRange, (new_mock, 0), [])
   \<and> PrintGraphics0 example_runtime mock_printer [] 576 (- 1) (new_mock, 0)
       = (Panic SliceBoundsOutOfRange, (new_mock, 0), [])"
  using PrintGraphics_negative_height
  by (simp add: mock_printer_def go_quo_def signed_divide_int_def)

text \<open>
  C4, amended: for every call \<open>PrintGraphics(data, width, height)\<close> with
  \<open>width \<ge> receipt_width\<close>, both revisions return the validation error, with nothing
  written, if \<open>len(data) < (width / 8) * height\<close>; and if
  \<open>0 \<le> (width / 8) * height \<le> len(data)\<close>, every buffer handed to \<open>WriteRaw\<close> is the one
  buffer \<open>uncentred_raster_command data width height\<close>: the prefix
  \<open>{0x1D,0x76,0x30,0x00}\<close>, \<open>width / 8\<close> and \<open>height\<close> as low byte and high byte (each
  reduced modulo 256), the first \<open>(width / 8) * height\<close> bytes of the data, and the feed
  command \<open>{0x1B,0x64,12}\<close>; it is written inside the 3-attempt retry, and written at
  least once when the printer has a transport. The product is Go's: it wraps at 64 bits.
\<close>

theorem C4_PrintGraphics_hands_over_one_buffer:
  assumes "sint (receipt_width p) \<le> sint width"
  shows "(int (length data) < sint (go_quo width 8 * height) \<longrightarrow>
            PrintGraphics rt p data width height s
              = (Return (Some (PrintDataTooShort (int (length data))
                                 (sint (go_quo width 8 * height)))), s, [])
          \<and> PrintGraphics0 rt p data width height s
              = (Return (Some (PrintDataTooShort (int (length data))
                                 (sint (go_quo width 8 * height)))), s, []))
    \<and> (0 \<le> sint (go_quo width 8 * height)
        \<and> sint (go_quo width 8 * height) \<le> int (length data) \<longrightarrow>
            PrintGraphics rt p data width height s
              = drop_result (withRetry () p 3
                  (PrintGraphics_fn p (uncentred_raster_command data width height)) s)
          \<and> PrintGraphics0 rt p data width height s
              = drop_result (withRetry0 () p 3
                  (PrintGraphics_fn p (uncentred_raster_command data width height)) s)
          \<and> (\<forall>x. FnEmit x \<in> set (snd (snd (PrintGraphics rt p data width height s)))
                \<longrightarrow> x = uncentred_raster_command data width height)
          \<and> (\<forall>x. FnEmit x \<in> set (snd (snd (PrintGraphics0 rt p data width height s)))
                \<longrightarrow> x = uncentred_raster_command data width height)
          \<and> (connection p \<noteq> None \<longrightarrow>
                (\<exists>rest. snd (snd (PrintGraphics rt p data width height s))
                    = FnCall # FnEmit (uncentred_raster_command data width height) # rest)
              \<and> (\<exists>rest. snd (snd (PrintGraphics0 rt p data width height s))
                    = FnCall # FnEmit (uncentred_raster_command data width height) # rest)))"
proof (intro conjI impI)
  assume short: "int (length data) < sint (go_quo width 8 * height)"
  show "PrintGraphics rt p data width height s
              = (Return (Some (PrintDataTooShort (int (length data))
                                 (sint (go_quo width 8 * height)))), s, [])"
    by (simp add: PrintGraphics_def raster_command_too_short [OF short])
  show "PrintGraphics0 rt p data width height s
              = (Return (Some (PrintDataTooShort (int (length data))
                                 (sint (go_quo width 8 * height)))), s, [])"
    by (simp add: PrintGraphics0_def raster_command_too_short [OF short])
next
  assume a: "0 \<le> sint (go_quo width 8 * height)
        \<and> sint (go_quo width 8 * height) \<le> int (length data)"
  have nc: "\<not> sint width < sint (receipt_width p)" using assms by simp
  note rc = raster_command_uncentred [OF nc conjunct1 [OF a] conjunct2 [OF a]]
  show new: "PrintGraphics rt p data width height s
              = drop_result (withRetry () p 3
                  (PrintGraphics_fn p (uncentred_raster_command data width height)) s)"
    by (simp add: PrintGraphics_def rc raster_buffer_uncentred)
  show old: "PrintGraphics0 rt p data width height s
              = drop_result (withRetry0 () p 3
                  (PrintGraphics_fn p (uncentred_raster_command data width height)) s)"
    by (simp add: PrintGraphics0_def rc raster_buffer_uncentred)
  show "\<forall>x. FnEmit x \<in> set (snd (snd (PrintGraphics rt p data width height s)))
                \<longrightarrow> x = uncentred_raster_command data width height"
  proof (intro allI impI)
    fix x assume "FnEmit x \<in> set (snd (snd (PrintGraphics rt p data width height s)))"
    then show "x = uncentred_raster_command data width height"
      unfolding new by (rule withRetry_PrintGraphics_fn(1))
  qed
  show "\<forall>x. FnEmit x \<in> set (snd (snd (PrintGraphics0 rt p data width height s)))
                \<longrightarrow> x = uncentred_raster_command data width height"
  proof (intro allI impI)
    fix x assume "FnEmit x \<in> set (snd (snd (PrintGraphics0 rt p data width height s)))"
    then show "x = uncentred_raster_command data width height"
      unfolding old by (rule withRetry_PrintGraphics_fn(2))
  qed
  {
    assume "connection p \<noteq> None"
    then obtain c where c: "connection p = Some c" by blast
    show "\<exists>rest. snd (snd (PrintGraphics rt p data width height s))
                    = FnCall # FnEmit (uncentred_raster_command data width height) # rest"
      unfolding new by (rule withRetry_PrintGraphics_fn_first(1) [OF c])
    show "\<exists>rest. snd (snd (PrintGraphics0 rt p data width height s))
                    = FnCall # FnEmit (uncentred_raster_command data width height) # rest"
      unfolding old by (rule withRetry_PrintGraphics_fn_first(2) [OF c])
  }
qed

theorem C4_PrintGraphics_hands_over_one_buffer_witness:
  "sint (receipt_width (mock_printer\<lparr>receipt_width := 16\<rparr>)) \<le> sint (16 :: go_int)
   \<and> int (length [1 :: byte]) < sint (go_quo 16 8 * 2)
   \<and> PrintGraphics example_runtime (mock_printer\<lparr>receipt_width := 16\<rparr>) [1] 16 2 (new_mock, 0)
       = (Return (Some (PrintDataTooShort 1 4)), (new_mock, 0), [])
   \<and> 0 \<le> sint (go_quo 16 8 * 2)
   \<and> sint (go_quo 16 8 * 2) \<le> int (length [1, 2, 3, 4, 5 :: byte])
   \<and> connection (mock_printer\<lparr>receipt_width := 16\<rparr>) \<noteq> None
   \<and> PrintGraphics example_runtime (mock_printer\<lparr>receipt_width := 16\<rparr>) [1, 2, 3, 4, 5] 16 2 (new_mock, 0)
       = (Return None,
          (new_mock\<lparr>WriteRawCalls := [[0x1D, 0x76, 0x30, 0, 2, 0, 2, 0, 1, 2, 3, 4, 0x1B, 0x64, 12]]\<rparr>, 0),
          [FnCall, FnEmit [0x1D, 0x76, 0x30, 0, 2, 0, 2, 0, 1, 2, 3, 4, 0x1B, 0x64, 12]])"
proof -
  let ?p = "mock_printer\<lparr>receipt_width := 16\<rparr>"
  have h: "sint (receipt_width ?p) \<le> sint (16 :: go_int)" by simp
  have short: "int (length [1 :: byte]) < sint (go_quo 16 8 * 2)" by (simp add: go_quo_16_8)
  have fits: "0 \<le> sint (go_quo 16 8 * 2)"
    "sint (go_quo 16 8 * 2) \<le> int (length [1, 2, 3, 4, 5 :: byte])"
    by (simp_all add: go_quo_16_8)
  have conn: "connection ?p \<noteq> None" by (simp add: mock_printer_def)
  note t1 = C4_PrintGraphics_hands_over_one_buffer [OF h, where data = "[1]" and height = 2
      and s = "(new_mock, 0)" and rt = example_runtime]
  note t2 = C4_PrintGraphics_hands_over_one_buffer [OF h, where data = "[1, 2, 3, 4, 5]"
      and height = 2 and s = "(new_mock, 0)" and rt = example_runtime]
  have a: "PrintGraphics example_runtime ?p [1] 16 2 (new_mock, 0)
       = (Return (Some (PrintDataTooShort 1 4)), (new_mock, 0), [])"
    using t1 [THEN conjunct1, THEN mp, OF short, THEN conjunct1] by (simp add: go_quo_16_8)
  have b: "PrintGraphics example_runtime ?p [1, 2, 3, 4, 5] 16 2 (new_mock, 0)
       = (Return None,
          (new_mock\<lparr>WriteRawCalls := [[0x1D, 0x76, 0x30, 0, 2, 0, 2, 0, 1, 2, 3, 4, 0x1B, 0x64, 12]]\<rparr>, 0),
          [FnCall, FnEmit [0x1D, 0x76, 0x30, 0, 2, 0, 2, 0, 1, 2, 3, 4, 0x1B, 0x64, 12]])"
    unfolding t2 [THEN conjunct2, THEN mp, OF conjI [OF fits], THEN conjunct1]
      uncentred_raster_command_example
    by (rule mock_write_once)
  show ?thesis using h short fits conn a b by (intro conjI)
qed

section \<open>Parsing\<close>

lemma parse_loop_append:
  "parse_loop lib (a @ b) st =
     (case parse_loop lib a st of Return (Inr st1) \<Rightarrow> parse_loop lib b st1 | failed \<Rightarrow> failed)"
  by (induction a arbitrary: st) (auto split: go.splits sum.splits)

lemma parse_loop_append_ok:
  "parse_loop lib a st = Return (Inr st1) \<Longrightarrow> parse_loop lib (a @ b) st = parse_loop lib b st1"
  by (simp add: parse_loop_append)

lemma parse_loop_append_failed:
  "parse_loop lib a st = Return (Inl e) \<Longrightarrow> parse_loop lib (a @ b) st = Return (Inl e)"
  "parse_loop lib a st = Panic k \<Longrightarrow> parse_loop lib (a @ b) st = Panic k"
  by (simp_all add: parse_loop_append)

lemma Parse_syntax_error:
  "Parse lib tokens (TokenError err) \<noteq> Return (Inr ep)"
  "parse_loop lib tokens new_parser = Return (Inr st) \<Longrightarrow>
     Parse lib tokens (TokenError err) = Return (Inl (XMLSyntaxError err))"
  by (auto simp: Parse_def split: go.splits sum.splits)

lemma contains_epson: "Contains ''http://www.epson-pos.com/schemas/2012/10/epos-print'' ''epson-pos''"
  by simp

lemma epson_simps:
  "Local (epson name) = name"
  "Contains (Space (epson name)) ''epson-pos''"
  by (simp_all add: epson_def)

lemma handle_start:
  assumes "Contains (Space n) ''epson-pos''"
  shows "Local n = ''epos-print'' \<Longrightarrow>
           handle_token lib (StartElement n as) st = Return (Inr (st\<lparr>epos := (epos st)\<lparr>XMLName := n\<rparr>\<rparr>))"
    and "Local n = ''pulse'' \<Longrightarrow>
           handle_token lib (StartElement n as) st
             = Return (Inr (append_instruction \<lparr>Type = InstPulse, Image = None\<rparr> st))"
    and "Local n = ''cut'' \<Longrightarrow>
           handle_token lib (StartElement n as) st
             = Return (Inr (append_instruction \<lparr>Type = InstCut, Image = None\<rparr> st))"
    and "Local n = ''image'' \<Longrightarrow>
           handle_token lib (StartElement n as) st
             = Return (Inr (st\<lparr>inImage := True,
                currentImage := Some (foldl (scan_attr lib) \<lparr>Width = 0, Height = 0, Data = []\<rparr> as)\<rparr>))"
  using assms by (simp_all add: Let_def)

lemma handle_end_image:
  assumes "Contains (Space n) ''epson-pos''" and "Local n = ''image''" and "inImage st"
    and "currentImage st = Some img"
  shows "handle_token lib (EndElement n) st =
     (if int (length (Data img)) \<noteq> sint (go_quo (Width img) 8 * Height img)
      then Return (Inl (ImageDataIncomplete (int (length (Data img)))
             (sint (go_quo (Width img) 8 * Height img)) (sint (Width img)) (sint (Height img))))
      else Return (Inr ((append_instruction \<lparr>Type = InstImage, Image = Some img\<rparr> st)
             \<lparr>inImage := False, currentImage := None\<rparr>)))"
  using assms by (simp add: Let_def)

lemma handle_end_other:
  "\<not> (Local n = ''image'' \<and> Contains (Space n) ''epson-pos'' \<and> inImage st) \<Longrightarrow>
     handle_token lib (EndElement n) st = Return (Inr st)"
  by (auto simp: Let_def)

lemma Parse0_unclosed_tag:
  "Parse0 lib [StartElement (epson ''epos-print'') [], StartElement (epson ''pulse'') []]
      (TokenError (External ''XML syntax error on line 1: unexpected EOF''))
   = Return (Inr \<lparr>XMLName = epson ''epos-print'',
                   Instructions = [\<lparr>Type = InstPulse, Image = None\<rparr>]\<rparr>)"
  "Parse lib [StartElement (epson ''epos-print'') [], StartElement (epson ''pulse'') []]
      (TokenError (External ''XML syntax error on line 1: unexpected EOF''))
   = Return (Inl (XMLSyntaxError (External ''XML syntax error on line 1: unexpected EOF'')))"
  by (simp_all add: Parse0_def Parse_def new_parser_def handle_start epson_simps
      append_instruction_def del: handle_token.simps)


lemma parse_loop_Cons_Inr:
  "parse_loop lib (t # ts) st = Return (Inr st') \<Longrightarrow>
     \<exists>st1. handle_token lib t st = Return (Inr st1) \<and> parse_loop lib ts st1 = Return (Inr st')"
  by (auto split: go.splits sum.splits)

lemma parse_loop_append_Inr:
  "parse_loop lib (a @ b) st = Return (Inr st') \<Longrightarrow>
     \<exists>st1. parse_loop lib a st = Return (Inr st1) \<and> parse_loop lib b st1 = Return (Inr st')"
  by (auto simp: parse_loop_append split: go.splits sum.splits)

lemma chardata_accumulates:
  assumes "inImage st" and "currentImage st = Some img"
    and "\<forall>se\<in>set chunks. TrimSpace lib se = [] \<or> (\<exists>bs. DecodeString lib (TrimSpace lib se) = Inr bs)"
  shows "parse_loop lib (map CharData chunks) st
         = Return (Inr (st\<lparr>currentImage := Some (img\<lparr>Data := Data img @ decoded lib chunks\<rparr>)\<rparr>))"
  using assms
proof (induction chunks arbitrary: st img)
  case Nil
  then show ?case by (simp add: decoded_def)
next
  case (Cons se chunks)
  show ?case
  proof (cases "TrimSpace lib se = []")
    case True
    have h: "handle_token lib (CharData se) st = Return (Inr st)"
      using True Cons.prems(2) by (simp add: Let_def)
    have d: "decoded lib (se # chunks) = decoded lib chunks"
      using True by (simp add: decoded_def)
    have rest: "\<forall>se\<in>set chunks. TrimSpace lib se = [] \<or> (\<exists>bs. DecodeString lib (TrimSpace lib se) = Inr bs)"
      using Cons.prems(3) by simp
    show ?thesis
      using Cons.IH [OF Cons.prems(1) Cons.prems(2) rest]
      by (simp add: h d del: handle_token.simps)
  next
    case False
    then obtain bs where bs: "DecodeString lib (TrimSpace lib se) = Inr bs"
      using Cons.prems(3) by auto
    let ?img = "img\<lparr>Data := Data img @ bs\<rparr>"
    let ?st = "st\<lparr>currentImage := Some ?img\<rparr>"
    have h: "handle_token lib (CharData se) st = Return (Inr ?st)"
      using False bs Cons.prems(1) Cons.prems(2) by (simp add: Let_def)
    have d: "decoded lib (se # chunks) = bs @ decoded lib chunks"
      using False bs by (simp add: decoded_def)
    have rest: "\<forall>se\<in>set chunks. TrimSpace lib se = [] \<or> (\<exists>bs. DecodeString lib (TrimSpace lib se) = Inr bs)"
      using Cons.prems(3) by simp
    have i: "inImage ?st" using Cons.prems(1) by simp
    have c: "currentImage ?st = Some ?img" by simp
    have "parse_loop lib (map CharData chunks) ?st
         = Return (Inr (?st\<lparr>currentImage := Some (?img\<lparr>Data := Data ?img @ decoded lib chunks\<rparr>)\<rparr>))"
      by (rule Cons.IH [OF i c rest])
    then show ?thesis by (simp add: h d del: handle_token.simps)
  qed
qed

lemma image_element:
  assumes n: "Local n = ''image''" "Contains (Space n) ''epson-pos''"
    and ok: "\<forall>se\<in>set chunks. TrimSpace lib se = [] \<or> (\<exists>bs. DecodeString lib (TrimSpace lib se) = Inr bs)"
  shows "parse_loop lib (StartElement n attrs # map CharData chunks @ EndElement n # rest) st =
     (let img = (foldl (scan_attr lib) \<lparr>Width = 0, Height = 0, Data = []\<rparr> attrs)
                   \<lparr>Data := decoded lib chunks\<rparr>;
          expectedBytes = go_quo (Width img) 8 * Height img
      in if int (length (Data img)) = sint expectedBytes
         then parse_loop lib rest
                ((append_instruction \<lparr>Type = InstImage, Image = Some img\<rparr> st)
                   \<lparr>inImage := False, currentImage := None\<rparr>)
         else Return (Inl (ImageDataIncomplete (int (length (Data img))) (sint expectedBytes)
                             (sint (Width img)) (sint (Height img)))))"
proof -
  let ?zero = "foldl (scan_attr lib) \<lparr>Width = 0, Height = 0, Data = []\<rparr> attrs"
  let ?sta = "st\<lparr>inImage := True, currentImage := Some ?zero\<rparr>"
  have d0: "Data ?zero = []"
    by (induction attrs rule: rev_induct) (auto simp: scan_attr_def split: option.splits)
  let ?img = "?zero\<lparr>Data := decoded lib chunks\<rparr>"
  let ?stb = "?sta\<lparr>currentImage := Some ?img\<rparr>"
  have s1: "handle_token lib (StartElement n attrs) st = Return (Inr ?sta)"
    using handle_start(4) [OF n(2) n(1)] by simp
  have i1: "inImage ?sta" by simp
  have c1: "currentImage ?sta = Some ?zero" by simp
  have "parse_loop lib (map CharData chunks) ?sta
      = Return (Inr (?sta\<lparr>currentImage := Some (?zero\<lparr>Data := Data ?zero @ decoded lib chunks\<rparr>)\<rparr>))"
    by (rule chardata_accumulates [OF i1 c1 ok])
  then have s2: "parse_loop lib (map CharData chunks) ?sta = Return (Inr ?stb)"
    by (simp add: d0)
  have s3: "handle_token lib (EndElement n) ?stb =
     (if int (length (Data ?img)) \<noteq> sint (go_quo (Width ?img) 8 * Height ?img)
      then Return (Inl (ImageDataIncomplete (int (length (Data ?img)))
             (sint (go_quo (Width ?img) 8 * Height ?img)) (sint (Width ?img)) (sint (Height ?img))))
      else Return (Inr ((append_instruction \<lparr>Type = InstImage, Image = Some ?img\<rparr> ?stb)
             \<lparr>inImage := False, currentImage := None\<rparr>)))"
    by (rule handle_end_image [OF n(2) n(1)]) simp_all
  have e: "(append_instruction \<lparr>Type = InstImage, Image = Some ?img\<rparr> ?stb)
             \<lparr>inImage := False, currentImage := None\<rparr>
         = (append_instruction \<lparr>Type = InstImage, Image = Some ?img\<rparr> st)
             \<lparr>inImage := False, currentImage := None\<rparr>"
    by (simp add: append_instruction_def)
  have "parse_loop lib (StartElement n attrs # map CharData chunks @ EndElement n # rest) st
      = parse_loop lib (EndElement n # rest) ?stb"
    using s1 s2 by (simp add: parse_loop_append del: handle_token.simps)
  also have "\<dots> = (if int (length (Data ?img)) \<noteq> sint (go_quo (Width ?img) 8 * Height ?img)
      then Return (Inl (ImageDataIncomplete (int (length (Data ?img)))
             (sint (go_quo (Width ?img) 8 * Height ?img)) (sint (Width ?img)) (sint (Height ?img))))
      else parse_loop lib rest ((append_instruction \<lparr>Type = InstImage, Image = Some ?img\<rparr> st)
             \<lparr>inImage := False, currentImage := None\<rparr>))"
    unfolding parse_loop.simps s3 by (simp add: append_instruction_def)
  finally show ?thesis by (simp add: Let_def)
qed

lemma instruction_of_cases:
  "instruction_of n = None \<longleftrightarrow>
     \<not> (Contains (Space n) ''epson-pos'' \<and> (Local n = ''pulse'' \<or> Local n = ''cut'' \<or> Local n = ''image''))"
  "instruction_of n = Some InstPulse \<longleftrightarrow> Contains (Space n) ''epson-pos'' \<and> Local n = ''pulse''"
  "instruction_of n = Some InstCut \<longleftrightarrow> Contains (Space n) ''epson-pos'' \<and> Local n = ''cut''"
  "instruction_of n = Some InstImage \<longleftrightarrow> Contains (Space n) ''epson-pos'' \<and> Local n = ''image''"
  by (auto simp: instruction_of_def)

lemma handle_start_other:
  assumes "\<not> Contains (Space n) ''epson-pos''
     \<or> (Local n \<noteq> ''epos-print'' \<and> Local n \<noteq> ''pulse'' \<and> Local n \<noteq> ''cut'' \<and> Local n \<noteq> ''image'')"
  shows "handle_token lib (StartElement n as) st = Return (Inr st)"
  unfolding handle_token.simps Let_def using assms by (elim disjE) simp_all

lemma handle_start_unrecognized:
  assumes none: "instruction_of n = None"
    and h: "handle_token lib (StartElement n as) st = Return (Inr st1)"
  shows "Instructions (epos st1) = Instructions (epos st) \<and> inImage st1 = inImage st
         \<and> currentImage st1 = currentImage st"
proof (cases "Contains (Space n) ''epson-pos'' \<and> Local n = ''epos-print''")
  case True
  then have "handle_token lib (StartElement n as) st
      = Return (Inr (st\<lparr>epos := (epos st)\<lparr>XMLName := n\<rparr>\<rparr>))"
    using handle_start(1) [of n lib as st] by simp
  then show ?thesis using h by auto
next
  case False
  then have nf: "\<not> (Contains (Space n) ''epson-pos'' \<and> Local n = ''epos-print'')" by simp
  have "\<not> (Contains (Space n) ''epson-pos''
      \<and> (Local n = ''pulse'' \<or> Local n = ''cut'' \<or> Local n = ''image''))"
    using none unfolding instruction_of_cases(1) .
  then have "\<not> Contains (Space n) ''epson-pos''
     \<or> (Local n \<noteq> ''epos-print'' \<and> Local n \<noteq> ''pulse'' \<and> Local n \<noteq> ''cut'' \<and> Local n \<noteq> ''image'')"
    using nf by blast
  then have "handle_token lib (StartElement n as) st = Return (Inr st)"
    by (rule handle_start_other)
  then show ?thesis using h by simp
qed

lemma handle_end_not_image:
  assumes "instruction_of n \<noteq> Some InstImage"
  shows "handle_token lib (EndElement n) st = Return (Inr st)"
  using assms by (auto simp: instruction_of_cases(4) Let_def)

lemma handle_chardata_keeps:
  assumes "handle_token lib (CharData se) st = Return (Inr st1)"
  shows "Instructions (epos st1) = Instructions (epos st) \<and> inImage st1 = inImage st
         \<and> (currentImage st1 = None \<longleftrightarrow> currentImage st = None)"
  using assms by (auto simp: Let_def split: option.splits if_splits sum.splits)

lemma keeps_refl: "keeps st st" by (simp add: keeps_def)

lemma keeps_trans: "keeps a b \<Longrightarrow> keeps b c \<Longrightarrow> keeps a c" by (simp add: keeps_def)

lemma nodes_keep:
  assumes "\<And>k st st1. k \<in> set ks \<Longrightarrow> parse_loop lib (node_tokens k) st = Return (Inr st1) \<Longrightarrow> keeps st st1"
  shows "parse_loop lib (concat (map node_tokens ks)) st = Return (Inr st1) \<Longrightarrow> keeps st st1"
  using assms
proof (induction ks arbitrary: st)
  case Nil
  then show ?case by (simp add: keeps_refl)
next
  case (Cons k ks)
  from Cons.prems(1) obtain st2 where a: "parse_loop lib (node_tokens k) st = Return (Inr st2)"
    and b: "parse_loop lib (concat (map node_tokens ks)) st2 = Return (Inr st1)"
    using parse_loop_append_Inr [of lib "node_tokens k" "concat (map node_tokens ks)" st st1] by auto
  have "keeps st st2" using Cons.prems(2) [of k st st2] a by simp
  moreover have "keeps st2 st1"
  proof (rule Cons.IH [OF b])
    fix k' s s1 assume "k' \<in> set ks" "parse_loop lib (node_tokens k') s = Return (Inr s1)"
    then show "keeps s s1" using Cons.prems(2) [of k' s s1] by simp
  qed
  ultimately show ?case by (rule keeps_trans)
qed

lemma unrecognized_node_keeps:
  "recognized k = [] \<Longrightarrow> parse_loop lib (node_tokens k) st = Return (Inr st1) \<Longrightarrow> keeps st st1"
proof (induction k arbitrary: st st1)
  case (Element n as ks)
  have none: "instruction_of n = None" and kids: "\<forall>k\<in>set ks. recognized k = []"
    using Element.prems(1) by (auto split: option.splits)
  from Element.prems(2) obtain sa where a: "handle_token lib (StartElement n as) st = Return (Inr sa)"
    and r: "parse_loop lib (concat (map node_tokens ks) @ [EndElement n]) sa = Return (Inr st1)"
    using parse_loop_Cons_Inr [of lib "StartElement n as" _ st st1] by auto
  from r obtain sb where b: "parse_loop lib (concat (map node_tokens ks)) sa = Return (Inr sb)"
    and c: "parse_loop lib [EndElement n] sb = Return (Inr st1)"
    using parse_loop_append_Inr by blast
  have "keeps sa sb"
  proof (rule nodes_keep [OF _ b])
    fix k s s1 assume k: "k \<in> set ks" and p: "parse_loop lib (node_tokens k) s = Return (Inr s1)"
    have "recognized k = []" using kids k by simp
    then show "keeps s s1" using p by (rule Element.IH [OF k])
  qed
  moreover have "keeps st sa" using handle_start_unrecognized [OF none a] by (simp add: keeps_def)
  moreover have "sb = st1" using c none by (simp add: handle_end_not_image del: handle_token.simps)
  ultimately show ?case using keeps_trans [of st sa sb] by simp
next
  case (Text se)
  from Text.prems(2) have "handle_token lib (CharData se) st = Return (Inr st1)"
    using parse_loop_Cons_Inr [of lib "CharData se" "[]" st st1] by simp
  then show ?case using handle_chardata_keeps [of lib se st st1] by (simp add: keeps_def)
next
  case (CommentNode x)
  then show ?case by (simp add: keeps_def)
next
  case (ProcInstNode x y)
  then show ?case by (simp add: keeps_def)
next
  case (DirectiveNode x)
  then show ?case by (simp add: keeps_def)
qed


lemma nodes_outside:
  assumes "\<And>k st st1. k \<in> set ks \<Longrightarrow> \<not> inImage st
      \<Longrightarrow> parse_loop lib (node_tokens k) st = Return (Inr st1)
      \<Longrightarrow> map Type (Instructions (epos st1)) = map Type (Instructions (epos st)) @ recognized k
          \<and> \<not> inImage st1"
  shows "\<not> inImage st \<Longrightarrow> parse_loop lib (concat (map node_tokens ks)) st = Return (Inr st1)
      \<Longrightarrow> map Type (Instructions (epos st1))
            = map Type (Instructions (epos st)) @ concat (map recognized ks)
          \<and> \<not> inImage st1"
  using assms
proof (induction ks arbitrary: st)
  case Nil
  then show ?case by simp
next
  case (Cons k ks)
  from Cons.prems(2) obtain st2 where a: "parse_loop lib (node_tokens k) st = Return (Inr st2)"
    and b: "parse_loop lib (concat (map node_tokens ks)) st2 = Return (Inr st1)"
    using parse_loop_append_Inr [of lib "node_tokens k" "concat (map node_tokens ks)" st st1] by auto
  have k: "map Type (Instructions (epos st2)) = map Type (Instructions (epos st)) @ recognized k
      \<and> \<not> inImage st2"
    using Cons.prems(3) [of k st st2] Cons.prems(1) a by simp
  then have o: "\<not> inImage st2" by simp
  have "map Type (Instructions (epos st1))
            = map Type (Instructions (epos st2)) @ concat (map recognized ks)
          \<and> \<not> inImage st1"
  proof (rule Cons.IH [OF o b])
    fix k' s s1
    assume "k' \<in> set ks" "\<not> inImage s" "parse_loop lib (node_tokens k') s = Return (Inr s1)"
    then show "map Type (Instructions (epos s1)) = map Type (Instructions (epos s)) @ recognized k'
          \<and> \<not> inImage s1"
      using Cons.prems(3) [of k' s s1] by simp
  qed
  then show ?case using k by simp
qed

lemma element_split:
  assumes "parse_loop lib (node_tokens (Element n as ks)) st = Return (Inr st1)"
  obtains sa sb where "handle_token lib (StartElement n as) st = Return (Inr sa)"
    and "parse_loop lib (concat (map node_tokens ks)) sa = Return (Inr sb)"
    and "handle_token lib (EndElement n) sb = Return (Inr st1)"
proof -
  from assms obtain sa where a: "handle_token lib (StartElement n as) st = Return (Inr sa)"
    and r: "parse_loop lib (concat (map node_tokens ks) @ [EndElement n]) sa = Return (Inr st1)"
    using parse_loop_Cons_Inr [of lib "StartElement n as" _ st st1] by auto
  from r obtain sb where b: "parse_loop lib (concat (map node_tokens ks)) sa = Return (Inr sb)"
    and c: "parse_loop lib [EndElement n] sb = Return (Inr st1)"
    using parse_loop_append_Inr by blast
  from c have "handle_token lib (EndElement n) sb = Return (Inr st1)"
    using parse_loop_Cons_Inr [of lib "EndElement n" "[]" sb st1] by simp
  with a b show ?thesis using that by blast
qed

lemma node_outside:
  "plain_images k \<Longrightarrow> \<not> inImage st \<Longrightarrow> parse_loop lib (node_tokens k) st = Return (Inr st1)
   \<Longrightarrow> map Type (Instructions (epos st1)) = map Type (Instructions (epos st)) @ recognized k
       \<and> \<not> inImage st1"
proof (induction k arbitrary: st st1)
  case (Element n as ks)
  from Element.prems(3) obtain sa sb
    where a: "handle_token lib (StartElement n as) st = Return (Inr sa)"
      and b: "parse_loop lib (concat (map node_tokens ks)) sa = Return (Inr sb)"
      and c: "handle_token lib (EndElement n) sb = Return (Inr st1)"
    by (rule element_split)
  show ?case
  proof (cases "instruction_of n = Some InstImage")
    case True
    then have n: "Contains (Space n) ''epson-pos''" "Local n = ''image''"
      by (simp_all add: instruction_of_cases(4))
    have kids: "\<forall>k\<in>set ks. recognized k = []"
      using Element.prems(1) True by simp
    have sa: "sa = st\<lparr>inImage := True,
                currentImage := Some (foldl (scan_attr lib) \<lparr>Width = 0, Height = 0, Data = []\<rparr> as)\<rparr>"
      using a handle_start(4) [OF n(1) n(2), of lib as st] by simp
    have "keeps sa sb"
    proof (rule nodes_keep [OF _ b])
      fix k s s1 assume k: "k \<in> set ks" and p: "parse_loop lib (node_tokens k) s = Return (Inr s1)"
      have "recognized k = []" using kids k by simp
      then show "keeps s s1" using p by (rule unrecognized_node_keeps)
    qed
    then have sb: "Instructions (epos sb) = Instructions (epos st)" "inImage sb"
      "currentImage sb \<noteq> None"
      by (simp_all add: keeps_def sa)
    then obtain img where img: "currentImage sb = Some img" by blast
    have "Instructions (epos st1) = Instructions (epos sb) @ [\<lparr>Type = InstImage, Image = Some img\<rparr>]
        \<and> \<not> inImage st1"
      using c unfolding handle_end_image [OF n(1) n(2) sb(2) img]
      by (auto simp: append_instruction_def split: if_splits)
    then show ?thesis using sb(1) True kids by simp
  next
    case False
    then have kids: "list_all plain_images ks" using Element.prems(1) by simp
    have st1: "st1 = sb" using c handle_end_not_image [OF False, of lib sb] by simp
    have rec: "\<And>k s s1. k \<in> set ks \<Longrightarrow> \<not> inImage s
      \<Longrightarrow> parse_loop lib (node_tokens k) s = Return (Inr s1)
      \<Longrightarrow> map Type (Instructions (epos s1)) = map Type (Instructions (epos s)) @ recognized k
          \<and> \<not> inImage s1"
    proof -
      fix k s s1
      assume k: "k \<in> set ks" and o: "\<not> inImage s"
        and p: "parse_loop lib (node_tokens k) s = Return (Inr s1)"
      have "plain_images k" using kids k by (simp add: list_all_iff)
      then show "map Type (Instructions (epos s1)) = map Type (Instructions (epos s)) @ recognized k
          \<and> \<not> inImage s1"
        using o p by (rule Element.IH [OF k])
    qed
    have start: "map Type (Instructions (epos sa))
        = map Type (Instructions (epos st)) @ (case instruction_of n of None \<Rightarrow> [] | Some t \<Rightarrow> [t])
        \<and> \<not> inImage sa"
    proof (cases "instruction_of n")
      case None
      then show ?thesis using handle_start_unrecognized [OF None a] Element.prems(2) by simp
    next
      case (Some t)
      then have t: "t = InstPulse \<or> t = InstCut" using False by (cases t) auto
      then show ?thesis
      proof
        assume "t = InstPulse"
        then have n: "Contains (Space n) ''epson-pos''" "Local n = ''pulse''"
          using Some by (simp_all add: instruction_of_cases(2))
        have "sa = append_instruction \<lparr>Type = InstPulse, Image = None\<rparr> st"
          using a handle_start(2) [OF n(1) n(2), of lib as st] by simp
        then show ?thesis using Some \<open>t = InstPulse\<close> Element.prems(2)
          by (simp add: append_instruction_def)
      next
        assume "t = InstCut"
        then have n: "Contains (Space n) ''epson-pos''" "Local n = ''cut''"
          using Some by (simp_all add: instruction_of_cases(3))
        have "sa = append_instruction \<lparr>Type = InstCut, Image = None\<rparr> st"
          using a handle_start(3) [OF n(1) n(2), of lib as st] by simp
        then show ?thesis using Some \<open>t = InstCut\<close> Element.prems(2)
          by (simp add: append_instruction_def)
      qed
    qed
    then have osa: "\<not> inImage sa" by simp
    have "map Type (Instructions (epos sb))
            = map Type (Instructions (epos sa)) @ concat (map recognized ks)
          \<and> \<not> inImage sb"
      by (rule nodes_outside [OF rec osa b])
    then show ?thesis using start st1 by simp
  qed
next
  case (Text se)
  from Text.prems(3) have "handle_token lib (CharData se) st = Return (Inr st1)"
    using parse_loop_Cons_Inr [of lib "CharData se" "[]" st st1] by simp
  then show ?case using handle_chardata_keeps [of lib se st st1] Text.prems(2) by simp
next
  case (CommentNode x)
  then show ?case by auto
next
  case (ProcInstNode x y)
  then show ?case by auto
next
  case (DirectiveNode x)
  then show ?case by auto
qed

lemma Parse_at_EOF:
  "Parse lib tokens EOF = Return (Inr ep) \<longleftrightarrow>
     (\<exists>st. parse_loop lib tokens new_parser = Return (Inr st) \<and> ep = epos st)"
  "Parse0 lib tokens fin = Return (Inr ep) \<longleftrightarrow>
     (\<exists>st. parse_loop lib tokens new_parser = Return (Inr st) \<and> ep = epos st)"
  by (auto simp: Parse_def Parse0_def split: go.splits sum.splits stream_end.splits)

lemma document_types:
  assumes "list_all plain_images doc"
    and "parse_loop lib (document_tokens doc) new_parser = Return (Inr st)"
  shows "map Type (Instructions (epos st)) = concat (map recognized doc)"
proof -
  have o: "\<not> inImage new_parser" by (simp add: new_parser_def)
  have rec: "\<And>k s s1. k \<in> set doc \<Longrightarrow> \<not> inImage s
      \<Longrightarrow> parse_loop lib (node_tokens k) s = Return (Inr s1)
      \<Longrightarrow> map Type (Instructions (epos s1)) = map Type (Instructions (epos s)) @ recognized k
          \<and> \<not> inImage s1"
  proof -
    fix k s s1
    assume k: "k \<in> set doc" and o: "\<not> inImage s"
      and p: "parse_loop lib (node_tokens k) s = Return (Inr s1)"
    have "plain_images k" using assms(1) k by (simp add: list_all_iff)
    then show "map Type (Instructions (epos s1)) = map Type (Instructions (epos s)) @ recognized k
          \<and> \<not> inImage s1"
      using o p by (rule node_outside)
  qed
  have "map Type (Instructions (epos st))
      = map Type (Instructions (epos new_parser)) @ concat (map recognized doc) \<and> \<not> inImage st"
  proof -
    have p: "parse_loop lib (concat (map node_tokens doc)) new_parser = Return (Inr st)"
      using assms(2) by (simp add: document_tokens_def)
    show ?thesis by (rule nodes_outside [OF rec o p])
  qed
  then show ?thesis by (simp add: new_parser_def)
qed

lemma Parse_empty:
  "Parse lib [] EOF = Return (Inr \<lparr>XMLName = \<lparr>Space = [], Local = []\<rparr>, Instructions = []\<rparr>)"
  "Parse0 lib [] EOF = Return (Inr \<lparr>XMLName = \<lparr>Space = [], Local = []\<rparr>, Instructions = []\<rparr>)"
  by (simp_all add: Parse_def Parse0_def new_parser_def)

lemma example_lib_simps:
  "Sscanf_d example_lib ''8'' = Some 8"
  "Sscanf_d example_lib ''-1'' = Some (- 1)"
  "Sscanf_d example_lib ''5'' = Some 5"
  "TrimSpace example_lib s = s"
  "DecodeString example_lib ''AAA='' = Inr [0, 0]"
  "DecodeString example_lib ''AAAAAAAAAAA='' = Inr [0, 0, 0, 0, 0, 0, 0, 0]"
  by (simp_all add: example_lib_def)

lemma scan_examples:
  "foldl (scan_attr example_lib) \<lparr>Width = 0, Height = 0, Data = []\<rparr>
     [attr ''width'' ''8'', attr ''height'' ''8''] = \<lparr>Width = 8, Height = 8, Data = []\<rparr>"
  "foldl (scan_attr example_lib) \<lparr>Width = 0, Height = 0, Data = []\<rparr>
     [attr ''width'' ''-1'', attr ''height'' ''5''] = \<lparr>Width = - 1, Height = 5, Data = []\<rparr>"
  "foldl (scan_attr example_lib) \<lparr>Width = 0, Height = 0, Data = []\<rparr> []
     = \<lparr>Width = 0, Height = 0, Data = []\<rparr>"
  by (simp_all add: scan_attr_def attr_def example_lib_simps)

lemma go_quo_8_examples:
  "sint (go_quo 8 8 * 8) = 8" "sint (go_quo (- 1) 8 * 5) = 0" "sint (go_quo 0 8 * 0) = 0"
  by (simp_all add: go_quo_def signed_divide_int_def)

lemma image_examples:
  "parse_loop example_lib
     [StartElement (epson ''image'') [attr ''width'' ''8'', attr ''height'' ''8''],
      CharData ''AAA='', EndElement (epson ''image'')] st
   = Return (Inl (ImageDataIncomplete 2 8 8 8))"
  "parse_loop example_lib
     [StartElement (epson ''image'') [attr ''width'' ''-1'', attr ''height'' ''5''],
      EndElement (epson ''image'')] st
   = Return (Inr ((append_instruction
        \<lparr>Type = InstImage, Image = Some \<lparr>Width = - 1, Height = 5, Data = []\<rparr>\<rparr> st)
        \<lparr>inImage := False, currentImage := None\<rparr>))"
  "parse_loop example_lib
     [StartElement (epson ''image'') [attr ''width'' ''8'', attr ''height'' ''8''],
      CharData ''AAAAAAAAAAA='', EndElement (epson ''image'')] st
   = Return (Inr ((append_instruction
        \<lparr>Type = InstImage, Image = Some \<lparr>Width = 8, Height = 8, Data = [0, 0, 0, 0, 0, 0, 0, 0]\<rparr>\<rparr> st)
        \<lparr>inImage := False, currentImage := None\<rparr>))"
proof -
  note ie = image_element [where lib = example_lib and n = "epson ''image''" and rest = "[]",
      OF epson_simps(1) epson_simps(2)]
  show "parse_loop example_lib
     [StartElement (epson ''image'') [attr ''width'' ''8'', attr ''height'' ''8''],
      CharData ''AAA='', EndElement (epson ''image'')] st
   = Return (Inl (ImageDataIncomplete 2 8 8 8))"
    using ie [of "[''AAA='']" "[attr ''width'' ''8'', attr ''height'' ''8'']" st]
    by (simp add: example_lib_simps scan_attr_def attr_def decoded_def go_quo_8_examples Let_def
        del: parse_loop.simps(2))
  show "parse_loop example_lib
     [StartElement (epson ''image'') [attr ''width'' ''-1'', attr ''height'' ''5''],
      EndElement (epson ''image'')] st
   = Return (Inr ((append_instruction
        \<lparr>Type = InstImage, Image = Some \<lparr>Width = - 1, Height = 5, Data = []\<rparr>\<rparr> st)
        \<lparr>inImage := False, currentImage := None\<rparr>))"
    using ie [of "[]" "[attr ''width'' ''-1'', attr ''height'' ''5'']" st]
    by (simp add: example_lib_simps scan_attr_def attr_def decoded_def go_quo_8_examples Let_def
        del: parse_loop.simps(2))
  show "parse_loop example_lib
     [StartElement (epson ''image'') [attr ''width'' ''8'', attr ''height'' ''8''],
      CharData ''AAAAAAAAAAA='', EndElement (epson ''image'')] st
   = Return (Inr ((append_instruction
        \<lparr>Type = InstImage, Image = Some \<lparr>Width = 8, Height = 8, Data = [0, 0, 0, 0, 0, 0, 0, 0]\<rparr>\<rparr> st)
        \<lparr>inImage := False, currentImage := None\<rparr>))"
    using ie [of "[''AAAAAAAAAAA='']" "[attr ''width'' ''8'', attr ''height'' ''8'']" st]
    by (simp add: example_lib_simps scan_attr_def attr_def decoded_def go_quo_8_examples Let_def
        del: parse_loop.simps(2))
qed

lemma go_quo_floor:
  assumes "0 \<le> sint w" and "- (2 ^ 63) \<le> (sint w div 8) * sint h"
    and "(sint w div 8) * sint h < 2 ^ 63"
  shows "sint (go_quo w 8 * h) = (sint w div 8) * sint h"
proof -
  have q: "sint w sdiv 8 = sint w div 8" using assms(1) by (simp add: signed_divide_int_def sgn_if)
  have "- (2 ^ 63) \<le> sint w div 8" "sint w div 8 < 2 ^ 63"
    using assms(1) go_int_bounds [of w] by simp_all
  then have s: "sint (go_quo w 8) = sint w div 8"
    by (simp add: go_quo_def q sint_sbintrunc' signed_take_bit_int_eq_self)
  show ?thesis
    using sint_mult_exact [of "go_quo w 8" h] assms(2) assms(3) by (simp add: s)
qed

lemma decoded_Cons:
  "decoded lib (se # chunks) = decoded lib [se] @ decoded lib chunks"
  by (simp add: decoded_def)

lemma decoded_Nil: "decoded lib [] = []"
  by (simp add: decoded_def)

lemma char_data_Cons: "char_data (t # ts) = char_data [t] @ char_data ts"
  by (cases t) simp_all

lemma body_instructions_Cons: "body_instructions (t # ts) = body_instructions [t] @ body_instructions ts"
  by (cases t) simp_all

lemma decoded_append: "decoded lib (a @ b) = decoded lib a @ decoded lib b"
  by (simp add: decoded_def)

lemma body_token:
  assumes t: "\<not> image_tag t" and i: "inImage st" and c: "currentImage st = Some img"
    and d: "list_all (decodes lib) (char_data [t])"
  shows "\<exists>st'. handle_token lib t st = Return (Inr st') \<and> inImage st'
       \<and> currentImage st' = Some (img\<lparr>Data := Data img @ decoded lib (char_data [t])\<rparr>)
       \<and> Instructions (epos st') = Instructions (epos st) @ body_instructions [t]"
proof (cases t)
  case (StartElement n as)
  have ni: "instruction_of n \<noteq> Some InstImage" using t StartElement by simp
  have same: "img\<lparr>Data := Data img @ decoded lib []\<rparr> = img" by (simp add: decoded_Nil)
  consider (none) "instruction_of n = None" | (pulse) "instruction_of n = Some InstPulse"
    | (cut) "instruction_of n = Some InstCut"
    using ni by (cases "instruction_of n") (auto intro: InstructionType.exhaust)
  then show ?thesis
  proof cases
    case none
    show ?thesis
    proof (cases "Contains (Space n) ''epson-pos'' \<and> Local n = ''epos-print''")
      case True
      then have "handle_token lib (StartElement n as) st
          = Return (Inr (st\<lparr>epos := (epos st)\<lparr>XMLName := n\<rparr>\<rparr>))"
        using handle_start(1) [of n lib as st] by simp
      then show ?thesis using StartElement none i c by (simp add: same del: handle_token.simps)
    next
      case False
      then have nf: "\<not> (Contains (Space n) ''epson-pos'' \<and> Local n = ''epos-print'')" by simp
      have "\<not> (Contains (Space n) ''epson-pos''
          \<and> (Local n = ''pulse'' \<or> Local n = ''cut'' \<or> Local n = ''image''))"
        using none unfolding instruction_of_cases(1) .
      then have "\<not> Contains (Space n) ''epson-pos''
         \<or> (Local n \<noteq> ''epos-print'' \<and> Local n \<noteq> ''pulse'' \<and> Local n \<noteq> ''cut'' \<and> Local n \<noteq> ''image'')"
        using nf by blast
      then have "handle_token lib (StartElement n as) st = Return (Inr st)"
        by (rule handle_start_other)
      then show ?thesis using StartElement none i c by (simp add: same del: handle_token.simps)
    qed
  next
    case pulse
    then have n: "Contains (Space n) ''epson-pos''" "Local n = ''pulse''"
      by (simp_all add: instruction_of_cases(2))
    have "handle_token lib (StartElement n as) st
        = Return (Inr (append_instruction \<lparr>Type = InstPulse, Image = None\<rparr> st))"
      by (rule handle_start(2) [OF n])
    then show ?thesis using StartElement pulse i c
      by (simp add: same append_instruction_def del: handle_token.simps)
  next
    case cut
    then have n: "Contains (Space n) ''epson-pos''" "Local n = ''cut''"
      by (simp_all add: instruction_of_cases(3))
    have "handle_token lib (StartElement n as) st
        = Return (Inr (append_instruction \<lparr>Type = InstCut, Image = None\<rparr> st))"
      by (rule handle_start(3) [OF n])
    then show ?thesis using StartElement cut i c
      by (simp add: same append_instruction_def del: handle_token.simps)
  qed
next
  case (EndElement n)
  have ni: "instruction_of n \<noteq> Some InstImage" using t EndElement by simp
  have same: "img\<lparr>Data := Data img @ decoded lib []\<rparr> = img" by (simp add: decoded_Nil)
  show ?thesis using EndElement i c handle_end_not_image [OF ni, of lib st]
    by (simp add: same del: handle_token.simps)
next
  case (CharData se)
  have dec: "decodes lib se" using d CharData by simp
  show ?thesis
  proof (cases "TrimSpace lib se = []")
    case True
    then have "decoded lib [se] = []" by (simp add: decoded_def)
    then show ?thesis using CharData True i c by (simp add: Let_def)
  next
    case False
    then obtain bs where bs: "DecodeString lib (TrimSpace lib se) = Inr bs"
      using dec by (auto simp: decodes_def split: sum.splits)
    then have "decoded lib [se] = bs" using False by (simp add: decoded_def)
    then show ?thesis using CharData False bs i c by (simp add: Let_def)
  qed
next
  case (Comment x)
  then show ?thesis using i c by (simp add: decoded_Nil)
next
  case (ProcInst x y)
  then show ?thesis using i c by (simp add: decoded_Nil)
next
  case (Directive x)
  then show ?thesis using i c by (simp add: decoded_Nil)
qed

lemma image_body:
  assumes "list_all (\<lambda>t. \<not> image_tag t) body" and "list_all (decodes lib) (char_data body)"
    and "inImage st" and "currentImage st = Some img"
  shows "\<exists>sb. parse_loop lib body st = Return (Inr sb) \<and> inImage sb
       \<and> currentImage sb = Some (img\<lparr>Data := Data img @ decoded lib (char_data body)\<rparr>)
       \<and> Instructions (epos sb) = Instructions (epos st) @ body_instructions body"
  using assms
proof (induction body arbitrary: st img)
  case Nil
  then show ?case by (simp add: decoded_Nil)
next
  case (Cons t ts)
  have t: "\<not> image_tag t" and ts: "list_all (\<lambda>t. \<not> image_tag t) ts"
    using Cons.prems(1) by simp_all
  have "list_all (decodes lib) (char_data [t] @ char_data ts)"
    using Cons.prems(2) char_data_Cons [of t ts] by simp
  then have d: "list_all (decodes lib) (char_data [t])" and ds: "list_all (decodes lib) (char_data ts)"
    by simp_all
  obtain st' where h: "handle_token lib t st = Return (Inr st')" and i': "inImage st'"
    and c': "currentImage st' = Some (img\<lparr>Data := Data img @ decoded lib (char_data [t])\<rparr>)"
    and e': "Instructions (epos st') = Instructions (epos st) @ body_instructions [t]"
    using body_token [OF t Cons.prems(3) Cons.prems(4) d] by blast
  obtain sb where p: "parse_loop lib ts st' = Return (Inr sb)" and ib: "inImage sb"
    and cb: "currentImage sb = Some ((img\<lparr>Data := Data img @ decoded lib (char_data [t])\<rparr>)
               \<lparr>Data := Data (img\<lparr>Data := Data img @ decoded lib (char_data [t])\<rparr>)
                   @ decoded lib (char_data ts)\<rparr>)"
    and eb: "Instructions (epos sb) = Instructions (epos st') @ body_instructions ts"
    using Cons.IH [OF ts ds i' c'] by blast
  have dd: "decoded lib (char_data (t # ts)) = decoded lib (char_data [t]) @ decoded lib (char_data ts)"
    using char_data_Cons [of t ts] by (simp add: decoded_append)
  have "parse_loop lib (t # ts) st = Return (Inr sb)" using h p by simp
  moreover have "currentImage sb = Some (img\<lparr>Data := Data img @ decoded lib (char_data (t # ts))\<rparr>)"
    using cb dd by simp
  moreover have "Instructions (epos sb) = Instructions (epos st) @ body_instructions (t # ts)"
    using eb e' body_instructions_Cons [of t ts] by simp
  ultimately show ?case using ib by blast
qed

lemma image_body_undecodable:
  assumes "list_all (\<lambda>t. \<not> image_tag t) body" and "\<not> list_all (decodes lib) (char_data body)"
    and "inImage st" and "currentImage st = Some img"
  shows "\<exists>err. parse_loop lib body st = Return (Inl (Base64DecodeError err))"
  using assms
proof (induction body arbitrary: st img)
  case Nil
  then show ?case by simp
next
  case (Cons t ts)
  have t: "\<not> image_tag t" and ts: "list_all (\<lambda>t. \<not> image_tag t) ts"
    using Cons.prems(1) by simp_all
  show ?case
  proof (cases "list_all (decodes lib) (char_data [t])")
    case True
    have "\<not> list_all (decodes lib) (char_data [t] @ char_data ts)"
      using Cons.prems(2) char_data_Cons [of t ts] by simp
    then have ds: "\<not> list_all (decodes lib) (char_data ts)" using True by simp
    obtain st' where h: "handle_token lib t st = Return (Inr st')" and i': "inImage st'"
      and c': "currentImage st' = Some (img\<lparr>Data := Data img @ decoded lib (char_data [t])\<rparr>)"
      using body_token [OF t Cons.prems(3) Cons.prems(4) True] by blast
    obtain err where "parse_loop lib ts st' = Return (Inl (Base64DecodeError err))"
      using Cons.IH [OF ts ds i' c'] by blast
    then show ?thesis using h by simp
  next
    case False
    then obtain se where se: "t = CharData se" and nd: "\<not> decodes lib se"
      by (cases t) simp_all
    then obtain err where "TrimSpace lib se \<noteq> []" "DecodeString lib (TrimSpace lib se) = Inl err"
      by (auto simp: decodes_def split: sum.splits)
    then have "handle_token lib t st = Return (Inl (Base64DecodeError err))"
      using se Cons.prems(3) Cons.prems(4) by (simp add: Let_def)
    then show ?thesis by simp
  qed
qed

lemma scanned_no_data:
  "Data (foldl (scan_attr lib) \<lparr>Width = 0, Height = 0, Data = []\<rparr> attrs) = []"
  by (induction attrs rule: rev_induct) (auto simp: scan_attr_def split: option.splits)

lemma image_element_general:
  assumes n: "Local n = ''image''" "Contains (Space n) ''epson-pos''"
    and body: "list_all (\<lambda>t. \<not> image_tag t) body"
    and ok: "list_all (decodes lib) (char_data body)"
  shows "\<exists>sb. parse_loop lib (StartElement n attrs # body) st = Return (Inr sb) \<and> inImage sb
       \<and> currentImage sb = Some (image_of lib attrs body)
       \<and> Instructions (epos sb) = Instructions (epos st) @ body_instructions body"
proof -
  let ?zero = "foldl (scan_attr lib) \<lparr>Width = 0, Height = 0, Data = []\<rparr> attrs"
  let ?sta = "st\<lparr>inImage := True, currentImage := Some ?zero\<rparr>"
  have s1: "handle_token lib (StartElement n attrs) st = Return (Inr ?sta)"
    using handle_start(4) [OF n(2) n(1)] by simp
  have i1: "inImage ?sta" by simp
  have c1: "currentImage ?sta = Some ?zero" by simp
  obtain sb where p: "parse_loop lib body ?sta = Return (Inr sb)" and ib: "inImage sb"
    and cb: "currentImage sb = Some (?zero\<lparr>Data := Data ?zero @ decoded lib (char_data body)\<rparr>)"
    and eb: "Instructions (epos sb) = Instructions (epos ?sta) @ body_instructions body"
    using image_body [OF body ok i1 c1] by blast
  have "parse_loop lib (StartElement n attrs # body) st = Return (Inr sb)"
    unfolding parse_loop.simps s1 using p by simp
  moreover have "currentImage sb = Some (image_of lib attrs body)"
    using cb by (simp add: image_of_def scanned_no_data)
  moreover have "Instructions (epos sb) = Instructions (epos st) @ body_instructions body"
    using eb by simp
  ultimately show ?thesis using ib by blast
qed

lemma Parse_fails:
  "parse_loop lib tokens new_parser = Return (Inl err) \<Longrightarrow> Parse lib tokens fin = Return (Inl err)"
  "parse_loop lib tokens new_parser = Return (Inl err) \<Longrightarrow> Parse0 lib tokens fin = Return (Inl err)"
  by (simp_all add: Parse_def Parse0_def)


lemma image_element_checked:
  assumes n: "Local n = ''image''" "Contains (Space n) ''epson-pos''"
    and body: "list_all (\<lambda>t. \<not> image_tag t) body"
    and reach: "parse_loop lib pre new_parser = Return (Inr st)"
  shows "list_all (decodes lib) (char_data body)
        \<and> int (length (Data (image_of lib attrs body)))
            = sint (go_quo (Width (image_of lib attrs body)) 8 * Height (image_of lib attrs body))
      \<Longrightarrow> \<exists>sb. parse_loop lib (pre @ StartElement n attrs # body @ [EndElement n]) new_parser
               = Return (Inr sb)
            \<and> Instructions (epos sb)
               = Instructions (epos st) @ body_instructions body
                 @ [\<lparr>Type = InstImage, Image = Some (image_of lib attrs body)\<rparr>]
            \<and> \<not> inImage sb \<and> currentImage sb = None
            \<and> parse_loop lib (pre @ StartElement n attrs # body @ EndElement n # rest) new_parser
               = parse_loop lib rest sb"
    and "list_all (decodes lib) (char_data body)
        \<and> int (length (Data (image_of lib attrs body)))
            \<noteq> sint (go_quo (Width (image_of lib attrs body)) 8 * Height (image_of lib attrs body))
      \<Longrightarrow> parse_loop lib (pre @ StartElement n attrs # body @ EndElement n # rest) new_parser
            = Return (Inl (ImageDataIncomplete (int (length (Data (image_of lib attrs body))))
                (sint (go_quo (Width (image_of lib attrs body)) 8 * Height (image_of lib attrs body)))
                (sint (Width (image_of lib attrs body))) (sint (Height (image_of lib attrs body)))))"
    and "\<not> list_all (decodes lib) (char_data body)
      \<Longrightarrow> \<exists>err. parse_loop lib (pre @ StartElement n attrs # body @ EndElement n # rest) new_parser
            = Return (Inl (Base64DecodeError err))"
proof -
  let ?img = "image_of lib attrs body"
  let ?zero = "foldl (scan_attr lib) \<lparr>Width = 0, Height = 0, Data = []\<rparr> attrs"
  let ?sta = "st\<lparr>inImage := True, currentImage := Some ?zero\<rparr>"
  have s1: "handle_token lib (StartElement n attrs) st = Return (Inr ?sta)"
    using handle_start(4) [OF n(2) n(1)] by simp
  have pre: "\<And>ts. parse_loop lib (pre @ ts) new_parser = parse_loop lib ts st"
    using reach by (simp add: parse_loop_append)
  {
    assume a: "list_all (decodes lib) (char_data body)
        \<and> int (length (Data ?img)) = sint (go_quo (Width ?img) 8 * Height ?img)"
    then have ok: "list_all (decodes lib) (char_data body)"
      and eq: "int (length (Data ?img)) = sint (go_quo (Width ?img) 8 * Height ?img)" by simp_all
    obtain sb where p: "parse_loop lib (StartElement n attrs # body) st = Return (Inr sb)"
      and ib: "inImage sb" and cb: "currentImage sb = Some ?img"
      and eb: "Instructions (epos sb) = Instructions (epos st) @ body_instructions body"
      using image_element_general [OF n body ok] by blast
    let ?end = "(append_instruction \<lparr>Type = InstImage, Image = Some ?img\<rparr> sb)
             \<lparr>inImage := False, currentImage := None\<rparr>"
    have e: "handle_token lib (EndElement n) sb = Return (Inr ?end)"
      unfolding handle_end_image [OF n(2) n(1) ib cb] using eq by simp
    have split: "\<And>ts. parse_loop lib (pre @ StartElement n attrs # body @ EndElement n # ts) new_parser
        = parse_loop lib ts ?end"
    proof -
      fix ts
      have "parse_loop lib ((StartElement n attrs # body) @ EndElement n # ts) st
          = parse_loop lib (EndElement n # ts) sb"
        by (rule parse_loop_append_ok [OF p])
      then show "parse_loop lib (pre @ StartElement n attrs # body @ EndElement n # ts) new_parser
        = parse_loop lib ts ?end"
        unfolding pre using e by simp
    qed
    have "parse_loop lib (pre @ StartElement n attrs # body @ [EndElement n]) new_parser = Return (Inr ?end)"
      using split [of "[]"] by simp
    moreover have "Instructions (epos ?end) = Instructions (epos st) @ body_instructions body
                 @ [\<lparr>Type = InstImage, Image = Some ?img\<rparr>]"
      using eb by (simp add: append_instruction_def)
    moreover have "\<not> inImage ?end \<and> currentImage ?end = None" by simp
    ultimately show "\<exists>sb. parse_loop lib (pre @ StartElement n attrs # body @ [EndElement n]) new_parser
               = Return (Inr sb)
            \<and> Instructions (epos sb)
               = Instructions (epos st) @ body_instructions body
                 @ [\<lparr>Type = InstImage, Image = Some ?img\<rparr>]
            \<and> \<not> inImage sb \<and> currentImage sb = None
            \<and> parse_loop lib (pre @ StartElement n attrs # body @ EndElement n # rest) new_parser
               = parse_loop lib rest sb"
      using split [of rest] by blast
  }
  {
    assume a: "list_all (decodes lib) (char_data body)
        \<and> int (length (Data ?img)) \<noteq> sint (go_quo (Width ?img) 8 * Height ?img)"
    then have ok: "list_all (decodes lib) (char_data body)"
      and ne: "int (length (Data ?img)) \<noteq> sint (go_quo (Width ?img) 8 * Height ?img)" by simp_all
    obtain sb where p: "parse_loop lib (StartElement n attrs # body) st = Return (Inr sb)"
      and ib: "inImage sb" and cb: "currentImage sb = Some ?img"
      using image_element_general [OF n body ok] by blast
    have e: "handle_token lib (EndElement n) sb
        = Return (Inl (ImageDataIncomplete (int (length (Data ?img)))
                (sint (go_quo (Width ?img) 8 * Height ?img)) (sint (Width ?img)) (sint (Height ?img))))"
      unfolding handle_end_image [OF n(2) n(1) ib cb] using ne by simp
    have "parse_loop lib ((StartElement n attrs # body) @ EndElement n # rest) st
          = parse_loop lib (EndElement n # rest) sb"
      by (rule parse_loop_append_ok [OF p])
    then show "parse_loop lib (pre @ StartElement n attrs # body @ EndElement n # rest) new_parser
            = Return (Inl (ImageDataIncomplete (int (length (Data ?img)))
                (sint (go_quo (Width ?img) 8 * Height ?img)) (sint (Width ?img)) (sint (Height ?img))))"
      unfolding pre using e by simp
  }
  {
    assume bad: "\<not> list_all (decodes lib) (char_data body)"
    have i1: "inImage ?sta" by simp
    have c1: "currentImage ?sta = Some ?zero" by simp
    obtain err where "parse_loop lib body ?sta = Return (Inl (Base64DecodeError err))"
      using image_body_undecodable [OF body bad i1 c1] by blast
    then have "parse_loop lib (StartElement n attrs # body) st = Return (Inl (Base64DecodeError err))"
      unfolding parse_loop.simps s1 by simp
    then have "parse_loop lib ((StartElement n attrs # body) @ EndElement n # rest) st
        = Return (Inl (Base64DecodeError err))"
      by (rule parse_loop_append_failed(1))
    then show "\<exists>err. parse_loop lib (pre @ StartElement n attrs # body @ EndElement n # rest) new_parser
            = Return (Inl (Base64DecodeError err))"
      unfolding pre by simp
  }
qed


lemma nested_image_example:
  "parse_loop example_lib
     [StartElement (epson ''image'') [attr ''width'' ''8'', attr ''height'' ''8''],
      CharData ''AAA='', StartElement (epson ''image'') [], EndElement (epson ''image''),
      EndElement (epson ''image'')] new_parser
   = Return (Inr \<lparr>epos = \<lparr>XMLName = \<lparr>Space = [], Local = []\<rparr>,
       Instructions = [\<lparr>Type = InstImage, Image = Some \<lparr>Width = 0, Height = 0, Data = []\<rparr>\<rparr>]\<rparr>,
       currentImage = None, inImage = False\<rparr>)"
  by (simp add: new_parser_def handle_start epson_simps handle_end_image handle_end_other
      append_instruction_def go_quo_8_examples example_lib_simps scan_attr_def attr_def Let_def
      del: handle_token.simps(1) handle_token.simps(3))

lemma C5_examples:
  "list_all (\<lambda>t. \<not> image_tag t)
     [StartElement \<lparr>Space = [], Local = ''b''\<rparr> [], CharData ''AAAAAAAAAAA='',
      EndElement \<lparr>Space = [], Local = ''b''\<rparr>]"
  "list_all (\<lambda>t. \<not> image_tag t) [CharData s]"
  "parse_loop example_lib [StartElement (epson ''pulse'') []] new_parser
     = Return (Inr (append_instruction \<lparr>Type = InstPulse, Image = None\<rparr> new_parser))"
  "list_all (decodes example_lib)
     (char_data [StartElement \<lparr>Space = [], Local = ''b''\<rparr> [], CharData ''AAAAAAAAAAA='',
      EndElement \<lparr>Space = [], Local = ''b''\<rparr>])"
  "list_all (decodes example_lib) (char_data [CharData ''AAA=''])"
  "\<not> list_all (decodes example_lib) (char_data [CharData ''!!!''])"
  "image_of example_lib [attr ''width'' ''8'', attr ''height'' ''8'']
     [StartElement \<lparr>Space = [], Local = ''b''\<rparr> [], CharData ''AAAAAAAAAAA='',
      EndElement \<lparr>Space = [], Local = ''b''\<rparr>]
     = \<lparr>Width = 8, Height = 8, Data = [0, 0, 0, 0, 0, 0, 0, 0]\<rparr>"
  "image_of example_lib [attr ''width'' ''8'', attr ''height'' ''8''] [CharData ''AAA='']
     = \<lparr>Width = 8, Height = 8, Data = [0, 0]\<rparr>"
  "body_instructions [StartElement \<lparr>Space = [], Local = ''b''\<rparr> [], CharData ''AAAAAAAAAAA='',
      EndElement \<lparr>Space = [], Local = ''b''\<rparr>] = []"
  by (simp_all add: instruction_of_def handle_start epson_simps decodes_def example_lib_def
      image_of_def scan_attr_def attr_def decoded_def del: handle_token.simps)

lemma handle_chardata_outside:
  "\<not> inImage st \<Longrightarrow> handle_token lib (CharData se) st = Return (Inr st)"
  by (simp add: Let_def split: option.splits)

lemma unrecognized_nodes_parse:
  assumes "\<And>k st. k \<in> set ks \<Longrightarrow> \<not> inImage st \<Longrightarrow>
      \<exists>st1. parse_loop lib (node_tokens k) st = Return (Inr st1) \<and> \<not> inImage st1
           \<and> Instructions (epos st1) = Instructions (epos st)"
  shows "\<not> inImage st \<Longrightarrow>
      \<exists>st1. parse_loop lib (concat (map node_tokens ks)) st = Return (Inr st1) \<and> \<not> inImage st1
           \<and> Instructions (epos st1) = Instructions (epos st)"
  using assms
proof (induction ks arbitrary: st)
  case Nil
  then show ?case by simp
next
  case (Cons k ks)
  obtain st2 where a: "parse_loop lib (node_tokens k) st = Return (Inr st2)" and o: "\<not> inImage st2"
    and i: "Instructions (epos st2) = Instructions (epos st)"
    using Cons.prems(2) [of k st] Cons.prems(1) by auto
  have "\<exists>st1. parse_loop lib (concat (map node_tokens ks)) st2 = Return (Inr st1) \<and> \<not> inImage st1
           \<and> Instructions (epos st1) = Instructions (epos st2)"
  proof (rule Cons.IH [OF o])
    fix k' and s :: parser assume "k' \<in> set ks" "\<not> inImage s"
    then show "\<exists>st1. parse_loop lib (node_tokens k') s = Return (Inr st1) \<and> \<not> inImage st1
           \<and> Instructions (epos st1) = Instructions (epos s)"
      using Cons.prems(2) [of k' s] by simp
  qed
  then obtain st1 where b: "parse_loop lib (concat (map node_tokens ks)) st2 = Return (Inr st1)"
    and o1: "\<not> inImage st1" and i1: "Instructions (epos st1) = Instructions (epos st2)" by blast
  have "parse_loop lib (concat (map node_tokens (k # ks))) st = Return (Inr st1)"
    using parse_loop_append_ok [OF a] b by simp
  then show ?case using o1 i1 i by auto
qed

lemma unrecognized_node_parses:
  "recognized k = [] \<Longrightarrow> \<not> inImage st \<Longrightarrow>
     \<exists>st1. parse_loop lib (node_tokens k) st = Return (Inr st1) \<and> \<not> inImage st1
          \<and> Instructions (epos st1) = Instructions (epos st)"
proof (induction k arbitrary: st)
  case (Element n as ks)
  have none: "instruction_of n = None" and kids: "\<forall>k\<in>set ks. recognized k = []"
    using Element.prems(1) by (auto split: option.splits)
  have "\<exists>sa. handle_token lib (StartElement n as) st = Return (Inr sa) \<and> \<not> inImage sa
      \<and> Instructions (epos sa) = Instructions (epos st)"
  proof (cases "Contains (Space n) ''epson-pos'' \<and> Local n = ''epos-print''")
    case True
    then have "handle_token lib (StartElement n as) st
        = Return (Inr (st\<lparr>epos := (epos st)\<lparr>XMLName := n\<rparr>\<rparr>))"
      using handle_start(1) [of n lib as st] by simp
    then show ?thesis using Element.prems(2) by simp
  next
    case False
    then have nf: "\<not> (Contains (Space n) ''epson-pos'' \<and> Local n = ''epos-print'')" by simp
    have "\<not> (Contains (Space n) ''epson-pos''
        \<and> (Local n = ''pulse'' \<or> Local n = ''cut'' \<or> Local n = ''image''))"
      using none unfolding instruction_of_cases(1) .
    then have "\<not> Contains (Space n) ''epson-pos''
       \<or> (Local n \<noteq> ''epos-print'' \<and> Local n \<noteq> ''pulse'' \<and> Local n \<noteq> ''cut'' \<and> Local n \<noteq> ''image'')"
      using nf by blast
    then have "handle_token lib (StartElement n as) st = Return (Inr st)"
      by (rule handle_start_other)
    then show ?thesis using Element.prems(2) by simp
  qed
  then obtain sa where a: "handle_token lib (StartElement n as) st = Return (Inr sa)"
    and oa: "\<not> inImage sa" and ia: "Instructions (epos sa) = Instructions (epos st)" by blast
  have "\<exists>sb. parse_loop lib (concat (map node_tokens ks)) sa = Return (Inr sb) \<and> \<not> inImage sb
           \<and> Instructions (epos sb) = Instructions (epos sa)"
  proof (rule unrecognized_nodes_parse [OF _ oa])
    fix k and s :: parser assume k: "k \<in> set ks" and o: "\<not> inImage s"
    have "recognized k = []" using kids k by simp
    then show "\<exists>st1. parse_loop lib (node_tokens k) s = Return (Inr st1) \<and> \<not> inImage st1
           \<and> Instructions (epos st1) = Instructions (epos s)"
      using o by (rule Element.IH [OF k])
  qed
  then obtain sb where b: "parse_loop lib (concat (map node_tokens ks)) sa = Return (Inr sb)"
    and ob: "\<not> inImage sb" and ib: "Instructions (epos sb) = Instructions (epos sa)" by blast
  have ni: "instruction_of n \<noteq> Some InstImage" using none by simp
  have c: "handle_token lib (EndElement n) sb = Return (Inr sb)"
    by (rule handle_end_not_image [OF ni])
  have "parse_loop lib (concat (map node_tokens ks) @ [EndElement n]) sa = Return (Inr sb)"
    using parse_loop_append_ok [OF b, of "[EndElement n]"] c by simp
  then have "parse_loop lib (node_tokens (Element n as ks)) st = Return (Inr sb)"
    using a by simp
  then show ?case using ob ib ia by auto
next
  case (Text se)
  then show ?case using handle_chardata_outside [of st lib se] by simp
next
  case (CommentNode x)
  then show ?case by simp
next
  case (ProcInstNode x y)
  then show ?case by simp
next
  case (DirectiveNode x)
  then show ?case by simp
qed

lemma unrecognized_document_parses:
  assumes "concat (map recognized doc) = []"
  shows "\<exists>st. parse_loop lib (document_tokens doc) new_parser = Return (Inr st)
           \<and> Instructions (epos st) = []"
proof -
  have o: "\<not> inImage new_parser" by (simp add: new_parser_def)
  have "\<exists>st1. parse_loop lib (concat (map node_tokens doc)) new_parser = Return (Inr st1)
         \<and> \<not> inImage st1 \<and> Instructions (epos st1) = Instructions (epos new_parser)"
  proof (rule unrecognized_nodes_parse [OF _ o])
    fix k and s :: parser assume k: "k \<in> set doc" and os: "\<not> inImage s"
    have "recognized k = []" using assms k by auto
    then show "\<exists>st1. parse_loop lib (node_tokens k) s = Return (Inr st1) \<and> \<not> inImage st1
           \<and> Instructions (epos st1) = Instructions (epos s)"
      using os by (rule unrecognized_node_parses)
  qed
  then show ?thesis by (auto simp: document_tokens_def new_parser_def)
qed

text \<open>
  C2 holds for \<open>Parse\<close> of \<open>src/unnamed/part_001\<close> (lemma \<open>Parse_syntax_error\<close>: an error of
  the token stream never gives a successful result, and it is the error returned unless an
  image error came first). \<open>Parse\<close> of \<open>src/epson_parser.go\<close> lines 46-53 logs the error and
  leaves the loop: on the unclosed tag of \<open>TestParse_MalformedXML\<close>, whose tokens are the
  two start tags followed by the syntax error, it returns the pulse parsed so far and no
  error.
\<close>

theorem C2_Parse0_returns_partial_result_on_syntax_error:
  "Parse0 example_lib [StartElement (epson ''epos-print'') [], StartElement (epson ''pulse'') []]
      (TokenError (External ''XML syntax error on line 1: unexpected EOF''))
   = Return (Inr \<lparr>XMLName = epson ''epos-print'',
                   Instructions = [\<lparr>Type = InstPulse, Image = None\<rparr>]\<rparr>)
   \<and> Parse example_lib [StartElement (epson ''epos-print'') [], StartElement (epson ''pulse'') []]
      (TokenError (External ''XML syntax error on line 1: unexpected EOF''))
   = Return (Inl (XMLSyntaxError (External ''XML syntax error on line 1: unexpected EOF'')))"
  using Parse0_unclosed_tag [of example_lib] by simp

text \<open>
  C5, as stated, fails in two ways. For a negative width: Go's \<open>/\<close> truncates, so
  \<open>width = -1\<close>, \<open>height = 5\<close> gives \<open>expectedBytes = 0\<close>, and an image element without
  data is appended, where floor division gives \<open>-5\<close> and a mismatch. And for an image element
  that holds another: the parser keeps one image and one \<open>inImage\<close> flag, the inner start
  tag replaces the image, the inner end tag clears the flag, and the outer end tag is
  ignored; an image declaring \<open>width=8, height=8\<close> with 2 decoded bytes followed by an empty
  inner image parses without error and only the inner image is appended.
\<close>

theorem C5_image_size_check_counterexample:
  "Parse example_lib
     [StartElement (epson ''image'') [attr ''width'' ''-1'', attr ''height'' ''5''],
      EndElement (epson ''image'')] EOF
   = Return (Inr \<lparr>XMLName = \<lparr>Space = [], Local = []\<rparr>,
       Instructions = [\<lparr>Type = InstImage, Image = Some \<lparr>Width = - 1, Height = 5, Data = []\<rparr>\<rparr>]\<rparr>)
   \<and> Parse0 example_lib
     [StartElement (epson ''image'') [attr ''width'' ''-1'', attr ''height'' ''5''],
      EndElement (epson ''image'')] EOF
   = Return (Inr \<lparr>XMLName = \<lparr>Space = [], Local = []\<rparr>,
       Instructions = [\<lparr>Type = InstImage, Image = Some \<lparr>Width = - 1, Height = 5, Data = []\<rparr>\<rparr>]\<rparr>)
   \<and> int (length ([] :: byte list)) \<noteq> (sint (- 1 :: go_int) div 8) * sint (5 :: go_int)
   \<and> Parse example_lib
     [StartElement (epson ''image'') [attr ''width'' ''8'', attr ''height'' ''8''],
      CharData ''AAA='', StartElement (epson ''image'') [], EndElement (epson ''image''),
      EndElement (epson ''image'')] EOF
   = Return (Inr \<lparr>XMLName = \<lparr>Space = [], Local = []\<rparr>,
       Instructions = [\<lparr>Type = InstImage, Image = Some \<lparr>Width = 0, Height = 0, Data = []\<rparr>\<rparr>]\<rparr>)
   \<and> Parse0 example_lib
     [StartElement (epson ''image'') [attr ''width'' ''8'', attr ''height'' ''8''],
      CharData ''AAA='', StartElement (epson ''image'') [], EndElement (epson ''image''),
      EndElement (epson ''image'')] EOF
   = Return (Inr \<lparr>XMLName = \<lparr>Space = [], Local = []\<rparr>,
       Instructions = [\<lparr>Type = InstImage, Image = Some \<lparr>Width = 0, Height = 0, Data = []\<rparr>\<rparr>]\<rparr>)
   \<and> DecodeString example_lib ''AAA='' = Inr [0, 0]
   \<and> int (length [0, 0 :: byte]) \<noteq> sint (go_quo 8 8 * 8 :: go_int)"
proof -
  have t: "Parse example_lib
     [StartElement (epson ''image'') [attr ''width'' ''-1'', attr ''height'' ''5''],
      EndElement (epson ''image'')] EOF
   = Return (Inr \<lparr>XMLName = \<lparr>Space = [], Local = []\<rparr>,
       Instructions = [\<lparr>Type = InstImage, Image = Some \<lparr>Width = - 1, Height = 5, Data = []\<rparr>\<rparr>]\<rparr>)"
    by (simp add: Parse_def image_examples(2) new_parser_def append_instruction_def
        del: parse_loop.simps)
  have t0: "Parse0 example_lib
     [StartElement (epson ''image'') [attr ''width'' ''-1'', attr ''height'' ''5''],
      EndElement (epson ''image'')] EOF
   = Return (Inr \<lparr>XMLName = \<lparr>Space = [], Local = []\<rparr>,
       Instructions = [\<lparr>Type = InstImage, Image = Some \<lparr>Width = - 1, Height = 5, Data = []\<rparr>\<rparr>]\<rparr>)"
    by (simp add: Parse0_def image_examples(2) new_parser_def append_instruction_def
        del: parse_loop.simps)
  have f: "int (length ([] :: byte list)) \<noteq> (sint (- 1 :: go_int) div 8) * sint (5 :: go_int)"
    by simp
  have n: "Parse example_lib
     [StartElement (epson ''image'') [attr ''width'' ''8'', attr ''height'' ''8''],
      CharData ''AAA='', StartElement (epson ''image'') [], EndElement (epson ''image''),
      EndElement (epson ''image'')] EOF
   = Return (Inr \<lparr>XMLName = \<lparr>Space = [], Local = []\<rparr>,
       Instructions = [\<lparr>Type = InstImage, Image = Some \<lparr>Width = 0, Height = 0, Data = []\<rparr>\<rparr>]\<rparr>)"
    unfolding Parse_def nested_image_example by simp
  have n0: "Parse0 example_lib
     [StartElement (epson ''image'') [attr ''width'' ''8'', attr ''height'' ''8''],
      CharData ''AAA='', StartElement (epson ''image'') [], EndElement (epson ''image''),
      EndElement (epson ''image'')] EOF
   = Return (Inr \<lparr>XMLName = \<lparr>Space = [], Local = []\<rparr>,
       Instructions = [\<lparr>Type = InstImage, Image = Some \<lparr>Width = 0, Height = 0, Data = []\<rparr>\<rparr>]\<rparr>)"
    unfolding Parse0_def nested_image_example by simp
  have d: "DecodeString example_lib ''AAA='' = Inr [0, 0]" by (simp add: example_lib_simps)
  have m: "int (length [0, 0 :: byte]) \<noteq> sint (go_quo 8 8 * 8 :: go_int)"
    by (simp add: go_quo_8_examples)
  show ?thesis using t t0 f n n0 d m by (intro conjI)
qed

text \<open>
  C5, amended: for every image element of the vendor namespace whose body holds no start or
  end tag of an image element of that namespace, in whatever state the parser reaches it,
  both revisions of \<open>Parse\<close> behave as follows. If some character data of the body is not
  valid base64, they fail with the decode error. Otherwise they append an Image instruction
  (the scanned width and height, defaulting to 0, and the concatenated decoded bytes, after
  the pulse and cut instructions of the body) if and only if the decoded length equals
  \<open>(width / 8) * height\<close> in Go's \<open>int\<close> arithmetic, and any mismatch makes them fail with the
  error that names the actual and the expected count. Go's division truncates towards zero
  and the product wraps at 64 bits; for \<open>width \<ge> 0\<close> and a product inside the range this is
  \<open>floor(width / 8) * height\<close>. At an end tag taken inside an image the same check is made on
  whatever image the parser holds. An image declaring \<open>width=8, height=8\<close> with 2 decoded
  bytes fails with the mismatch error.
\<close>

theorem C5_image_size_is_checked:
  assumes "Local n = ''image''" and "Contains (Space n) ''epson-pos''"
    and "list_all (\<lambda>t. \<not> image_tag t) body"
    and "parse_loop lib pre new_parser = Return (Inr st)"
  shows "(list_all (decodes lib) (char_data body)
          \<and> int (length (Data (image_of lib attrs body)))
              = sint (go_quo (Width (image_of lib attrs body)) 8 * Height (image_of lib attrs body))
        \<longrightarrow> (\<exists>sb. parse_loop lib (pre @ StartElement n attrs # body @ [EndElement n]) new_parser
                 = Return (Inr sb)
              \<and> Instructions (epos sb)
                 = Instructions (epos st) @ body_instructions body
                   @ [\<lparr>Type = InstImage, Image = Some (image_of lib attrs body)\<rparr>]
              \<and> \<not> inImage sb \<and> currentImage sb = None
              \<and> parse_loop lib (pre @ StartElement n attrs # body @ EndElement n # rest) new_parser
                 = parse_loop lib rest sb
              \<and> Parse lib (pre @ StartElement n attrs # body @ [EndElement n]) EOF
                 = Return (Inr (epos sb))
              \<and> Parse0 lib (pre @ StartElement n attrs # body @ [EndElement n]) fin
                 = Return (Inr (epos sb))))
    \<and> (list_all (decodes lib) (char_data body)
          \<and> int (length (Data (image_of lib attrs body)))
              \<noteq> sint (go_quo (Width (image_of lib attrs body)) 8 * Height (image_of lib attrs body))
        \<longrightarrow> Parse lib (pre @ StartElement n attrs # body @ EndElement n # rest) fin
              = Return (Inl (ImageDataIncomplete (int (length (Data (image_of lib attrs body))))
                  (sint (go_quo (Width (image_of lib attrs body)) 8 * Height (image_of lib attrs body)))
                  (sint (Width (image_of lib attrs body))) (sint (Height (image_of lib attrs body)))))
            \<and> Parse0 lib (pre @ StartElement n attrs # body @ EndElement n # rest) fin
              = Return (Inl (ImageDataIncomplete (int (length (Data (image_of lib attrs body))))
                  (sint (go_quo (Width (image_of lib attrs body)) 8 * Height (image_of lib attrs body)))
                  (sint (Width (image_of lib attrs body))) (sint (Height (image_of lib attrs body))))))
    \<and> (\<not> list_all (decodes lib) (char_data body)
        \<longrightarrow> (\<exists>err. Parse lib (pre @ StartElement n attrs # body @ EndElement n # rest) fin
                  = Return (Inl (Base64DecodeError err))
               \<and> Parse0 lib (pre @ StartElement n attrs # body @ EndElement n # rest) fin
                  = Return (Inl (Base64DecodeError err))))
    \<and> (inImage st' \<and> currentImage st' = Some im \<longrightarrow>
         handle_token lib (EndElement n) st' =
           (if int (length (Data im)) \<noteq> sint (go_quo (Width im) 8 * Height im)
            then Return (Inl (ImageDataIncomplete (int (length (Data im)))
                   (sint (go_quo (Width im) 8 * Height im)) (sint (Width im)) (sint (Height im))))
            else Return (Inr ((append_instruction \<lparr>Type = InstImage, Image = Some im\<rparr> st')
                   \<lparr>inImage := False, currentImage := None\<rparr>))))
    \<and> (0 \<le> sint w \<and> - (2 ^ 63) \<le> (sint w div 8) * sint h \<and> (sint w div 8) * sint h < 2 ^ 63
         \<longrightarrow> sint (go_quo w 8 * h) = (sint w div 8) * sint h)
    \<and> Parse example_lib
         [StartElement (epson ''image'') [attr ''width'' ''8'', attr ''height'' ''8''],
          CharData ''AAA='', EndElement (epson ''image'')] EOF
       = Return (Inl (ImageDataIncomplete 2 8 8 8))
    \<and> Parse0 example_lib
         [StartElement (epson ''image'') [attr ''width'' ''8'', attr ''height'' ''8''],
          CharData ''AAA='', EndElement (epson ''image'')] EOF
       = Return (Inl (ImageDataIncomplete 2 8 8 8))"
proof (intro conjI impI)
  assume a: "list_all (decodes lib) (char_data body)
          \<and> int (length (Data (image_of lib attrs body)))
              = sint (go_quo (Width (image_of lib attrs body)) 8 * Height (image_of lib attrs body))"
  obtain sb where sb: "parse_loop lib (pre @ StartElement n attrs # body @ [EndElement n]) new_parser
                 = Return (Inr sb)"
     "Instructions (epos sb)
                 = Instructions (epos st) @ body_instructions body
                   @ [\<lparr>Type = InstImage, Image = Some (image_of lib attrs body)\<rparr>]"
     "\<not> inImage sb" "currentImage sb = None"
     "parse_loop lib (pre @ StartElement n attrs # body @ EndElement n # rest) new_parser
                 = parse_loop lib rest sb"
    using image_element_checked(1) [OF assms a, of rest] by blast
  have "Parse lib (pre @ StartElement n attrs # body @ [EndElement n]) EOF = Return (Inr (epos sb))"
    "Parse0 lib (pre @ StartElement n attrs # body @ [EndElement n]) fin = Return (Inr (epos sb))"
    using sb(1) by (simp_all add: Parse_def Parse0_def split: stream_end.splits)
  then show "\<exists>sb. parse_loop lib (pre @ StartElement n attrs # body @ [EndElement n]) new_parser
                 = Return (Inr sb)
              \<and> Instructions (epos sb)
                 = Instructions (epos st) @ body_instructions body
                   @ [\<lparr>Type = InstImage, Image = Some (image_of lib attrs body)\<rparr>]
              \<and> \<not> inImage sb \<and> currentImage sb = None
              \<and> parse_loop lib (pre @ StartElement n attrs # body @ EndElement n # rest) new_parser
                 = parse_loop lib rest sb
              \<and> Parse lib (pre @ StartElement n attrs # body @ [EndElement n]) EOF
                 = Return (Inr (epos sb))
              \<and> Parse0 lib (pre @ StartElement n attrs # body @ [EndElement n]) fin
                 = Return (Inr (epos sb))"
    using sb by blast
next
  assume a: "list_all (decodes lib) (char_data body)
          \<and> int (length (Data (image_of lib attrs body)))
              \<noteq> sint (go_quo (Width (image_of lib attrs body)) 8 * Height (image_of lib attrs body))"
  note f = image_element_checked(2) [OF assms a, of rest]
  show "Parse lib (pre @ StartElement n attrs # body @ EndElement n # rest) fin
              = Return (Inl (ImageDataIncomplete (int (length (Data (image_of lib attrs body))))
                  (sint (go_quo (Width (image_of lib attrs body)) 8 * Height (image_of lib attrs body)))
                  (sint (Width (image_of lib attrs body))) (sint (Height (image_of lib attrs body)))))"
    by (rule Parse_fails(1) [OF f])
  show "Parse0 lib (pre @ StartElement n attrs # body @ EndElement n # rest) fin
              = Return (Inl (ImageDataIncomplete (int (length (Data (image_of lib attrs body))))
                  (sint (go_quo (Width (image_of lib attrs body)) 8 * Height (image_of lib attrs body)))
                  (sint (Width (image_of lib attrs body))) (sint (Height (image_of lib attrs body)))))"
    by (rule Parse_fails(2) [OF f])
next
  assume a: "\<not> list_all (decodes lib) (char_data body)"
  obtain err where f: "parse_loop lib (pre @ StartElement n attrs # body @ EndElement n # rest) new_parser
            = Return (Inl (Base64DecodeError err))"
    using image_element_checked(3) [OF assms a, of attrs rest] by blast
  show "\<exists>err. Parse lib (pre @ StartElement n attrs # body @ EndElement n # rest) fin
                  = Return (Inl (Base64DecodeError err))
               \<and> Parse0 lib (pre @ StartElement n attrs # body @ EndElement n # rest) fin
                  = Return (Inl (Base64DecodeError err))"
    using Parse_fails(1) [OF f] Parse_fails(2) [OF f] by blast
next
  assume "inImage st' \<and> currentImage st' = Some im"
  then show "handle_token lib (EndElement n) st' =
           (if int (length (Data im)) \<noteq> sint (go_quo (Width im) 8 * Height im)
            then Return (Inl (ImageDataIncomplete (int (length (Data im)))
                   (sint (go_quo (Width im) 8 * Height im)) (sint (Width im)) (sint (Height im))))
            else Return (Inr ((append_instruction \<lparr>Type = InstImage, Image = Some im\<rparr> st')
                   \<lparr>inImage := False, currentImage := None\<rparr>)))"
    using handle_end_image [OF assms(2) assms(1)] by blast
next
  assume "0 \<le> sint w \<and> - (2 ^ 63) \<le> (sint w div 8) * sint h \<and> (sint w div 8) * sint h < 2 ^ 63"
  then show "sint (go_quo w 8 * h) = (sint w div 8) * sint h"
    using go_quo_floor [of w h] by blast
next
  show "Parse example_lib
         [StartElement (epson ''image'') [attr ''width'' ''8'', attr ''height'' ''8''],
          CharData ''AAA='', EndElement (epson ''image'')] EOF
       = Return (Inl (ImageDataIncomplete 2 8 8 8))"
    by (simp add: Parse_def image_examples(1) del: parse_loop.simps)
  show "Parse0 example_lib
         [StartElement (epson ''image'') [attr ''width'' ''8'', attr ''height'' ''8''],
          CharData ''AAA='', EndElement (epson ''image'')] EOF
       = Return (Inl (ImageDataIncomplete 2 8 8 8))"
    by (simp add: Parse0_def image_examples(1) del: parse_loop.simps)
qed

theorem C5_image_size_is_checked_witness:
  "Local (epson ''image'') = ''image'' \<and> Contains (Space (epson ''image'')) ''epson-pos''
   \<and> parse_loop example_lib [StartElement (epson ''pulse'') []] new_parser
       = Return (Inr (append_instruction \<lparr>Type = InstPulse, Image = None\<rparr> new_parser))
   \<and> image_of example_lib [attr ''width'' ''8'', attr ''height'' ''8'']
       [StartElement \<lparr>Space = [], Local = ''b''\<rparr> [], CharData ''AAAAAAAAAAA='',
        EndElement \<lparr>Space = [], Local = ''b''\<rparr>]
       = \<lparr>Width = 8, Height = 8, Data = [0, 0, 0, 0, 0, 0, 0, 0]\<rparr>
   \<and> (\<exists>sb. parse_loop example_lib
          ([StartElement (epson ''pulse'') []]
           @ StartElement (epson ''image'') [attr ''width'' ''8'', attr ''height'' ''8'']
             # [StartElement \<lparr>Space = [], Local = ''b''\<rparr> [], CharData ''AAAAAAAAAAA='',
                EndElement \<lparr>Space = [], Local = ''b''\<rparr>]
             @ [EndElement (epson ''image'')]) new_parser = Return (Inr sb)
        \<and> Instructions (epos sb)
            = [\<lparr>Type = InstPulse, Image = None\<rparr>,
               \<lparr>Type = InstImage,
                  Image = Some \<lparr>Width = 8, Height = 8, Data = [0, 0, 0, 0, 0, 0, 0, 0]\<rparr>\<rparr>]
        \<and> Parse example_lib
          ([StartElement (epson ''pulse'') []]
           @ StartElement (epson ''image'') [attr ''width'' ''8'', attr ''height'' ''8'']
             # [StartElement \<lparr>Space = [], Local = ''b''\<rparr> [], CharData ''AAAAAAAAAAA='',
                EndElement \<lparr>Space = [], Local = ''b''\<rparr>]
             @ [EndElement (epson ''image'')]) EOF = Return (Inr (epos sb)))
   \<and> Parse example_lib
          ([StartElement (epson ''pulse'') []]
           @ StartElement (epson ''image'') [attr ''width'' ''8'', attr ''height'' ''8'']
             # [CharData ''AAA=''] @ EndElement (epson ''image'') # [StartElement (epson ''cut'') []]) EOF
       = Return (Inl (ImageDataIncomplete 2 8 8 8))
   \<and> (\<exists>err. Parse example_lib
          ([StartElement (epson ''pulse'') []]
           @ StartElement (epson ''image'') [attr ''width'' ''8'', attr ''height'' ''8'']
             # [CharData ''!!!''] @ EndElement (epson ''image'') # []) EOF
       = Return (Inl (Base64DecodeError err)))
   \<and> 0 \<le> sint (8 :: go_int) \<and> sint (go_quo 8 8 * 8) = (sint (8 :: go_int) div 8) * sint (8 :: go_int)
   \<and> handle_token example_lib (EndElement (epson ''image''))
        (new_parser\<lparr>inImage := True, currentImage := Some \<lparr>Width = 8, Height = 8, Data = [0, 0]\<rparr>\<rparr>)
      = Return (Inl (ImageDataIncomplete 2 8 8 8))"
proof -
  let ?pre = "[StartElement (epson ''pulse'') []]"
  let ?attrs = "[attr ''width'' ''8'', attr ''height'' ''8'']"
  let ?body = "[StartElement \<lparr>Space = [], Local = ''b''\<rparr> [], CharData ''AAAAAAAAAAA='',
      EndElement \<lparr>Space = [], Local = ''b''\<rparr>]"
  note t1 = C5_image_size_is_checked [where lib = example_lib and n = "epson ''image''" and attrs = ?attrs
      and pre = ?pre and body = ?body and fin = EOF and w = 8 and h = 8
      and st' = "new_parser\<lparr>inImage := True,
        currentImage := Some \<lparr>Width = 8, Height = 8, Data = [0, 0]\<rparr>\<rparr>"
      and im = "\<lparr>Width = 8, Height = 8, Data = [0, 0]\<rparr>",
      OF epson_simps(1) epson_simps(2) C5_examples(1) C5_examples(3)]
  note t2 = C5_image_size_is_checked [where lib = example_lib and n = "epson ''image''" and attrs = ?attrs
      and pre = ?pre and body = "[CharData ''AAA='']" and fin = EOF
      and rest = "[StartElement (epson ''cut'') []]",
      OF epson_simps(1) epson_simps(2) C5_examples(2) C5_examples(3)]
  note t3 = C5_image_size_is_checked [where lib = example_lib and n = "epson ''image''" and attrs = ?attrs
      and pre = ?pre and body = "[CharData ''!!!'']" and fin = EOF and rest = "[]",
      OF epson_simps(1) epson_simps(2) C5_examples(2) C5_examples(3)]
  have eq: "int (length (Data (image_of example_lib ?attrs ?body)))
      = sint (go_quo (Width (image_of example_lib ?attrs ?body)) 8
              * Height (image_of example_lib ?attrs ?body))"
    unfolding C5_examples(7) by (simp add: go_quo_8_examples)
  have a: "\<exists>sb. parse_loop example_lib
          (?pre @ StartElement (epson ''image'') ?attrs # ?body @ [EndElement (epson ''image'')])
          new_parser = Return (Inr sb)
        \<and> Instructions (epos sb)
            = [\<lparr>Type = InstPulse, Image = None\<rparr>,
               \<lparr>Type = InstImage,
                  Image = Some \<lparr>Width = 8, Height = 8, Data = [0, 0, 0, 0, 0, 0, 0, 0]\<rparr>\<rparr>]
        \<and> Parse example_lib
          (?pre @ StartElement (epson ''image'') ?attrs # ?body @ [EndElement (epson ''image'')])
          EOF = Return (Inr (epos sb))"
  proof -
    obtain sb where sb: "parse_loop example_lib
          (?pre @ StartElement (epson ''image'') ?attrs # ?body @ [EndElement (epson ''image'')])
          new_parser = Return (Inr sb)"
      "Instructions (epos sb)
         = Instructions (epos (append_instruction \<lparr>Type = InstPulse, Image = None\<rparr> new_parser))
           @ body_instructions ?body
           @ [\<lparr>Type = InstImage, Image = Some (image_of example_lib ?attrs ?body)\<rparr>]"
      "Parse example_lib
          (?pre @ StartElement (epson ''image'') ?attrs # ?body @ [EndElement (epson ''image'')])
          EOF = Return (Inr (epos sb))"
      using t1 [THEN conjunct1, THEN mp, OF conjI [OF C5_examples(4) eq]] by blast
    have "Instructions (epos sb)
            = [\<lparr>Type = InstPulse, Image = None\<rparr>,
               \<lparr>Type = InstImage,
                  Image = Some \<lparr>Width = 8, Height = 8, Data = [0, 0, 0, 0, 0, 0, 0, 0]\<rparr>\<rparr>]"
      unfolding sb(2) C5_examples(7) C5_examples(9)
      by (simp add: append_instruction_def new_parser_def)
    then show ?thesis using sb(1) sb(3) by blast
  qed
  have ne: "int (length (Data (image_of example_lib ?attrs [CharData ''AAA=''])))
      \<noteq> sint (go_quo (Width (image_of example_lib ?attrs [CharData ''AAA=''])) 8
              * Height (image_of example_lib ?attrs [CharData ''AAA='']))"
    unfolding C5_examples(8) by (simp add: go_quo_8_examples)
  have b: "Parse example_lib
          (?pre @ StartElement (epson ''image'') ?attrs
             # [CharData ''AAA=''] @ EndElement (epson ''image'') # [StartElement (epson ''cut'') []]) EOF
       = Return (Inl (ImageDataIncomplete 2 8 8 8))"
    using t2 [THEN conjunct2, THEN conjunct1, THEN mp, OF conjI [OF C5_examples(5) ne],
        THEN conjunct1]
    unfolding C5_examples(8) by (simp add: go_quo_8_examples)
  have c: "\<exists>err. Parse example_lib
          (?pre @ StartElement (epson ''image'') ?attrs
             # [CharData ''!!!''] @ EndElement (epson ''image'') # []) EOF
       = Return (Inl (Base64DecodeError err))"
    using t3 [THEN conjunct2, THEN conjunct2, THEN conjunct1, THEN mp, OF C5_examples(6)]
    by blast
  have d: "sint (go_quo 8 8 * 8) = (sint (8 :: go_int) div 8) * sint (8 :: go_int)"
    using t1 [THEN conjunct2, THEN conjunct2, THEN conjunct2, THEN conjunct2, THEN conjunct1]
    by simp
  have e: "handle_token example_lib (EndElement (epson ''image''))
        (new_parser\<lparr>inImage := True, currentImage := Some \<lparr>Width = 8, Height = 8, Data = [0, 0]\<rparr>\<rparr>)
      = Return (Inl (ImageDataIncomplete 2 8 8 8))"
    using t1 [THEN conjunct2, THEN conjunct2, THEN conjunct2, THEN conjunct1]
    by (simp add: go_quo_8_examples del: handle_token.simps)
  have z: "0 \<le> sint (8 :: go_int)" by simp
  show ?thesis
    using epson_simps(1) [of "''image''"] epson_simps(2) [of "''image''"] C5_examples(3)
      C5_examples(7) a b c z d e
    by (intro conjI)
qed

text \<open>
  C6, as stated, fails for elements nested in an image element: an image instruction is
  appended at the end tag, so a pulse inside an image comes out before it, and an image
  inside an image leaves one instruction for two elements.
\<close>

theorem C6_nested_elements_counterexample:
  "Parse example_lib
     (document_tokens [Element (epson ''image'') [] [Element (epson ''pulse'') [] []]]) EOF
   = Return (Inr \<lparr>XMLName = \<lparr>Space = [], Local = []\<rparr>,
       Instructions = [\<lparr>Type = InstPulse, Image = None\<rparr>,
                       \<lparr>Type = InstImage, Image = Some \<lparr>Width = 0, Height = 0, Data = []\<rparr>\<rparr>]\<rparr>)
   \<and> concat (map recognized [Element (epson ''image'') [] [Element (epson ''pulse'') [] []]])
       = [InstImage, InstPulse]
   \<and> Parse example_lib
     (document_tokens [Element (epson ''image'') [] [Element (epson ''image'') [] []]]) EOF
   = Return (Inr \<lparr>XMLName = \<lparr>Space = [], Local = []\<rparr>,
       Instructions = [\<lparr>Type = InstImage, Image = Some \<lparr>Width = 0, Height = 0, Data = []\<rparr>\<rparr>]\<rparr>)
   \<and> concat (map recognized [Element (epson ''image'') [] [Element (epson ''image'') [] []]])
       = [InstImage, InstImage]"
  by (simp add: Parse_def document_tokens_def new_parser_def handle_start epson_simps
      handle_end_image handle_end_other append_instruction_def go_quo_8_examples
      instruction_of_def del: handle_token.simps)

text \<open>
  C6, amended: for every document in which no image element of the vendor namespace
  contains a pulse, cut or image element of that namespace, and that parses without error,
  the returned sequence has exactly one instruction per pulse, cut or image element whose
  namespace contains the vendor identifier, in document order, all other elements being
  ignored. A document without such elements, whatever else it holds (other elements, text,
  comments, processing instructions, directives), parses without error and gives the empty
  sequence, and so does the document of zero bytes. Both revisions.
\<close>

theorem C6_one_instruction_per_element:
  assumes "list_all plain_images doc"
  shows "(Parse lib (document_tokens doc) EOF = Return (Inr ep)
            \<longrightarrow> map Type (Instructions ep) = concat (map recognized doc))
    \<and> (Parse0 lib (document_tokens doc) EOF = Return (Inr ep)
            \<longrightarrow> map Type (Instructions ep) = concat (map recognized doc))
    \<and> (concat (map recognized doc) = []
          \<longrightarrow> (\<exists>ep. Parse lib (document_tokens doc) EOF = Return (Inr ep) \<and> Instructions ep = [])
            \<and> (\<exists>ep. Parse0 lib (document_tokens doc) EOF = Return (Inr ep)
                  \<and> Instructions ep = []))
    \<and> Parse lib [] EOF
        = Return (Inr \<lparr>XMLName = \<lparr>Space = [], Local = []\<rparr>, Instructions = []\<rparr>)
    \<and> Parse0 lib [] EOF
        = Return (Inr \<lparr>XMLName = \<lparr>Space = [], Local = []\<rparr>, Instructions = []\<rparr>)"
proof -
  have a: "map Type (Instructions ep) = concat (map recognized doc)"
    if "Parse lib (document_tokens doc) EOF = Return (Inr ep)"
    using that document_types [OF assms] by (auto simp: Parse_at_EOF(1))
  have b: "map Type (Instructions ep) = concat (map recognized doc)"
    if "Parse0 lib (document_tokens doc) EOF = Return (Inr ep)"
    using that document_types [OF assms] by (auto simp: Parse_at_EOF(2))
  have c: "(\<exists>ep. Parse lib (document_tokens doc) EOF = Return (Inr ep) \<and> Instructions ep = [])
            \<and> (\<exists>ep. Parse0 lib (document_tokens doc) EOF = Return (Inr ep)
                  \<and> Instructions ep = [])"
    if "concat (map recognized doc) = []"
    using unrecognized_document_parses [OF that, of lib]
    by (auto simp: Parse_def Parse0_def)
  show ?thesis using a b c Parse_empty by blast
qed

lemma valid_document:
  "parse_loop example_lib
     (document_tokens
       [Element (epson ''epos-print'') []
         [Element (epson ''pulse'') [] [], Element (epson ''cut'') [] [],
          Element (epson ''image'') [attr ''width'' ''8'', attr ''height'' ''8'']
            [Text ''AAAAAAAAAAA=''],
          Element \<lparr>Space = ''http://wrong-namespace.com'', Local = ''pulse''\<rparr> [] []]])
     new_parser
   = Return (Inr \<lparr>epos = \<lparr>XMLName = epson ''epos-print'',
       Instructions = [\<lparr>Type = InstPulse, Image = None\<rparr>, \<lparr>Type = InstCut, Image = None\<rparr>,
         \<lparr>Type = InstImage,
            Image = Some \<lparr>Width = 8, Height = 8, Data = [0, 0, 0, 0, 0, 0, 0, 0]\<rparr>\<rparr>]\<rparr>,
       currentImage = None, inImage = False\<rparr>)"
proof -
  have w: "\<not> Contains ''http://wrong-namespace.com'' ''epson-pos''" by simp
  show ?thesis
    by (simp add: document_tokens_def new_parser_def handle_start epson_simps
        handle_end_image handle_end_other handle_start_other w append_instruction_def
        go_quo_8_examples example_lib_simps scan_attr_def attr_def Let_def
        del: handle_token.simps(1) handle_token.simps(3))
qed

theorem C6_one_instruction_per_element_witness:
  "list_all plain_images
     [Element (epson ''epos-print'') []
         [Element (epson ''pulse'') [] [], Element (epson ''cut'') [] [],
          Element (epson ''image'') [attr ''width'' ''8'', attr ''height'' ''8'']
            [Text ''AAAAAAAAAAA=''],
          Element \<lparr>Space = ''http://wrong-namespace.com'', Local = ''pulse''\<rparr> [] []]]
   \<and> Parse example_lib
     (document_tokens
       [Element (epson ''epos-print'') []
         [Element (epson ''pulse'') [] [], Element (epson ''cut'') [] [],
          Element (epson ''image'') [attr ''width'' ''8'', attr ''height'' ''8'']
            [Text ''AAAAAAAAAAA=''],
          Element \<lparr>Space = ''http://wrong-namespace.com'', Local = ''pulse''\<rparr> [] []]]) EOF
     = Return (Inr \<lparr>XMLName = epson ''epos-print'',
       Instructions = [\<lparr>Type = InstPulse, Image = None\<rparr>, \<lparr>Type = InstCut, Image = None\<rparr>,
         \<lparr>Type = InstImage,
            Image = Some \<lparr>Width = 8, Height = 8, Data = [0, 0, 0, 0, 0, 0, 0, 0]\<rparr>\<rparr>]\<rparr>)
   \<and> concat (map recognized
       [Element (epson ''epos-print'') []
         [Element (epson ''pulse'') [] [], Element (epson ''cut'') [] [],
          Element (epson ''image'') [attr ''width'' ''8'', attr ''height'' ''8'']
            [Text ''AAAAAAAAAAA=''],
          Element \<lparr>Space = ''http://wrong-namespace.com'', Local = ''pulse''\<rparr> [] []]])
     = [InstPulse, InstCut, InstImage]
   \<and> list_all plain_images
       [ProcInstNode ''xml'' ''version'',
        Element (epson ''epos-print'') []
          [CommentNode ''nothing to print'', Text ''hello'',
           Element \<lparr>Space = ''http://wrong-namespace.com'', Local = ''pulse''\<rparr> [] [Text ''AAA='']],
        DirectiveNode ''DOCTYPE'']
   \<and> concat (map recognized
       [ProcInstNode ''xml'' ''version'',
        Element (epson ''epos-print'') []
          [CommentNode ''nothing to print'', Text ''hello'',
           Element \<lparr>Space = ''http://wrong-namespace.com'', Local = ''pulse''\<rparr> [] [Text ''AAA='']],
        DirectiveNode ''DOCTYPE'']) = []
   \<and> (\<exists>ep. Parse example_lib (document_tokens
       [ProcInstNode ''xml'' ''version'',
        Element (epson ''epos-print'') []
          [CommentNode ''nothing to print'', Text ''hello'',
           Element \<lparr>Space = ''http://wrong-namespace.com'', Local = ''pulse''\<rparr> [] [Text ''AAA='']],
        DirectiveNode ''DOCTYPE'']) EOF = Return (Inr ep) \<and> Instructions ep = [])
   \<and> (\<exists>ep. Parse0 example_lib (document_tokens
       [ProcInstNode ''xml'' ''version'',
        Element (epson ''epos-print'') []
          [CommentNode ''nothing to print'', Text ''hello'',
           Element \<lparr>Space = ''http://wrong-namespace.com'', Local = ''pulse''\<rparr> [] [Text ''AAA='']],
        DirectiveNode ''DOCTYPE'']) EOF = Return (Inr ep) \<and> Instructions ep = [])"
proof -
  let ?doc = "[Element (epson ''epos-print'') []
         [Element (epson ''pulse'') [] [], Element (epson ''cut'') [] [],
          Element (epson ''image'') [attr ''width'' ''8'', attr ''height'' ''8'']
            [Text ''AAAAAAAAAAA=''],
          Element \<lparr>Space = ''http://wrong-namespace.com'', Local = ''pulse''\<rparr> [] []]]"
  let ?ep = "\<lparr>XMLName = epson ''epos-print'',
       Instructions = [\<lparr>Type = InstPulse, Image = None\<rparr>, \<lparr>Type = InstCut, Image = None\<rparr>,
         \<lparr>Type = InstImage,
            Image = Some \<lparr>Width = 8, Height = 8, Data = [0, 0, 0, 0, 0, 0, 0, 0]\<rparr>\<rparr>]\<rparr>"
  have w: "\<not> Contains ''http://wrong-namespace.com'' ''epson-pos''" by simp
  have i: "instruction_of (epson ''epos-print'') = None"
    "instruction_of (epson ''pulse'') = Some InstPulse"
    "instruction_of (epson ''cut'') = Some InstCut"
    "instruction_of (epson ''image'') = Some InstImage"
    "instruction_of \<lparr>Space = ''http://wrong-namespace.com'', Local = ''pulse''\<rparr> = None"
    using w by (simp_all add: instruction_of_def epson_simps)
  have p: "list_all plain_images ?doc" by (simp add: i)
  have e: "Parse example_lib (document_tokens ?doc) EOF = Return (Inr ?ep)"
    by (simp add: Parse_def valid_document)
  have "map Type (Instructions ?ep) = concat (map recognized ?doc)"
    using C6_one_instruction_per_element [OF p, of example_lib ?ep] e by blast
  then have r: "concat (map recognized ?doc) = [InstPulse, InstCut, InstImage]" by simp
  let ?quiet = "[ProcInstNode ''xml'' ''version'',
        Element (epson ''epos-print'') []
          [CommentNode ''nothing to print'', Text ''hello'',
           Element \<lparr>Space = ''http://wrong-namespace.com'', Local = ''pulse''\<rparr> [] [Text ''AAA='']],
        DirectiveNode ''DOCTYPE'']"
  have q: "list_all plain_images ?quiet" by (simp add: i)
  have n: "concat (map recognized ?quiet) = []" by (simp add: i)
  note t = C6_one_instruction_per_element [OF q, of example_lib, THEN conjunct2, THEN conjunct2,
      THEN conjunct1, THEN mp, OF n]
  show ?thesis using p e r q n t [THEN conjunct1] t [THEN conjunct2] by (intro conjI)
qed

section \<open>Opening a transport\<close>

lemma Open_when_open:
  "writer u = Some f \<Longrightarrow> UsbWriter_Open OpenFile u os = (None, u, os)"
  "conn t = Some c \<Longrightarrow> TcpWriter_Open Dial t os = (None, t, os)"
  by (simp_all add: UsbWriter_Open_def TcpWriter_Open_def)

text \<open>
  C9 holds for \<open>UsbWriter.Open\<close> and \<open>TcpWriter.Open\<close> of \<open>src/unnamed/part_002\<close> lines
  51-70 and 115-134 (lemma \<open>Open_when_open\<close>: success, the writer and the operating system
  unchanged). \<open>Open\<close> of lines 198-207 and 232-242 has no such check: on an open writer it
  opens the device or dials again and replaces the connection it held, without closing it,
  or returns the error of the new attempt.
\<close>

theorem C9_Open0_replaces_the_open_connection:
  "UsbWriter_Open0 fresh_handle \<lparr>path = ''/dev/usb/lp0'', writer = Some 0\<rparr> 1
     = (None, \<lparr>path = ''/dev/usb/lp0'', writer = Some 1\<rparr>, 2)
   \<and> TcpWriter_Open0 fresh_handle \<lparr>address = ''192.168.1.100:9100'', conn = Some 0\<rparr> 1
     = (None, \<lparr>address = ''192.168.1.100:9100'', conn = Some 1\<rparr>, 2)
   \<and> TcpWriter_Open0 refused \<lparr>address = ''192.168.1.100:9100'', conn = Some 0\<rparr> 1
     = (Some (External ''connection refused''),
        \<lparr>address = ''192.168.1.100:9100'', conn = Some 0\<rparr>, 1)
   \<and> UsbWriter_Open fresh_handle \<lparr>path = ''/dev/usb/lp0'', writer = Some 0\<rparr> 1
     = (None, \<lparr>path = ''/dev/usb/lp0'', writer = Some 0\<rparr>, 1)
   \<and> TcpWriter_Open refused \<lparr>address = ''192.168.1.100:9100'', conn = Some 0\<rparr> 1
     = (None, \<lparr>address = ''192.168.1.100:9100'', conn = Some 0\<rparr>, 1)"
  by (simp add: UsbWriter_Open0_def TcpWriter_Open0_def UsbWriter_Open_def TcpWriter_Open_def
      fresh_handle_def refused_def)

end
